(* ===== verification/Prelude.thy ===== *)
theory Prelude
  imports Main "HOL-Library.Word" "HOL-Library.Monad_Syntax"
begin

text \<open>
  Shared vocabulary of the development: the machine-integer type names, the collections of
  facts the component theories extend and use, and the generic lemmas on lists and options
  that more than one component needs.
\<close>

section \<open>Machine integers\<close>

type_synonym byte = "8 word"
type_synonym u16 = "16 word"
type_synonym u32 = "32 word"
type_synonym u64 = "64 word"

text \<open>
  An \<open>int\<close> of 32 bits.  The code is compiled with \<open>-fwrapv\<close>, which PostgreSQL puts into the flags
  that its extensions are built with: arithmetic that overflows wraps around in two's complement.
\<close>

definition is_int32 :: "int \<Rightarrow> bool" where
  "is_int32 x \<longleftrightarrow> - (2 ^ 31) \<le> x \<and> x < 2 ^ 31"

definition int32 :: "int \<Rightarrow> int" where
  "int32 x = (x + 2 ^ 31) mod 2 ^ 32 - 2 ^ 31"

lemma is_int32_int32 [simp]: "is_int32 (int32 x)"
  by (simp add: is_int32_def int32_def)

lemma int32_id [simp]: "is_int32 x \<Longrightarrow> int32 x = x"
  by (simp add: is_int32_def int32_def)

lemma is_int32_0 [simp]: "is_int32 0"
  by (simp add: is_int32_def)

lemma int32_Suc: "is_int32 x \<Longrightarrow> x < 2 ^ 31 - 1 \<Longrightarrow> int32 (x + 1) = x + 1"
  by (intro int32_id) (simp add: is_int32_def)

text \<open>
  \<open>x << n\<close> on an \<open>int\<close>.  C leaves a shift by a negative number of bits, or by 32 and more, undefined, and
  so is one whose result does not fit; what the compiled code computes then is \<open>undef x n\<close>.
\<close>

definition shift_left32 :: "(int \<Rightarrow> int \<Rightarrow> int) \<Rightarrow> int \<Rightarrow> int \<Rightarrow> int" where
  "shift_left32 undef x n =
     (if 0 \<le> x \<and> 0 \<le> n \<and> n < 32 \<and> x * 2 ^ nat n < 2 ^ 31 then x * 2 ^ nat n else undef x n)"

section \<open>Collections of facts\<close>

text \<open>
  \<open>frame_simps\<close>: fields an operation leaves alone.  \<open>trace_simps\<close>: how an operation extends
  the trace of outside calls.
\<close>

named_theorems frame_simps
named_theorems trace_simps

section \<open>Lists searched and updated by a key\<close>

text \<open>
  A linked list of records with a unique key: \<open>find\<close> is the search loop, and an assignment
  through the pointer it returns replaces the record with that key.
\<close>

definition replace_by_key :: "('a \<Rightarrow> 'k) \<Rightarrow> 'a \<Rightarrow> 'a list \<Rightarrow> 'a list" where
  "replace_by_key key x xs = map (\<lambda>y. if key y = key x then x else y) xs"

lemma map_key_replace_by_key [simp]:
  "map key (replace_by_key key x xs) = map key xs"
  by (auto simp: replace_by_key_def)

lemma length_replace_by_key [simp]: "length (replace_by_key key x xs) = length xs"
  by (simp add: replace_by_key_def)

lemma set_replace_by_key:
  "y \<in> set (replace_by_key key x xs) \<Longrightarrow> y = x \<or> (y \<in> set xs \<and> key y \<noteq> key x)"
  by (auto simp: replace_by_key_def split: if_splits)

lemma replace_by_key_mem:
  "key x \<in> key ` set xs \<Longrightarrow> x \<in> set (replace_by_key key x xs)"
  by (auto simp: replace_by_key_def)

lemma replace_by_key_other:
  "y \<in> set xs \<Longrightarrow> key y \<noteq> key x \<Longrightarrow> y \<in> set (replace_by_key key x xs)"
  by (auto simp: replace_by_key_def intro!: image_eqI [where x = y])

lemma find_key_SomeD: "find (\<lambda>y. key y = k) xs = Some x \<Longrightarrow> x \<in> set xs \<and> key x = k"
  by (auto simp: find_Some_iff)

lemma find_key_NoneD: "find (\<lambda>y. key y = k) xs = None \<Longrightarrow> k \<notin> key ` set xs"
  by (auto simp: find_None_iff)

lemma find_replace_by_key:
  "key x = k \<Longrightarrow> k \<in> key ` set xs \<Longrightarrow>
     find (\<lambda>y. key y = k) (replace_by_key key x xs) = Some x"
  by (induction xs) (auto simp: replace_by_key_def)

section \<open>Options\<close>

lemma bind_SomeE:
  assumes "Option.bind m f = Some y"
  obtains x where "m = Some x" and "f x = Some y"
  using assms by (cases m) auto

end
