(* ===== verification/Pg_Env.thy ===== *)
theory Pg_Env
  imports Prelude
begin

text \<open>
  What \<open>src/src/pg_amqp.c\<close> sees of the world: the calls it makes into the installed
  rabbitmq-c library, the socket options it sets, the clock, the SPI query on
  \<open>amqp.broker\<close> and the server log.  None of that code is under \<open>src/\<close>, so every such call is
  a field of the record \<open>rabbitmq\<close>, a parameter of the definitions that use it: a function
  from the arguments and the state of the outside world (an arbitrary type \<open>'w\<close>) to the result
  and the next state of the world.  Every call and every log line is also appended to the trace
  of the run, which is what the safety properties talk about.
\<close>

section \<open>Replies and frames of the client library\<close>

datatype reply_type =
    Response_None
  | Response_Normal
  | Response_Library_Exception
  | Response_Server_Exception

record rpc_reply =
  reply_type :: reply_type
  library_error :: int

record basic_return =
  reply_code :: int
  reply_text :: string
  ret_exchange :: string
  ret_routing_key :: string

text \<open>The method ids the drain loop distinguishes; every other id is \<open>Other_Method\<close>.\<close>

datatype mq_method =
    Basic_Return basic_return
  | Connection_Blocked
  | Connection_Unblocked
  | Channel_Close
  | Connection_Close
  | Other_Method

text \<open>A frame is a method frame or of another type (header, body, heartbeat).\<close>

datatype mq_frame = Method_Frame mq_method | Non_Method_Frame

text \<open>
  The outcome of \<open>amqp_simple_wait_frame_noblock\<close>: \<open>AMQP_STATUS_OK\<close> with a frame,
  \<open>AMQP_STATUS_TIMEOUT\<close>, or any other (error) status.
\<close>

datatype poll_result = Poll_Frame mq_frame | Poll_Timeout | Poll_Error

section \<open>Arguments\<close>

type_synonym conn_handle = nat
type_synonym timeval = "int \<times> int"

datatype field_value = Field_Boolean bool | Field_Table "(string \<times> field_value) list"

text \<open>\<open>amqp_basic_properties_t\<close>, the fields \<open>pg_amqp_publish_opt\<close> may set.\<close>

record publish_properties =
  props_flags :: u32
  delivery_mode :: int
  content_type :: string
  reply_to :: string
  correlation_id :: string

record publish_request =
  exchange :: string
  routing_key :: string
  mandatory :: bool
  immediate :: bool
  properties :: "publish_properties option"
  body :: string

record exchange_request =
  declare_exchange :: string
  declare_type :: string
  declare_passive :: bool
  declare_durable :: bool
  declare_auto_delete :: bool

text \<open>One row of \<open>amqp.broker\<close> as SPI returns it: any column may be NULL.\<close>

record broker_row =
  row_host :: "string option"
  row_port :: "int option"
  row_vhost :: "string option"
  row_user :: "string option"
  row_pass :: "string option"
  row_ssl :: "bool option"
  row_ssl_verify :: "bool option"
  row_ssl_cacert :: "string option"
  row_ssl_cert :: "string option"
  row_ssl_key :: "string option"

section \<open>Calls, log lines and the trace\<close>

datatype sock_opt = So_Rcvtimeo | So_Sndtimeo | So_Keepalive | Tcp_Nodelay
  | Tcp_Keepidle | Tcp_Keepintvl | Tcp_Keepcnt

datatype sock_val = Opt_Timeval timeval | Opt_Int int

datatype mq_call =
    New_Connection
  | Tcp_Socket_New conn_handle
  | Ssl_Socket_New conn_handle
  | Ssl_Set_Versions conn_handle
  | Ssl_Set_Verify_Peer conn_handle bool
  | Ssl_Set_Verify_Hostname conn_handle bool
  | Ssl_Set_Cacert conn_handle string
  | Ssl_Set_Key conn_handle string string
  | Socket_Open conn_handle string int timeval
  | Setsockopt int sock_opt sock_val
  | Set_Rpc_Timeout conn_handle timeval
  | Login conn_handle string int int int "(string \<times> field_value) list" string string
  | Channel_Open conn_handle nat
  | Tx_Select conn_handle nat
  | Tx_Commit conn_handle nat
  | Tx_Rollback conn_handle nat
  | Exchange_Declare conn_handle nat exchange_request
  | Basic_Publish conn_handle nat publish_request
  | Wait_Frame_Noblock conn_handle
  | Maybe_Release_Buffers conn_handle
  | Close_Connection conn_handle int
  | Destroy_Connection conn_handle
  | Spi_Connect
  | Spi_Execute int
  | Spi_Finish

text \<open>The \<open>elog(WARNING, ...)\<close> lines, with the values they print.\<close>

datatype warning =
    W_Unroutable int basic_return
  | W_Blocked int
  | W_Discarding int int
  | W_Commit_Failed int int reply_type int
  | W_Rollback_Failed int reply_type int
  | W_Savepoint int int
  | W_Invalid_Port int string int
  | W_No_Verify int string
  | W_No_Broker int
  | W_Lookup_Failed
  | W_Tls_Alloc string int int
  | W_Tcp_Alloc string int int
  | W_Connect_Failed string int int
  | W_Login_Failed string int int
  | W_Channel_Open_Failed string int int
  | W_Tx_Select_Failed string int int
  | W_Budget_Exhausted int int
  | W_Next_Host string int
  | W_Body_Too_Large int int
  | W_Publish_Blocked int
  | W_Delivery_Mode int

text \<open>
  A call without a result of interest is \<open>Call\<close>; a synchronous AMQP method is logged with the
  type of its reply, a publish with its return value, a poll with its outcome.
\<close>

datatype event =
    Call mq_call
  | Rpc mq_call reply_type
  | Sent mq_call int
  | Polled mq_call poll_result
  | Warn warning

section \<open>The outside world\<close>

text \<open>
  The last field is not a call: it is what the compiler makes of a shift that C leaves undefined.
\<close>

record 'w rabbitmq =
  new_connection :: "'w \<Rightarrow> conn_handle option \<times> 'w"
  tcp_socket_new :: "conn_handle \<Rightarrow> 'w \<Rightarrow> bool \<times> 'w"
  ssl_socket_new :: "conn_handle \<Rightarrow> 'w \<Rightarrow> bool \<times> 'w"
  socket_open_noblock :: "conn_handle \<Rightarrow> string \<Rightarrow> int \<Rightarrow> timeval \<Rightarrow> 'w \<Rightarrow> bool \<times> 'w"
  get_sockfd :: "conn_handle \<Rightarrow> 'w \<Rightarrow> int \<times> 'w"
  rpc_call :: "mq_call \<Rightarrow> 'w \<Rightarrow> rpc_reply \<times> 'w"
  basic_publish :: "conn_handle \<Rightarrow> nat \<Rightarrow> publish_request \<Rightarrow> 'w \<Rightarrow> int \<times> 'w"
  wait_frame_noblock :: "conn_handle \<Rightarrow> 'w \<Rightarrow> poll_result \<times> 'w"
  void_call :: "mq_call \<Rightarrow> 'w \<Rightarrow> 'w"
  spi_connect :: "'w \<Rightarrow> bool \<times> 'w"
  spi_select :: "int \<Rightarrow> 'w \<Rightarrow> broker_row list option \<times> 'w"
  time_now :: "'w \<Rightarrow> int \<times> 'w"
  gettimeofday :: "'w \<Rightarrow> timeval \<times> 'w"
  my_proc_pid :: int
  undefined_shift :: "int \<Rightarrow> int \<Rightarrow> int"

record 'w io =
  world :: 'w
  trace :: "event list"

definition log_event :: "event \<Rightarrow> 'w io \<Rightarrow> 'w io" where
  "log_event e s = s\<lparr>trace := trace s @ [e]\<rparr>"

definition warn :: "warning \<Rightarrow> 'w io \<Rightarrow> 'w io" where
  "warn w s = log_event (Warn w) s"

definition do_void :: "'w rabbitmq \<Rightarrow> mq_call \<Rightarrow> 'w io \<Rightarrow> 'w io" where
  "do_void E c s = log_event (Call c) (s\<lparr>world := void_call E c (world s)\<rparr>)"

text \<open>An AMQP method whose reply is then fetched with \<open>amqp_get_rpc_reply\<close>.\<close>

definition do_rpc :: "'w rabbitmq \<Rightarrow> mq_call \<Rightarrow> 'w io \<Rightarrow> rpc_reply \<times> 'w io" where
  "do_rpc E c s =
     (let (r, w) = rpc_call E c (world s)
      in (r, log_event (Rpc c (reply_type r)) (s\<lparr>world := w\<rparr>)))"

text \<open>A call that returns a value without a reply structure, logged as made.\<close>

definition do_query :: "('w \<Rightarrow> 'r \<times> 'w) \<Rightarrow> mq_call \<Rightarrow> 'w io \<Rightarrow> 'r \<times> 'w io" where
  "do_query f c s = (let (r, w) = f (world s) in (r, log_event (Call c) (s\<lparr>world := w\<rparr>)))"

text \<open>Reading the clock or the socket number leaves no mark on the trace.\<close>

definition do_read :: "('w \<Rightarrow> 'r \<times> 'w) \<Rightarrow> 'w io \<Rightarrow> 'r \<times> 'w io" where
  "do_read f s = (let (r, w) = f (world s) in (r, s\<lparr>world := w\<rparr>))"

definition do_poll :: "'w rabbitmq \<Rightarrow> conn_handle \<Rightarrow> 'w io \<Rightarrow> poll_result \<times> 'w io" where
  "do_poll E c s =
     (let (r, w) = wait_frame_noblock E c (world s)
      in (r, log_event (Polled (Wait_Frame_Noblock c) r) (s\<lparr>world := w\<rparr>)))"

definition do_publish ::
  "'w rabbitmq \<Rightarrow> conn_handle \<Rightarrow> nat \<Rightarrow> publish_request \<Rightarrow> 'w io \<Rightarrow> int \<times> 'w io" where
  "do_publish E c ch r s =
     (let (rv, w) = basic_publish E c ch r (world s)
      in (rv, log_event (Sent (Basic_Publish c ch r) rv) (s\<lparr>world := w\<rparr>)))"

section \<open>How the primitives extend the trace\<close>

lemma trace_log_event [trace_simps]: "trace (log_event e s) = trace s @ [e]"
  by (simp add: log_event_def)

lemma trace_warn [trace_simps]: "trace (warn w s) = trace s @ [Warn w]"
  by (simp add: warn_def trace_simps)

lemma trace_do_void [trace_simps]: "trace (do_void E c s) = trace s @ [Call c]"
  by (simp add: do_void_def trace_simps)

lemma trace_do_rpc [trace_simps]:
  "trace (snd (do_rpc E c s)) = trace s @ [Rpc c (reply_type (fst (do_rpc E c s)))]"
  by (simp add: do_rpc_def trace_simps case_prod_beta)

lemma trace_do_query [trace_simps]: "trace (snd (do_query f c s)) = trace s @ [Call c]"
  by (simp add: do_query_def trace_simps case_prod_beta)

lemma trace_do_read [trace_simps]: "trace (snd (do_read f s)) = trace s"
  by (simp add: do_read_def case_prod_beta)

lemma trace_do_poll [trace_simps]:
  "trace (snd (do_poll E c s)) = trace s @ [Polled (Wait_Frame_Noblock c) (fst (do_poll E c s))]"
  by (simp add: do_poll_def trace_simps case_prod_beta)

lemma trace_do_publish [trace_simps]:
  "trace (snd (do_publish E c ch q s)) =
     trace s @ [Sent (Basic_Publish c ch q) (fst (do_publish E c ch q s))]"
  by (simp add: do_publish_def trace_simps case_prod_beta)

section \<open>Growth of the trace by events of one kind\<close>

text \<open>\<open>grows P s s'\<close>: the run from \<open>s\<close> to \<open>s'\<close> only added events that satisfy \<open>P\<close>.\<close>

definition grows :: "(event \<Rightarrow> bool) \<Rightarrow> 'w io \<Rightarrow> 'w io \<Rightarrow> bool" where
  "grows P s s' \<longleftrightarrow> (\<exists>es. trace s' = trace s @ es \<and> list_all P es)"

lemma growsI: "trace s' = trace s @ es \<Longrightarrow> list_all P es \<Longrightarrow> grows P s s'"
  by (auto simp: grows_def)

lemma grows_refl [simp, intro]: "grows P s s"
  by (rule growsI [where es = "[]"]) auto

lemma grows_trans [trans]: "grows P s t \<Longrightarrow> grows P t u \<Longrightarrow> grows P s u"
  by (fastforce simp: grows_def)

lemma grows_mono: "grows P s t \<Longrightarrow> (\<And>e. P e \<Longrightarrow> Q e) \<Longrightarrow> grows Q s t"
  by (auto simp: grows_def list_all_iff)

lemma grows_snoc: "grows P s t \<Longrightarrow> trace u = trace t @ [e] \<Longrightarrow> P e \<Longrightarrow> grows P s u"
  by (erule grows_trans) (rule growsI, auto)

lemma grows_event: "P e \<Longrightarrow> trace t = trace s @ [e] \<Longrightarrow> grows P s t"
  by (rule growsI) auto

lemma grows_same: "trace t = trace s \<Longrightarrow> grows P s t"
  by (rule growsI [where es = "[]"]) auto

lemma grows_warn: "grows P s t \<Longrightarrow> P (Warn w) \<Longrightarrow> grows P s (warn w t)"
  by (erule grows_snoc) (auto simp: trace_simps)

lemma grows_do_void: "grows P s t \<Longrightarrow> P (Call c) \<Longrightarrow> grows P s (do_void E c t)"
  by (erule grows_snoc) (auto simp: trace_simps)

lemma grows_do_rpc:
  "grows P s t \<Longrightarrow> P (Rpc c (reply_type (fst (do_rpc E c t)))) \<Longrightarrow>
     grows P s (snd (do_rpc E c t))"
  by (erule grows_snoc) (auto simp: trace_simps)

lemma grows_do_query: "grows P s t \<Longrightarrow> P (Call c) \<Longrightarrow> grows P s (snd (do_query f c t))"
  by (erule grows_snoc) (auto simp: trace_simps)

lemma grows_do_read: "grows P s t \<Longrightarrow> grows P s (snd (do_read f t))"
  by (simp add: grows_def trace_simps)

lemma grows_do_publish:
  "grows P s t \<Longrightarrow> P (Sent (Basic_Publish c ch q) (fst (do_publish E c ch q t))) \<Longrightarrow>
     grows P s (snd (do_publish E c ch q t))"
  by (erule grows_snoc) (auto simp: trace_simps)

lemma grows_if: "(Q \<Longrightarrow> grows P s t) \<Longrightarrow> (\<not> Q \<Longrightarrow> grows P s u) \<Longrightarrow> grows P s (if Q then t else u)"
  by simp

lemmas grows_steps =
  grows_refl grows_warn grows_do_void grows_do_rpc grows_do_query grows_do_read grows_do_publish

lemma grows_set: "grows P s s' \<Longrightarrow> e \<in> set (trace s) \<Longrightarrow> e \<in> set (trace s')"
  by (auto simp: grows_def)

lemma grows_new: "grows P s s' \<Longrightarrow> e \<in> set (trace s') \<Longrightarrow> e \<in> set (trace s) \<or> P e"
  by (auto simp: grows_def list_all_iff)

lemma grows_filter: "grows P s s' \<Longrightarrow> (\<And>e. P e \<Longrightarrow> \<not> Q e) \<Longrightarrow>
    filter Q (trace s') = filter Q (trace s)"
  by (auto simp: grows_def list_all_iff filter_empty_conv)

end
