(* ===== verification/Pg_State.thy ===== *)
theory Pg_State
  imports Pg_Env
begin

text \<open>
  The per-backend broker state of \<open>src/src/pg_amqp.c\<close> and the operations every entry point
  shares: the cached host rows, \<open>struct brokerstate\<close> and the list \<open>HEAD_BS\<close>, the tunable
  timeouts, \<open>local_amqp_set_timeout\<close>, \<open>local_amqp_disconnect_bs\<close>,
  \<open>local_amqp_drain_returns\<close> and \<open>local_amqp_get_a_bs\<close>.
\<close>

section \<open>Tunables\<close>

record gucs =
  amqp_connect_timeout_ms :: int
  amqp_handshake_timeout_ms :: int
  amqp_operation_timeout_ms :: int
  amqp_commit_timeout_ms :: int
  amqp_max_body_bytes :: int
  amqp_connect_budget_ms :: int

definition default_gucs :: gucs where
  "default_gucs =
     \<lparr>amqp_connect_timeout_ms = 2000,
      amqp_handshake_timeout_ms = 2000,
      amqp_operation_timeout_ms = 30000,
      amqp_commit_timeout_ms = 2000,
      amqp_max_body_bytes = 0,
      amqp_connect_budget_ms = 0\<rparr>"

definition AMQP_RECONNECT_BACKOFF_BASE_SEC :: int where
  "AMQP_RECONNECT_BACKOFF_BASE_SEC = 2"

definition AMQP_RECONNECT_BACKOFF_CAP_SEC :: int where
  "AMQP_RECONNECT_BACKOFF_CAP_SEC = 30"

definition AMQP_GRACEFUL_CLOSE_MS :: int where
  "AMQP_GRACEFUL_CLOSE_MS = 500"

section \<open>Broker hosts and broker state\<close>

record broker_host =
  host :: string
  port :: int
  vhost :: string
  user :: string
  pass :: string
  use_ssl :: bool
  ssl_verify :: bool
  ssl_cacert :: "string option"
  ssl_cert :: "string option"
  ssl_key :: "string option"

text \<open>
  \<open>struct brokerstate\<close> without its \<open>next\<close> pointer (the list is a HOL list).  The flags
  \<open>inerror\<close> and \<open>blocked\<close>, C integers only ever set to 0 and 1, are booleans; \<open>conn\<close> and
  \<open>hosts\<close> are NULL as \<open>None\<close>.  The counters \<open>uncommitted\<close> and \<open>consecutive_failures\<close> are C integers
  of 32 bits (\<open>is_int32\<close>, part of the invariant below), and every \<open>++\<close> on them wraps (\<open>int32\<close>).
\<close>

record brokerstate =
  broker_id :: int
  conn :: "conn_handle option"
  sockfd :: int
  uncommitted :: int
  inerror :: bool
  blocked :: bool
  idx :: int
  consecutive_failures :: int
  last_failed_connect :: int
  hosts :: "broker_host list option"
  nhosts :: int

text \<open>The state of one backend: \<open>HEAD_BS\<close> (newest first) and the outside world.\<close>

record 'w backend =
  head_bs :: "brokerstate list"
  bio :: "'w io"

definition put_bs :: "brokerstate \<Rightarrow> brokerstate list \<Rightarrow> brokerstate list" where
  "put_bs b l = replace_by_key broker_id b l"

section \<open>local_amqp_get_a_bs\<close>

text \<open>The state \<open>MemoryContextAllocZero\<close> leaves, with the two assignments that follow it.\<close>

definition fresh_bs :: "int \<Rightarrow> brokerstate" where
  "fresh_bs i =
     \<lparr>broker_id = i, conn = None, sockfd = -1, uncommitted = 0, inerror = False,
      blocked = False, idx = 0, consecutive_failures = 0, last_failed_connect = 0,
      hosts = None, nhosts = 0\<rparr>"

definition local_amqp_get_a_bs ::
  "int \<Rightarrow> brokerstate list \<Rightarrow> brokerstate \<times> brokerstate list" where
  "local_amqp_get_a_bs i l =
     (case find (\<lambda>b. broker_id b = i) l of
        Some b \<Rightarrow> (b, l)
      | None \<Rightarrow> (fresh_bs i, fresh_bs i # l))"

section \<open>local_amqp_now_ms, local_amqp_set_timeout\<close>

definition local_amqp_now_ms :: "'w rabbitmq \<Rightarrow> 'w io \<Rightarrow> int \<times> 'w io" where
  "local_amqp_now_ms E s =
     (let ((tv_sec, tv_usec), s1) = do_read (gettimeofday E) s
      in (tv_sec * 1000 + tv_usec div 1000, s1))"

definition timeval_of_ms :: "int \<Rightarrow> timeval" where
  "timeval_of_ms ms = (ms div 1000, (ms mod 1000) * 1000)"

definition local_amqp_set_timeout ::
  "'w rabbitmq \<Rightarrow> brokerstate \<Rightarrow> int \<Rightarrow> 'w io \<Rightarrow> 'w io" where
  "local_amqp_set_timeout E b ms s =
     (let tv = timeval_of_ms ms;
          s1 = (if sockfd b \<ge> 0
                then do_void E (Setsockopt (sockfd b) So_Sndtimeo (Opt_Timeval tv))
                       (do_void E (Setsockopt (sockfd b) So_Rcvtimeo (Opt_Timeval tv)) s)
                else s)
      in (case conn b of
            None \<Rightarrow> s1
          | Some c \<Rightarrow> do_void E (Set_Rpc_Timeout c tv) s1))"

section \<open>local_amqp_disconnect_bs\<close>

definition AMQP_REPLY_SUCCESS :: int where "AMQP_REPLY_SUCCESS = 200"

definition local_amqp_disconnect_bs ::
  "'w rabbitmq \<Rightarrow> brokerstate \<Rightarrow> bool \<Rightarrow> 'w io \<Rightarrow> brokerstate \<times> 'w io" where
  "local_amqp_disconnect_bs E b graceful s =
     (case conn b of
        None \<Rightarrow> (b, s)
      | Some c \<Rightarrow>
          let s1 = (if graceful
                    then do_void E (Close_Connection c AMQP_REPLY_SUCCESS)
                           (do_void E (Set_Rpc_Timeout c (0, AMQP_GRACEFUL_CLOSE_MS * 1000)) s)
                    else s);
              s2 = do_void E (Destroy_Connection c) s1
          in (b\<lparr>conn := None, sockfd := -1, uncommitted := 0, blocked := False\<rparr>, s2))"

section \<open>local_amqp_drain_returns\<close>

text \<open>
  The \<open>switch\<close> on one polled frame: the broker state and log it leaves, and whether the
  broker is tearing the connection down (\<open>return -1\<close>).
\<close>

definition drain_frame ::
  "brokerstate \<Rightarrow> mq_frame \<Rightarrow> 'w io \<Rightarrow> bool \<times> brokerstate \<times> 'w io" where
  "drain_frame b f s =
     (case f of
        Non_Method_Frame \<Rightarrow> (False, b, s)
      | Method_Frame m \<Rightarrow>
          (case m of
             Basic_Return r \<Rightarrow> (False, b, warn (W_Unroutable (broker_id b) r) s)
           | Connection_Blocked \<Rightarrow>
               (False, b\<lparr>blocked := True\<rparr>,
                if blocked b then s else warn (W_Blocked (broker_id b)) s)
           | Connection_Unblocked \<Rightarrow> (False, b\<lparr>blocked := False\<rparr>, s)
           | Channel_Close \<Rightarrow> (True, b, s)
           | Connection_Close \<Rightarrow> (True, b, s)
           | Other_Method \<Rightarrow> (False, b, s)))"

text \<open>
  The polling loop.  How many frames the broker has pushed is up to the broker, so the loop may
  not return: \<open>None\<close>.  The boolean is the C result, \<open>True\<close> for 0 (usable).
\<close>

partial_function (option) drain_loop ::
  "'w rabbitmq \<Rightarrow> conn_handle \<Rightarrow> brokerstate \<Rightarrow> 'w io \<Rightarrow> (bool \<times> brokerstate \<times> 'w io) option"
where
  "drain_loop E c b s =
     (case fst (do_poll E c s) of
        Poll_Timeout \<Rightarrow> Some (True, b, snd (do_poll E c s))
      | Poll_Error \<Rightarrow> Some (False, b, snd (do_poll E c s))
      | Poll_Frame f \<Rightarrow>
          (let d = drain_frame b f (snd (do_poll E c s));
               s2 = do_void E (Maybe_Release_Buffers c) (snd (snd d))
           in if fst d then Some (False, fst (snd d), s2)
              else drain_loop E c (fst (snd d)) s2))"

definition local_amqp_drain_returns ::
  "'w rabbitmq \<Rightarrow> brokerstate \<Rightarrow> 'w io \<Rightarrow> (bool \<times> brokerstate \<times> 'w io) option" where
  "local_amqp_drain_returns E b s =
     (case conn b of None \<Rightarrow> Some (False, b, s) | Some c \<Rightarrow> drain_loop E c b s)"

section \<open>local_amqp_free_hosts\<close>

definition local_amqp_free_hosts :: "brokerstate \<Rightarrow> brokerstate" where
  "local_amqp_free_hosts b =
     (case hosts b of None \<Rightarrow> b | Some _ \<Rightarrow> b\<lparr>hosts := None, nhosts := 0\<rparr>)"

section \<open>The invariant of a broker state\<close>

text \<open>
  What holds at every point where a broker state is not being connected: no connection means no
  socket, nothing buffered and no back-pressure flag; the cached host list, its length and the
  failover index agree; the counters are integers of 32 bits.
\<close>

definition hosts_ok :: "brokerstate \<Rightarrow> bool" where
  "hosts_ok b =
     (case hosts b of
        None \<Rightarrow> nhosts b = 0 \<and> idx b = 0
      | Some hs \<Rightarrow> hs \<noteq> [] \<and> nhosts b = int (length hs) \<and> 0 \<le> idx b \<and> idx b < nhosts b
          \<and> list_all (\<lambda>h. 1 \<le> port h \<and> port h \<le> 65535) hs)"

definition bs_core :: "brokerstate \<Rightarrow> bool" where
  "bs_core b \<longleftrightarrow>
     (conn b = None \<longrightarrow> sockfd b = -1 \<and> uncommitted b = 0 \<and> \<not> blocked b) \<and>
     is_int32 (uncommitted b) \<and> is_int32 (consecutive_failures b) \<and> hosts_ok b"

definition bs_ok :: "brokerstate \<Rightarrow> bool" where
  "bs_ok b \<longleftrightarrow> bs_core b \<and>
     (conn b \<noteq> None \<longrightarrow>
        consecutive_failures b = 0 \<and> last_failed_connect b = 0 \<and> hosts b \<noteq> None)"

lemma bs_ok_core: "bs_ok b \<Longrightarrow> bs_core b"
  by (simp add: bs_ok_def)

lemma hosts_ok_frame [frame_simps]:
  "hosts_ok (b\<lparr>conn := x\<rparr>) = hosts_ok b" "hosts_ok (b\<lparr>sockfd := y\<rparr>) = hosts_ok b"
  "hosts_ok (b\<lparr>uncommitted := y\<rparr>) = hosts_ok b" "hosts_ok (b\<lparr>inerror := z\<rparr>) = hosts_ok b"
  "hosts_ok (b\<lparr>blocked := z\<rparr>) = hosts_ok b"
  "hosts_ok (b\<lparr>consecutive_failures := y\<rparr>) = hosts_ok b"
  "hosts_ok (b\<lparr>last_failed_connect := y\<rparr>) = hosts_ok b"
  by (simp_all add: hosts_ok_def split: option.split)

lemma hosts_ok_cong:
  "hosts b' = hosts b \<Longrightarrow> nhosts b' = nhosts b \<Longrightarrow> idx b' = idx b \<Longrightarrow> hosts_ok b' = hosts_ok b"
  by (simp add: hosts_ok_def split: option.split)

lemma fresh_bs_ok: "bs_ok (fresh_bs i)"
  by (simp add: bs_ok_def bs_core_def hosts_ok_def fresh_bs_def)

lemma bs_ok_no_conn: "bs_ok b \<Longrightarrow> conn b = None \<Longrightarrow> uncommitted b = 0"
  by (simp add: bs_ok_def bs_core_def)

lemma bs_ok_int32:
  "bs_ok b \<Longrightarrow> is_int32 (uncommitted b)" "bs_ok b \<Longrightarrow> is_int32 (consecutive_failures b)"
  by (simp_all add: bs_ok_def bs_core_def)

lemma bs_ok_inerror [simp]: "bs_ok (b\<lparr>inerror := v\<rparr>) = bs_ok b"
  by (simp add: bs_ok_def bs_core_def frame_simps)

lemma bs_ok_clear_uncommitted: "bs_ok b \<Longrightarrow> bs_ok (b\<lparr>uncommitted := 0\<rparr>)"
  by (simp add: bs_ok_def bs_core_def frame_simps)

section \<open>local_amqp_disconnect_bs\<close>

lemma disconnect_bs_fields [simp]:
  "conn (fst (local_amqp_disconnect_bs E b g s)) = None"
  "broker_id (fst (local_amqp_disconnect_bs E b g s)) = broker_id b"
  "inerror (fst (local_amqp_disconnect_bs E b g s)) = inerror b"
  "idx (fst (local_amqp_disconnect_bs E b g s)) = idx b"
  "consecutive_failures (fst (local_amqp_disconnect_bs E b g s)) = consecutive_failures b"
  "last_failed_connect (fst (local_amqp_disconnect_bs E b g s)) = last_failed_connect b"
  "hosts (fst (local_amqp_disconnect_bs E b g s)) = hosts b"
  "nhosts (fst (local_amqp_disconnect_bs E b g s)) = nhosts b"
  by (auto simp: local_amqp_disconnect_bs_def Let_def split: option.split)

lemma disconnect_bs_cleared:
  "bs_core b \<Longrightarrow>
     uncommitted (fst (local_amqp_disconnect_bs E b g s)) = 0 \<and>
     sockfd (fst (local_amqp_disconnect_bs E b g s)) = -1 \<and>
     \<not> blocked (fst (local_amqp_disconnect_bs E b g s))"
  by (auto simp: local_amqp_disconnect_bs_def Let_def bs_core_def split: option.split)

lemma disconnect_bs_core: "bs_core b \<Longrightarrow> bs_core (fst (local_amqp_disconnect_bs E b g s))"
  using disconnect_bs_cleared [of b E g s]
  by (simp add: bs_core_def hosts_ok_cong [of "fst (local_amqp_disconnect_bs E b g s)" b])

lemma disconnect_bs_ok: "bs_ok b \<Longrightarrow> bs_ok (fst (local_amqp_disconnect_bs E b g s))"
  using disconnect_bs_core [of b E g s] by (simp add: bs_ok_def)

lemma disconnect_bs_uncommitted:
  "bs_ok b \<Longrightarrow> uncommitted (fst (local_amqp_disconnect_bs E b g s)) = 0"
  using disconnect_bs_cleared [of b E g s] bs_ok_core by blast

text \<open>The events of a teardown.\<close>

fun is_teardown_event :: "event \<Rightarrow> bool" where
  "is_teardown_event (Call (Set_Rpc_Timeout _ _)) = True"
| "is_teardown_event (Call (Close_Connection _ _)) = True"
| "is_teardown_event (Call (Destroy_Connection _)) = True"
| "is_teardown_event _ = False"

lemma disconnect_bs_grows:
  "grows is_teardown_event s (snd (local_amqp_disconnect_bs E b g s))"
  unfolding local_amqp_disconnect_bs_def Let_def
  by (auto split: option.split intro!: grows_steps)

text \<open>An ungraceful teardown makes one call: it never waits for the broker.\<close>

lemma disconnect_hard_trace:
  "trace (snd (local_amqp_disconnect_bs E b False s)) =
     trace s @ (case conn b of None \<Rightarrow> [] | Some c \<Rightarrow> [Call (Destroy_Connection c)])"
  by (simp add: local_amqp_disconnect_bs_def trace_simps split: option.split)

lemma grows_disconnect_hard:
  "grows P s t \<Longrightarrow> (\<And>c. P (Call (Destroy_Connection c))) \<Longrightarrow>
     grows P s (snd (local_amqp_disconnect_bs E b False t))"
  by (erule grows_trans, rule growsI [OF disconnect_hard_trace]) (simp split: option.split)

section \<open>local_amqp_set_timeout\<close>

definition timeout_calls :: "brokerstate \<Rightarrow> int \<Rightarrow> event list" where
  "timeout_calls b ms =
     (if sockfd b \<ge> 0
      then [Call (Setsockopt (sockfd b) So_Rcvtimeo (Opt_Timeval (timeval_of_ms ms))),
            Call (Setsockopt (sockfd b) So_Sndtimeo (Opt_Timeval (timeval_of_ms ms)))]
      else []) @
     (case conn b of None \<Rightarrow> [] | Some c \<Rightarrow> [Call (Set_Rpc_Timeout c (timeval_of_ms ms))])"

lemma set_timeout_trace:
  "trace (local_amqp_set_timeout E b ms s) = trace s @ timeout_calls b ms"
  by (simp add: local_amqp_set_timeout_def timeout_calls_def Let_def trace_simps split: option.split)

lemma timeout_calls_blocked [simp]: "timeout_calls (b\<lparr>blocked := v\<rparr>) ms = timeout_calls b ms"
  by (simp add: timeout_calls_def)

fun is_timeout_event :: "event \<Rightarrow> bool" where
  "is_timeout_event (Call (Set_Rpc_Timeout _ _)) = True"
| "is_timeout_event (Call (Setsockopt _ _ _)) = True"
| "is_timeout_event _ = False"

lemma set_timeout_grows: "grows is_timeout_event s (local_amqp_set_timeout E b ms s)"
  unfolding local_amqp_set_timeout_def Let_def
  by (auto split: option.split intro!: grows_steps)

section \<open>local_amqp_drain_returns\<close>

fun is_drain_event :: "conn_handle \<Rightarrow> event \<Rightarrow> bool" where
  "is_drain_event c (Polled (Wait_Frame_Noblock c') _) = (c' = c)"
| "is_drain_event c (Call (Maybe_Release_Buffers c')) = (c' = c)"
| "is_drain_event c (Warn (W_Unroutable _ _)) = True"
| "is_drain_event c (Warn (W_Blocked _)) = True"
| "is_drain_event c _ = False"

lemma drain_frame_blocked: "\<exists>v. fst (snd (drain_frame b f s)) = b\<lparr>blocked := v\<rparr>"
proof -
  have "\<exists>v. b = b\<lparr>blocked := v\<rparr>" by (rule exI [where x = "blocked b"]) simp
  then show ?thesis
    by (auto simp: drain_frame_def split: mq_frame.split mq_method.split)
qed

lemma drain_frame_grows: "grows (is_drain_event c) s (snd (snd (drain_frame b f s)))"
  by (auto simp: drain_frame_def intro!: grows_steps split: mq_frame.split mq_method.split)

lemma do_poll_grows: "grows (is_drain_event c) s (snd (do_poll E c s))"
  by (rule grows_event [where e = "Polled (Wait_Frame_Noblock c) (fst (do_poll E c s))"])
     (auto simp: trace_simps)

lemma drain_loop_effect:
  fixes b :: brokerstate and s :: "'a io"
  assumes "drain_loop E c b s = Some r"
  shows "(\<exists>v. fst (snd r) = b\<lparr>blocked := v\<rparr>) \<and> grows (is_drain_event c) s (snd (snd r))"
proof (rule drain_loop.raw_induct [where
      P = "\<lambda>E c b s r. (\<exists>v. fst (snd r) = b\<lparr>blocked := v\<rparr>) \<and> grows (is_drain_event c) s (snd (snd r))",
      OF _ assms])
  fix f :: "'a rabbitmq \<Rightarrow> conn_handle \<Rightarrow> brokerstate \<Rightarrow> 'a io \<Rightarrow>
      (bool \<times> brokerstate \<times> 'a io) option"
    and E :: "'a rabbitmq" and c and b :: brokerstate and s :: "'a io" and r
  assume IH: "\<And>E c b s r. f E c b s = Some r \<Longrightarrow>
      (\<exists>v. fst (snd r) = b\<lparr>blocked := v\<rparr>) \<and> grows (is_drain_event c) s (snd (snd r))"
  assume eq: "(case fst (do_poll E c s) of
        Poll_Frame fr \<Rightarrow>
          (let d = drain_frame b fr (snd (do_poll E c s));
               s2 = do_void E (Maybe_Release_Buffers c) (snd (snd d))
           in if fst d then Some (False, fst (snd d), s2) else f E c (fst (snd d)) s2)
      | Poll_Timeout \<Rightarrow> Some (True, b, snd (do_poll E c s))
      | Poll_Error \<Rightarrow> Some (False, b, snd (do_poll E c s))) = Some r"
  have self: "\<exists>v. b = b\<lparr>blocked := v\<rparr>" by (rule exI [where x = "blocked b"]) simp
  show "(\<exists>v. fst (snd r) = b\<lparr>blocked := v\<rparr>) \<and> grows (is_drain_event c) s (snd (snd r))"
  proof (cases "fst (do_poll E c s)")
    case (Poll_Frame fr)
    let ?d = "drain_frame b fr (snd (do_poll E c s))"
    let ?s2 = "do_void E (Maybe_Release_Buffers c) (snd (snd ?d))"
    obtain v where v: "fst (snd ?d) = b\<lparr>blocked := v\<rparr>"
      using drain_frame_blocked by blast
    have g: "grows (is_drain_event c) s ?s2"
      by (rule grows_trans [OF do_poll_grows], rule grows_trans [OF drain_frame_grows])
         (auto intro!: grows_steps)
    show ?thesis
    proof (cases "fst ?d")
      case True
      with eq Poll_Frame v g show ?thesis by (auto simp: Let_def)
    next
      case False
      with eq Poll_Frame have "f E c (fst (snd ?d)) ?s2 = Some r" by (simp add: Let_def)
      from IH [OF this] v g show ?thesis by (auto intro: grows_trans)
    qed
  qed (use eq self do_poll_grows [of c s E] in auto)
qed

lemma drain_returns_effect:
  assumes "local_amqp_drain_returns E b s = Some (ok, b', s')"
  shows "(\<exists>v. b' = b\<lparr>blocked := v\<rparr>) \<and> (case conn b of None \<Rightarrow> s' = s | Some c \<Rightarrow> grows (is_drain_event c) s s')"
proof (cases "conn b")
  case None
  with assms show ?thesis
    by (auto simp: local_amqp_drain_returns_def intro: exI [where x = "blocked b"])
next
  case (Some c)
  with assms have "drain_loop E c b s = Some (ok, b', s')"
    by (simp add: local_amqp_drain_returns_def)
  from drain_loop_effect [OF this] Some show ?thesis by simp
qed

lemma drain_returns_grows:
  assumes "local_amqp_drain_returns E b s = Some (ok, b', s')"
    and "\<And>c e. conn b = Some c \<Longrightarrow> is_drain_event c e \<Longrightarrow> P e"
  shows "grows P s s'"
proof (cases "conn b")
  case None
  with drain_returns_effect [OF assms(1)] show ?thesis by simp
next
  case (Some c)
  with drain_returns_effect [OF assms(1)] have "grows (is_drain_event c) s s'" by simp
  then show ?thesis by (rule grows_mono) (rule assms(2) [OF Some])
qed

lemma drain_returns_ok:
  assumes "local_amqp_drain_returns E b s = Some (ok, b', s')" and "bs_ok b"
  shows "bs_ok b'"
proof (cases "conn b")
  case None
  with assms show ?thesis by (simp add: local_amqp_drain_returns_def)
next
  case (Some c)
  obtain v where "b' = b\<lparr>blocked := v\<rparr>" using drain_returns_effect [OF assms(1)] by blast
  with assms(2) Some show ?thesis by (simp add: bs_ok_def bs_core_def frame_simps)
qed

text \<open>
  The loop returns when the broker has only finitely many frames on the way: \<open>pending\<close> bounds
  what is still to be polled on any connection.  Documented behaviour of the library's
  non-blocking read: it hands out one received frame per call.
\<close>

definition polls_run_dry :: "'w rabbitmq \<Rightarrow> ('w \<Rightarrow> nat) \<Rightarrow> bool" where
  "polls_run_dry E pending \<longleftrightarrow>
     (\<forall>c w f w'. wait_frame_noblock E c w = (Poll_Frame f, w') \<longrightarrow> pending w' < pending w) \<and>
     (\<forall>c w. pending (void_call E (Maybe_Release_Buffers c) w) \<le> pending w)"

lemma world_drain_frame [simp]: "world (snd (snd (drain_frame b f s))) = world s"
  by (simp add: drain_frame_def warn_def log_event_def split: mq_frame.split mq_method.split)

lemma drain_loop_returns:
  assumes dry: "polls_run_dry E pending"
  shows "drain_loop E c b s \<noteq> None"
proof (induction "pending (world s)" arbitrary: b s rule: less_induct)
  case less
  note unfold = drain_loop.simps [of E c b s]
  show ?case
  proof (cases "fst (do_poll E c s)")
    case (Poll_Frame f)
    let ?d = "drain_frame b f (snd (do_poll E c s))"
    let ?s2 = "do_void E (Maybe_Release_Buffers c) (snd (snd ?d))"
    obtain w' where w': "wait_frame_noblock E c (world s) = (Poll_Frame f, w')"
      using Poll_Frame by (cases "wait_frame_noblock E c (world s)") (auto simp: do_poll_def)
    then have "world (snd (do_poll E c s)) = w'" by (simp add: do_poll_def log_event_def)
    moreover have "pending w' < pending (world s)"
      using dry w' by (auto simp: polls_run_dry_def)
    moreover have "pending (void_call E (Maybe_Release_Buffers c) w') \<le> pending w'"
      using dry by (auto simp: polls_run_dry_def)
    ultimately have "pending (world ?s2) < pending (world s)"
      by (simp add: do_void_def log_event_def)
    from less [OF this] have "drain_loop E c (fst (snd ?d)) ?s2 \<noteq> None" .
    with Poll_Frame show ?thesis by (simp add: unfold Let_def del: not_None_eq)
  qed (simp_all add: unfold)
qed

lemma drain_returns_terminates:
  "polls_run_dry E pending \<Longrightarrow> local_amqp_drain_returns E b s \<noteq> None"
  using drain_loop_returns [of E pending]
  by (simp add: local_amqp_drain_returns_def del: not_None_eq split: option.split)

section \<open>The list of broker states\<close>

definition brokers_ok :: "brokerstate list \<Rightarrow> bool" where
  "brokers_ok l \<longleftrightarrow> distinct (map broker_id l) \<and> (\<forall>b \<in> set l. bs_ok b)"

lemma get_a_bs_id: "broker_id (fst (local_amqp_get_a_bs i l)) = i"
  by (auto simp: local_amqp_get_a_bs_def fresh_bs_def find_Some_iff split: option.split)

lemma get_a_bs_mem: "fst (local_amqp_get_a_bs i l) \<in> set (snd (local_amqp_get_a_bs i l))"
  by (auto simp: local_amqp_get_a_bs_def dest: find_key_SomeD split: option.split)

lemma get_a_bs_ok:
  assumes "brokers_ok l"
  shows "brokers_ok (snd (local_amqp_get_a_bs i l))"
  using assms fresh_bs_ok
  by (auto simp: local_amqp_get_a_bs_def brokers_ok_def fresh_bs_def
      dest!: find_key_NoneD split: option.split)

lemma put_bs_ok:
  assumes "brokers_ok l" and "bs_ok b"
  shows "brokers_ok (put_bs b l)"
  using assms unfolding brokers_ok_def put_bs_def by (auto dest: set_replace_by_key)

lemma put_bs_mem: "broker_id b \<in> broker_id ` set l \<Longrightarrow> b \<in> set (put_bs b l)"
  unfolding put_bs_def by (rule replace_by_key_mem)

lemma put_bs_ids [simp]: "map broker_id (put_bs b l) = map broker_id l"
  by (simp add: put_bs_def)

lemma put_bs_other: "x \<in> set l \<Longrightarrow> broker_id x \<noteq> broker_id b \<Longrightarrow> x \<in> set (put_bs b l)"
  by (simp add: put_bs_def replace_by_key_other)

lemma get_a_bs_put:
  "broker_id b = i \<Longrightarrow> i \<in> broker_id ` set l \<Longrightarrow>
     local_amqp_get_a_bs i (put_bs b l) = (b, put_bs b l)"
  by (simp add: local_amqp_get_a_bs_def put_bs_def find_replace_by_key)

end
