(* ===== verification/Pg_Connect.thy ===== *)
theory Pg_Connect
  imports Pg_State
begin

text \<open>
  Connecting to a broker in \<open>src/src/pg_amqp.c\<close>: \<open>local_amqp_load_hosts\<close> (the cached rows of
  \<open>amqp.broker\<close>), \<open>local_amqp_set_keepalive\<close>, \<open>local_amqp_open_socket\<close>,
  \<open>local_amqp_login\<close>, and \<open>local_amqp_get_bs\<close> with its backoff window, failover loop and
  connect budget.
\<close>

section \<open>local_amqp_load_hosts\<close>

definition or_default :: "'a \<Rightarrow> 'a option \<Rightarrow> 'a" where
  "or_default d v = (case v of None \<Rightarrow> d | Some x \<Rightarrow> x)"

text \<open>One row becomes one \<open>struct broker_host\<close>; the loop body, with its two warnings.\<close>

definition load_host :: "int \<Rightarrow> broker_row \<Rightarrow> 'w io \<Rightarrow> broker_host \<times> 'w io" where
  "load_host i r s =
     (let hn = or_default ''localhost'' (row_host r);
          p = or_default 5672 (row_port r);
          bad = (p < 1 \<or> p > 65535);
          s1 = (if bad then warn (W_Invalid_Port i hn p) s else s);
          h = \<lparr>host = hn,
               port = (if bad then 5672 else p),
               vhost = or_default ''/'' (row_vhost r),
               user = or_default ''guest'' (row_user r),
               pass = or_default ''guest'' (row_pass r),
               use_ssl = or_default False (row_ssl r),
               ssl_verify = or_default True (row_ssl_verify r),
               ssl_cacert = row_ssl_cacert r,
               ssl_cert = row_ssl_cert r,
               ssl_key = row_ssl_key r\<rparr>
      in (h, if use_ssl h \<and> \<not> ssl_verify h then warn (W_No_Verify i hn) s1 else s1))"

fun load_rows :: "int \<Rightarrow> broker_row list \<Rightarrow> 'w io \<Rightarrow> broker_host list \<times> 'w io" where
  "load_rows i [] s = ([], s)"
| "load_rows i (r # rs) s =
     (let (h, s1) = load_host i r s;
          (hs, s2) = load_rows i rs s1
      in (h # hs, s2))"

text \<open>\<open>(int)(((unsigned int) MyProcPid) % (unsigned int) n)\<close>.\<close>

definition pid_mod :: "'w rabbitmq \<Rightarrow> int \<Rightarrow> int" where
  "pid_mod E n = (my_proc_pid E mod 2 ^ 32) mod n"

definition local_amqp_load_hosts ::
  "'w rabbitmq \<Rightarrow> brokerstate \<Rightarrow> 'w io \<Rightarrow> int \<times> brokerstate \<times> 'w io" where
  "local_amqp_load_hosts E b s =
     (case hosts b of
        Some _ \<Rightarrow> (nhosts b, b, s)
      | None \<Rightarrow>
          let (connected, s1) = do_query (spi_connect E) Spi_Connect s
          in if \<not> connected then (-1, b, s1)
             else
               let (res, s2) = do_query (spi_select E (broker_id b)) (Spi_Execute (broker_id b)) s1;
                   (b', s3) =
                     (case res of
                        None \<Rightarrow> (b, warn W_Lookup_Failed s2)
                      | Some [] \<Rightarrow> (b, warn (W_No_Broker (broker_id b)) s2)
                      | Some (r # rs) \<Rightarrow>
                          let (hs, s') = load_rows (broker_id b) (r # rs) s2;
                              n = int (length hs)
                          in (b\<lparr>hosts := Some hs, nhosts := n, idx := pid_mod E n\<rparr>, s'))
               in (nhosts b', b', do_void E Spi_Finish s3))"

section \<open>local_amqp_set_keepalive, local_amqp_open_socket, local_amqp_login\<close>

text \<open>The socket options as the supported platform defines them (Linux).\<close>

definition local_amqp_set_keepalive :: "'w rabbitmq \<Rightarrow> int \<Rightarrow> 'w io \<Rightarrow> 'w io" where
  "local_amqp_set_keepalive E fd s =
     (if fd < 0 then s
      else do_void E (Setsockopt fd Tcp_Keepcnt (Opt_Int 3))
             (do_void E (Setsockopt fd Tcp_Keepintvl (Opt_Int 10))
               (do_void E (Setsockopt fd Tcp_Keepidle (Opt_Int 30))
                 (do_void E (Setsockopt fd Tcp_Nodelay (Opt_Int 1))
                   (do_void E (Setsockopt fd So_Keepalive (Opt_Int 1)) s)))))"

text \<open>The TLS settings of one host, in the order they are made.\<close>

definition ssl_configure :: "'w rabbitmq \<Rightarrow> conn_handle \<Rightarrow> broker_host \<Rightarrow> 'w io \<Rightarrow> 'w io" where
  "ssl_configure E c h s =
     (let s1 = do_void E (Ssl_Set_Versions c) s;
          s2 = do_void E (Ssl_Set_Verify_Peer c (ssl_verify h)) s1;
          s3 = do_void E (Ssl_Set_Verify_Hostname c (ssl_verify h)) s2;
          s4 = (case ssl_cacert h of None \<Rightarrow> s3 | Some p \<Rightarrow> do_void E (Ssl_Set_Cacert c p) s3)
      in (case (ssl_cert h, ssl_key h) of
            (Some crt, Some key) \<Rightarrow> do_void E (Ssl_Set_Key c crt key) s4
          | _ \<Rightarrow> s4))"

text \<open>\<open>True\<close> is a non-NULL socket.\<close>

definition local_amqp_open_socket ::
  "'w rabbitmq \<Rightarrow> gucs \<Rightarrow> int \<Rightarrow> conn_handle \<Rightarrow> broker_host \<Rightarrow> 'w io \<Rightarrow> bool \<times> 'w io" where
  "local_amqp_open_socket E g i c h s =
     (let ctv = timeval_of_ms (amqp_connect_timeout_ms g);
          (ok, s1) = (if use_ssl h then do_query (ssl_socket_new E c) (Ssl_Socket_New c) s
                      else do_query (tcp_socket_new E c) (Tcp_Socket_New c) s)
      in if \<not> ok
         then (False, warn (if use_ssl h then W_Tls_Alloc (host h) (port h) i
                            else W_Tcp_Alloc (host h) (port h) i) s1)
         else
           let s2 = (if use_ssl h then ssl_configure E c h s1 else s1);
               (opened, s3) = do_query (socket_open_noblock E c (host h) (port h) ctv)
                                (Socket_Open c (host h) (port h) ctv) s2
           in if opened then (True, s3)
              else (False, warn (W_Connect_Failed (host h) (port h) i) s3))"

definition client_properties :: "(string \<times> field_value) list" where
  "client_properties =
     [(''capabilities'', Field_Table [(''connection.blocked'', Field_Boolean True)])]"

definition local_amqp_login ::
  "'w rabbitmq \<Rightarrow> conn_handle \<Rightarrow> broker_host \<Rightarrow> 'w io \<Rightarrow> rpc_reply \<times> 'w io" where
  "local_amqp_login E c h s =
     do_rpc E (Login c (vhost h) 0 131072 0 client_properties (user h) (pass h)) s"

section \<open>local_amqp_get_bs\<close>

text \<open>
  The seconds for which a broker that failed \<open>failures\<close> times in a row is left alone; \<open>pid\<close>
  gives the jitter.  A count that has wrapped to a negative number makes the shift undefined.
\<close>

definition backoff_window :: "(int \<Rightarrow> int \<Rightarrow> int) \<Rightarrow> int \<Rightarrow> int \<Rightarrow> int" where
  "backoff_window undef failures jitter =
     (let shift = (if failures > 4 then 4 else failures);
          b = shift_left32 undef AMQP_RECONNECT_BACKOFF_BASE_SEC shift;
          b' = (if b > AMQP_RECONNECT_BACKOFF_CAP_SEC then AMQP_RECONNECT_BACKOFF_CAP_SEC else b)
      in b' + jitter)"

definition reconnect_jitter :: "'w rabbitmq \<Rightarrow> int" where
  "reconnect_jitter E = pid_mod E (AMQP_RECONNECT_BACKOFF_BASE_SEC + 1)"

text \<open>
  One host of the failover loop, from the opened connection to the switch to the steady-state
  timeout.  \<open>True\<close> is the \<open>return bs\<close> of success, \<open>False\<close> the jump to \<open>next_host\<close>.
\<close>

definition try_host ::
  "'w rabbitmq \<Rightarrow> gucs \<Rightarrow> conn_handle \<Rightarrow> broker_host \<Rightarrow> brokerstate \<Rightarrow> 'w io \<Rightarrow>
     bool \<times> brokerstate \<times> 'w io" where
  "try_host E g c h b s =
     (let i = broker_id b;
          (opened, s1) = local_amqp_open_socket E g i c h s
      in if \<not> opened then (False, b, s1)
         else
           let (fd, s2) = do_read (get_sockfd E c) s1;
               b1 = b\<lparr>sockfd := fd\<rparr>;
               s3 = local_amqp_set_keepalive E fd s2;
               s4 = local_amqp_set_timeout E b1 (amqp_handshake_timeout_ms g) s3;
               (r, s5) = local_amqp_login E c h s4
           in if reply_type r \<noteq> Response_Normal
              then (False, b1, warn (W_Login_Failed (host h) (port h) i) s5)
              else
                let (r1, s6) = do_rpc E (Channel_Open c 1) s5
                in if reply_type r1 \<noteq> Response_Normal
                   then (False, b1, warn (W_Channel_Open_Failed (host h) (port h) i) s6)
                   else
                     let (r2, s7) = do_rpc E (Channel_Open c 2) s6
                     in if reply_type r2 \<noteq> Response_Normal
                        then (False, b1, warn (W_Channel_Open_Failed (host h) (port h) i) s7)
                        else
                          let (r3, s8) = do_rpc E (Tx_Select c 2) s7
                          in if reply_type r3 \<noteq> Response_Normal
                             then (False, b1, warn (W_Tx_Select_Failed (host h) (port h) i) s8)
                             else (True,
                                   b1\<lparr>last_failed_connect := 0, consecutive_failures := 0,
                                      blocked := False\<rparr>,
                                   local_amqp_set_timeout E b1 (amqp_operation_timeout_ms g) s8))"

text \<open>
  The loop \<open>for (tries = bs->nhosts; tries > 0; tries--)\<close>.  The result is \<open>True\<close> when it
  returned a connected broker state, \<open>False\<close> when it ran out of hosts or broke off.
\<close>

fun connect_hosts ::
  "'w rabbitmq \<Rightarrow> gucs \<Rightarrow> int \<Rightarrow> nat \<Rightarrow> brokerstate \<Rightarrow> 'w io \<Rightarrow> bool \<times> brokerstate \<times> 'w io"
where
  "connect_hosts E g deadline 0 b s = (False, b, s)"
| "connect_hosts E g deadline (Suc tries) b s =
     (let b1 = b\<lparr>idx := (idx b + 1) mod nhosts b\<rparr>;
          h = the (hosts b1) ! nat (idx b1);
          (nc, s1) = do_query (new_connection E) New_Connection s
      in case nc of
           None \<Rightarrow> (False, b1\<lparr>conn := None\<rparr>, s1)
         | Some c \<Rightarrow>
             let (ok, b2, s2) = try_host E g c h (b1\<lparr>conn := Some c\<rparr>) s1
             in if ok then (True, b2, s2)
                else
                  let (b3, s3) = local_amqp_disconnect_bs E b2 False s2;
                      (expired, s4) =
                        (if deadline = 0 then (False, s3)
                         else let (t, s') = local_amqp_now_ms E s3 in (t \<ge> deadline, s'))
                  in if expired
                     then (False, b3, warn (W_Budget_Exhausted (amqp_connect_budget_ms g)
                                                               (broker_id b)) s4)
                     else connect_hosts E g deadline tries b3
                            (if Suc tries > 1 then warn (W_Next_Host (host h) (port h)) s4
                             else s4))"

text \<open>The two assignments that grow the backoff window.\<close>

definition record_connect_failure ::
  "'w rabbitmq \<Rightarrow> brokerstate \<Rightarrow> 'w io \<Rightarrow> brokerstate \<times> 'w io" where
  "record_connect_failure E b s =
     (let (t, s1) = do_read (time_now E) s
      in (b\<lparr>consecutive_failures := int32 (consecutive_failures b + 1), last_failed_connect := t\<rparr>, s1))"

definition in_backoff :: "'w rabbitmq \<Rightarrow> brokerstate \<Rightarrow> 'w io \<Rightarrow> bool \<times> 'w io" where
  "in_backoff E b s =
     (if last_failed_connect b = 0 then (False, s)
      else let (t, s1) = do_read (time_now E) s
           in (t - last_failed_connect b
                 < backoff_window (undefined_shift E) (consecutive_failures b) (reconnect_jitter E), s1))"

definition connect_bs ::
  "'w rabbitmq \<Rightarrow> gucs \<Rightarrow> brokerstate \<Rightarrow> 'w io \<Rightarrow> brokerstate \<times> 'w io" where
  "connect_bs E g b s =
     (if conn b \<noteq> None then (b, s)
      else
        let (wait, s1) = in_backoff E b s
        in if wait then (b, s1)
           else
             let (n, b2, s2) = local_amqp_load_hosts E b s1
             in if n \<le> 0 then record_connect_failure E b2 s2
                else
                  let (deadline, s3) =
                        (if amqp_connect_budget_ms g > 0
                         then let (t, s') = local_amqp_now_ms E s2
                              in (t + amqp_connect_budget_ms g, s')
                         else (0, s2));
                      (ok, b3, s4) = connect_hosts E g deadline (nat (nhosts b2)) b2 s3
                  in if ok then (b3, s4) else record_connect_failure E b3 s4)"

text \<open>
  \<open>local_amqp_get_bs\<close> finds or creates the broker state and works on it in place: the result
  is written back into the list.
\<close>

definition local_amqp_get_bs ::
  "'w rabbitmq \<Rightarrow> gucs \<Rightarrow> int \<Rightarrow> 'w backend \<Rightarrow> brokerstate \<times> 'w backend" where
  "local_amqp_get_bs E g i st =
     (let (b, l) = local_amqp_get_a_bs i (head_bs st);
          (b', s') = connect_bs E g b (bio st)
      in (b', st\<lparr>head_bs := put_bs b' l, bio := s'\<rparr>))"

section \<open>Events of connecting\<close>

fun is_connect_event :: "event \<Rightarrow> bool" where
  "is_connect_event (Call (Close_Connection _ _)) = False"
| "is_connect_event (Call (Maybe_Release_Buffers _)) = False"
| "is_connect_event (Call _) = True"
| "is_connect_event (Rpc (Login _ _ _ _ _ _ _ _) _) = True"
| "is_connect_event (Rpc (Channel_Open _ _) _) = True"
| "is_connect_event (Rpc (Tx_Select _ _) _) = True"
| "is_connect_event (Warn (W_Discarding _ _)) = False"
| "is_connect_event (Warn (W_Commit_Failed _ _ _ _)) = False"
| "is_connect_event (Warn _) = True"
| "is_connect_event _ = False"

lemma set_timeout_connect:
  "grows is_connect_event s t \<Longrightarrow> grows is_connect_event s (local_amqp_set_timeout E b ms t)"
  by (erule grows_trans, rule grows_mono [OF set_timeout_grows])
     (auto elim: is_timeout_event.elims)

lemma set_keepalive_connect:
  "grows is_connect_event s t \<Longrightarrow> grows is_connect_event s (local_amqp_set_keepalive E fd t)"
  by (auto simp: local_amqp_set_keepalive_def intro!: grows_steps)

lemma ssl_configure_connect:
  "grows is_connect_event s t \<Longrightarrow> grows is_connect_event s (ssl_configure E c h t)"
  by (auto simp: ssl_configure_def Let_def intro!: grows_steps split: option.split)

lemma open_socket_connect:
  "grows is_connect_event s t \<Longrightarrow>
     grows is_connect_event s (snd (local_amqp_open_socket E g i c h t))"
  by (auto simp: local_amqp_open_socket_def Let_def case_prod_beta
      intro!: grows_steps ssl_configure_connect)

lemma login_connect:
  "grows is_connect_event s t \<Longrightarrow> grows is_connect_event s (snd (local_amqp_login E c h t))"
  by (auto simp: local_amqp_login_def intro!: grows_steps)

lemma try_host_connect:
  "grows is_connect_event s t \<Longrightarrow>
     grows is_connect_event s (snd (snd (try_host E g c h b t)))"
  unfolding try_host_def Let_def case_prod_beta
  by (auto intro!: grows_steps open_socket_connect login_connect set_keepalive_connect
      set_timeout_connect)

text \<open>What one host leaves of the broker state: the socket, and on success the cleared counters.\<close>

lemma try_host_state:
  "\<exists>fd. fst (snd (try_host E g c h b s)) =
     (if fst (try_host E g c h b s)
      then b\<lparr>sockfd := fd, last_failed_connect := 0, consecutive_failures := 0,
             blocked := False\<rparr>
      else b\<lparr>sockfd := fd\<rparr>)"
proof -
  have self: "\<exists>fd. b = b\<lparr>sockfd := fd\<rparr>" by (rule exI [where x = "sockfd b"]) simp
  show ?thesis
    unfolding try_host_def Let_def case_prod_beta by (auto intro: self)
qed

section \<open>The AMQP handshake\<close>

fun is_rpc :: "event \<Rightarrow> bool" where
  "is_rpc (Rpc _ _) = True"
| "is_rpc _ = False"

lemma filter_rpc_same:
  "grows P s t \<Longrightarrow> (\<And>e. P e \<Longrightarrow> \<not> is_rpc e) \<Longrightarrow>
     filter is_rpc (trace t) = filter is_rpc (trace s)"
  by (rule grows_filter)

lemma rpcs_set_timeout [simp]:
  "filter is_rpc (trace (local_amqp_set_timeout E b ms s)) = filter is_rpc (trace s)"
  by (rule filter_rpc_same [OF set_timeout_grows]) (auto elim: is_timeout_event.elims)

lemma rpcs_set_keepalive [simp]:
  "filter is_rpc (trace (local_amqp_set_keepalive E fd s)) = filter is_rpc (trace s)"
  by (simp add: local_amqp_set_keepalive_def trace_simps)

lemma rpcs_ssl_configure [simp]:
  "filter is_rpc (trace (ssl_configure E c h s)) = filter is_rpc (trace s)"
  by (simp add: ssl_configure_def Let_def trace_simps split: option.split)

lemma rpcs_open_socket [simp]:
  "filter is_rpc (trace (snd (local_amqp_open_socket E g i c h s))) = filter is_rpc (trace s)"
  by (simp add: local_amqp_open_socket_def Let_def case_prod_beta trace_simps)

definition login_call :: "conn_handle \<Rightarrow> broker_host \<Rightarrow> mq_call" where
  "login_call c h = Login c (vhost h) 0 131072 0 client_properties (user h) (pass h)"

definition handshake :: "conn_handle \<Rightarrow> broker_host \<Rightarrow> event list" where
  "handshake c h =
     [Rpc (login_call c h) Response_Normal,
      Rpc (Channel_Open c 1) Response_Normal,
      Rpc (Channel_Open c 2) Response_Normal,
      Rpc (Tx_Select c 2) Response_Normal]"

lemma try_host_handshake:
  assumes "fst (try_host E g c h b s)"
  shows "filter is_rpc (trace (snd (snd (try_host E g c h b s)))) =
           filter is_rpc (trace s) @ handshake c h"
  using assms
  unfolding try_host_def Let_def case_prod_beta local_amqp_login_def
  by (auto simp: trace_simps handshake_def login_call_def split: if_splits)

section \<open>The failover loop\<close>

lemma rotate_core:
  assumes "bs_core b" and "hosts b \<noteq> None"
  shows "bs_core (b\<lparr>idx := (idx b + 1) mod nhosts b\<rparr>)"
  using assms by (auto simp: bs_core_def hosts_ok_def)

lemma try_host_core:
  assumes "bs_core b" and "conn b = Some c"
  shows "bs_core (fst (snd (try_host E g c h b s)))"
  using try_host_state [of E g c h b s] assms
  by (cases "fst (try_host E g c h b s)") (auto simp: bs_core_def frame_simps)

lemma try_host_frame:
  "conn (fst (snd (try_host E g c h b s))) = conn b"
  "broker_id (fst (snd (try_host E g c h b s))) = broker_id b"
  "inerror (fst (snd (try_host E g c h b s))) = inerror b"
  "uncommitted (fst (snd (try_host E g c h b s))) = uncommitted b"
  "idx (fst (snd (try_host E g c h b s))) = idx b"
  "hosts (fst (snd (try_host E g c h b s))) = hosts b"
  "nhosts (fst (snd (try_host E g c h b s))) = nhosts b"
  using try_host_state [of E g c h b s] by (cases "fst (try_host E g c h b s)"; auto)+

lemma try_host_counters:
  "consecutive_failures (fst (snd (try_host E g c h b s))) =
     (if fst (try_host E g c h b s) then 0 else consecutive_failures b)"
  "last_failed_connect (fst (snd (try_host E g c h b s))) =
     (if fst (try_host E g c h b s) then 0 else last_failed_connect b)"
  using try_host_state [of E g c h b s] by (cases "fst (try_host E g c h b s)"; auto)+

lemmas try_host_simps = try_host_frame try_host_counters

text \<open>The host the loop turns to next.\<close>

definition next_host_of :: "brokerstate \<Rightarrow> broker_host" where
  "next_host_of b = the (hosts b) ! nat (idx b)"

lemma next_host_mem:
  assumes "hosts_ok b" and "hosts b = Some hs"
  shows "next_host_of b \<in> set hs"
  using assms by (auto simp: hosts_ok_def next_host_of_def)

text \<open>Everything the loop leaves of the broker state, by induction on the tries.\<close>

definition connect_result :: "brokerstate \<Rightarrow> bool \<Rightarrow> brokerstate \<Rightarrow> bool" where
  "connect_result b ok b' \<longleftrightarrow>
     bs_core b' \<and> broker_id b' = broker_id b \<and> inerror b' = inerror b \<and>
     hosts b' = hosts b \<and> nhosts b' = nhosts b \<and> uncommitted b' = 0 \<and>
     (if ok then conn b' \<noteq> None \<and> consecutive_failures b' = 0 \<and> last_failed_connect b' = 0
      else conn b' = None \<and> consecutive_failures b' = consecutive_failures b \<and>
           last_failed_connect b' = last_failed_connect b)"

lemma connect_hosts_result:
  assumes "bs_core b" and "conn b = None" and "hosts b \<noteq> None"
  shows "connect_result b (fst (connect_hosts E g d n b s)) (fst (snd (connect_hosts E g d n b s)))"
  using assms
proof (induction n arbitrary: b s)
  case 0
  then show ?case by (auto simp: connect_result_def bs_core_def)
next
  case (Suc n)
  let ?b1 = "b\<lparr>idx := (idx b + 1) mod nhosts b\<rparr>"
  let ?q = "do_query (new_connection E) New_Connection s"
  have core1: "bs_core ?b1" and u: "uncommitted b = 0"
    using Suc.prems rotate_core by (auto simp: bs_core_def)
  show ?case
  proof (cases "fst ?q")
    case None
    have "bs_core (?b1\<lparr>conn := None\<rparr>)"
      using core1 Suc.prems(2) by (simp add: bs_core_def frame_simps)
    with None Suc.prems u show ?thesis
      by (simp add: Let_def case_prod_beta connect_result_def)
  next
    case (Some c)
    let ?b2 = "?b1\<lparr>conn := Some c\<rparr>"
    let ?t = "try_host E g c (the (hosts ?b1) ! nat (idx ?b1)) ?b2 (snd ?q)"
    have core2: "bs_core ?b2" using core1 by (auto simp: bs_core_def frame_simps)
    note core3 = try_host_core [OF core2, of c E g "the (hosts ?b1) ! nat (idx ?b1)" "snd ?q"]
    show ?thesis
    proof (cases "fst ?t")
      case True
      with Some core3 u show ?thesis
        by (simp add: Let_def case_prod_beta connect_result_def try_host_simps)
    next
      case False
      let ?d = "local_amqp_disconnect_bs E (fst (snd ?t)) False (snd (snd ?t))"
      have core4: "bs_core (fst ?d)"
        using core3 by (intro disconnect_bs_core) simp
      have un: "uncommitted (fst ?d) = 0"
        using disconnect_bs_cleared [OF core3, of E False "snd (snd ?t)"] by simp
      have frame: "conn (fst ?d) = None" "broker_id (fst ?d) = broker_id b"
        "inerror (fst ?d) = inerror b" "hosts (fst ?d) = hosts b" "nhosts (fst ?d) = nhosts b"
        "consecutive_failures (fst ?d) = consecutive_failures b"
        "last_failed_connect (fst ?d) = last_failed_connect b"
        using False by (simp_all add: try_host_simps)
      have IH: "connect_result (fst ?d) (fst (connect_hosts E g d n (fst ?d) s'))
          (fst (snd (connect_hosts E g d n (fst ?d) s')))" for s'
        using Suc.IH [of "fst ?d" s'] core4 frame Suc.prems(3) by simp
      have done': "connect_result b False (fst ?d)"
        using core4 un frame by (simp add: connect_result_def)
      have step: "connect_result b ok b'" if "connect_result (fst ?d) ok b'" for ok b'
        using that frame by (simp add: connect_result_def)
      show ?thesis
        using Some False done' step [OF IH] by (simp add: Let_def case_prod_beta)
    qed
  qed
qed

lemma connect_hosts_connect:
  "grows is_connect_event s t \<Longrightarrow>
     grows is_connect_event s (snd (snd (connect_hosts E g d n b t)))"
proof (induction n arbitrary: d b t)
  case (Suc n)
  then show ?case
    by (auto simp: Let_def case_prod_beta local_amqp_now_ms_def split: option.split
        intro!: grows_steps try_host_connect grows_disconnect_hard Suc.IH)
qed simp

text \<open>On success the last four replies of the run are the handshake with the chosen host.\<close>

lemma connect_hosts_handshake:
  assumes "fst (connect_hosts E g d n b s)"
  shows "\<exists>c rpcs. conn (fst (snd (connect_hosts E g d n b s))) = Some c \<and>
           filter is_rpc (trace (snd (snd (connect_hosts E g d n b s)))) =
             rpcs @ handshake c (next_host_of (fst (snd (connect_hosts E g d n b s))))"
  using assms
proof (induction n arbitrary: b s)
  case (Suc n)
  let ?b1 = "b\<lparr>idx := (idx b + 1) mod nhosts b\<rparr>"
  let ?q = "do_query (new_connection E) New_Connection s"
  from Suc.prems obtain c where Some: "fst ?q = Some c"
    by (cases "fst ?q") (auto simp: Let_def case_prod_beta)
  let ?h = "the (hosts ?b1) ! nat (idx ?b1)"
  let ?t = "try_host E g c ?h (?b1\<lparr>conn := Some c\<rparr>) (snd ?q)"
  show ?case
  proof (cases "fst ?t")
    case True
    have "next_host_of (fst (snd ?t)) = ?h" by (simp add: next_host_of_def try_host_simps)
    with try_host_handshake [OF True] True Some show ?thesis
      by (simp add: Let_def case_prod_beta try_host_simps)
  next
    case False
    with Suc.prems Some Suc.IH show ?thesis
      by (auto simp: Let_def case_prod_beta split: if_splits)
  qed
qed simp

section \<open>local_amqp_load_hosts\<close>

lemma load_host_port:
  "1 \<le> port (fst (load_host i r s)) \<and> port (fst (load_host i r s)) \<le> 65535"
  by (simp add: load_host_def Let_def)

lemma load_rows_length [simp]: "length (fst (load_rows i rs s)) = length rs"
  by (induction rs arbitrary: s) (simp_all add: Let_def case_prod_beta)

lemma load_rows_ports:
  "list_all (\<lambda>h. 1 \<le> port h \<and> port h \<le> 65535) (fst (load_rows i rs s))"
proof (induction rs arbitrary: s)
  case (Cons r rs)
  then show ?case using load_host_port [of i r s] by (simp add: Let_def case_prod_beta)
qed simp

lemma load_rows_connect:
  "grows is_connect_event s t \<Longrightarrow> grows is_connect_event s (snd (load_rows i rs t))"
proof (induction rs arbitrary: t)
  case (Cons r rs)
  have "grows is_connect_event s (snd (load_host i r t))"
    using Cons.prems by (auto simp: load_host_def Let_def intro!: grows_steps)
  from Cons.IH [OF this] show ?case by (simp add: Let_def case_prod_beta)
qed simp

declare load_rows.simps(2) [simp del]

lemma pid_mod_range: "0 < n \<Longrightarrow> 0 \<le> pid_mod E n \<and> pid_mod E n < n"
  by (simp add: pid_mod_def)

text \<open>
  The result of the lookup: either the state is untouched, or it caches a fresh list of rows with
  a start index inside it.
\<close>

lemma load_hosts_cases:
  fixes E :: "'w rabbitmq"
  assumes "hosts_ok b"
  obtains (unchanged) "fst (snd (local_amqp_load_hosts E b s)) = b"
      and "0 < fst (local_amqp_load_hosts E b s) \<longleftrightarrow> hosts b \<noteq> None"
    | (loaded) r rs and s' :: "'w io" where "hosts b = None"
      and "fst (snd (local_amqp_load_hosts E b s)) =
             b\<lparr>hosts := Some (fst (load_rows (broker_id b) (r # rs) s')),
               nhosts := int (length (r # rs)), idx := pid_mod E (int (length (r # rs)))\<rparr>"
      and "fst (local_amqp_load_hosts E b s) = int (length (r # rs))"
proof (cases "hosts b")
  case (Some hs)
  with assms that(1) show ?thesis by (auto simp: local_amqp_load_hosts_def hosts_ok_def)
next
  case None
  let ?q1 = "do_query (spi_connect E) Spi_Connect s"
  let ?q2 = "do_query (spi_select E (broker_id b)) (Spi_Execute (broker_id b)) (snd ?q1)"
  have n0: "nhosts b = 0" using assms None by (simp add: hosts_ok_def)
  note unfold = local_amqp_load_hosts_def None Let_def case_prod_beta
  show ?thesis
  proof (cases "fst ?q1")
    case False
    with that(1) show ?thesis by (simp add: unfold)
  next
    case connected: True
    show ?thesis
    proof (cases "fst ?q2")
      case None
      with that(1) connected n0 show ?thesis by (simp add: unfold)
    next
      case (Some rows)
      show ?thesis
      proof (cases rows)
        case Nil
        with that(1) Some connected n0 show ?thesis by (simp add: unfold)
      next
        case (Cons r rs)
        let ?h = "fst (load_rows (broker_id b) (r # rs) (snd ?q2))"
        have "fst (snd (local_amqp_load_hosts E b s)) =
              b\<lparr>hosts := Some ?h, nhosts := int (length (r # rs)),
                idx := pid_mod E (int (length (r # rs)))\<rparr>"
          and "fst (local_amqp_load_hosts E b s) = int (length (r # rs))"
          using Some Cons connected by (simp_all add: unfold)
        with that(2) None show ?thesis by blast
      qed
    qed
  qed
qed

lemma load_hosts_core:
  assumes "bs_core b"
  shows "bs_core (fst (snd (local_amqp_load_hosts E b s)))"
proof -
  from assms have hok: "hosts_ok b" by (simp add: bs_core_def)
  show ?thesis
  proof (cases rule: load_hosts_cases [OF hok, of E s])
    case 1
    with assms show ?thesis by simp
  next
    case (2 r rs s')
    have "fst (load_rows (broker_id b) (r # rs) s') \<noteq> []"
      by (metis length_greater_0_conv load_rows_length list.distinct(1))
    with assms 2(2) load_rows_ports pid_mod_range [of "int (length (r # rs))" E]
    show ?thesis by (simp add: bs_core_def hosts_ok_def)
  qed
qed

lemma load_hosts_frame:
  assumes "hosts_ok b"
  shows "conn (fst (snd (local_amqp_load_hosts E b s))) = conn b \<and>
         broker_id (fst (snd (local_amqp_load_hosts E b s))) = broker_id b \<and>
         inerror (fst (snd (local_amqp_load_hosts E b s))) = inerror b \<and>
         consecutive_failures (fst (snd (local_amqp_load_hosts E b s))) = consecutive_failures b \<and>
         last_failed_connect (fst (snd (local_amqp_load_hosts E b s))) = last_failed_connect b \<and>
         (0 < fst (local_amqp_load_hosts E b s) \<longrightarrow>
            hosts (fst (snd (local_amqp_load_hosts E b s))) \<noteq> None)"
  by (cases rule: load_hosts_cases [OF assms, of E s]) simp_all

lemma load_hosts_connect:
  "grows is_connect_event s t \<Longrightarrow>
     grows is_connect_event s (snd (snd (local_amqp_load_hosts E b t)))"
  unfolding local_amqp_load_hosts_def Let_def case_prod_beta
  by (auto intro!: grows_steps load_rows_connect split: option.split list.split)

section \<open>connect_bs and local_amqp_get_bs\<close>

lemma record_failure_fields [simp]:
  "conn (fst (record_connect_failure E b s)) = conn b"
  "broker_id (fst (record_connect_failure E b s)) = broker_id b"
  "inerror (fst (record_connect_failure E b s)) = inerror b"
  "consecutive_failures (fst (record_connect_failure E b s)) = int32 (consecutive_failures b + 1)"
  by (simp_all add: record_connect_failure_def case_prod_beta)

lemma record_failure_ok: "bs_core b \<Longrightarrow> conn b = None \<Longrightarrow> bs_ok (fst (record_connect_failure E b s))"
  by (auto simp: record_connect_failure_def case_prod_beta bs_ok_def bs_core_def frame_simps)

lemma connect_bs_connected: "conn b \<noteq> None \<Longrightarrow> connect_bs E g b s = (b, s)"
  by (simp add: connect_bs_def)

text \<open>
  What \<open>connect_bs\<close> makes of the failure record: it is kept, cleared, or one failure longer.
\<close>

definition failures_after :: "brokerstate \<Rightarrow> brokerstate \<Rightarrow> bool" where
  "failures_after b b' \<longleftrightarrow>
     consecutive_failures b' = consecutive_failures b \<and> last_failed_connect b' = last_failed_connect b \<or>
     consecutive_failures b' = 0 \<and> last_failed_connect b' = 0 \<or>
     consecutive_failures b' = int32 (consecutive_failures b + 1)"

text \<open>The two ways \<open>connect_bs\<close> can end when there is no connection yet.\<close>

lemma connect_bs_effect:
  assumes ok: "bs_ok b" and none: "conn b = None"
  shows "bs_ok (fst (connect_bs E g b s)) \<and>
         broker_id (fst (connect_bs E g b s)) = broker_id b \<and>
         inerror (fst (connect_bs E g b s)) = inerror b \<and>
         uncommitted (fst (connect_bs E g b s)) = 0 \<and>
         failures_after b (fst (connect_bs E g b s))"
proof -
  let ?w = "in_backoff E b s"
  let ?l = "local_amqp_load_hosts E b (snd ?w)"
  let ?b2 = "fst (snd ?l)"
  have core: "bs_core b" and hok: "hosts_ok b" and u: "uncommitted b = 0"
    using ok none by (auto simp: bs_ok_def bs_core_def)
  have core2: "bs_core ?b2" using core by (rule load_hosts_core)
  note fr = load_hosts_frame [OF hok, of E "snd ?w"]
  have u2: "uncommitted x = 0" if "bs_ok x" "conn x = None" for x
    using that by (rule bs_ok_no_conn)
  show ?thesis
  proof (cases "fst ?w \<or> fst ?l \<le> 0")
    case True
    have "bs_ok (fst (record_connect_failure E ?b2 (snd (snd ?l))))"
      using core2 fr none by (intro record_failure_ok) simp_all
    with True ok none u fr u2 show ?thesis
      by (auto simp: connect_bs_def Let_def case_prod_beta failures_after_def)
  next
    case False
    let ?d = "if amqp_connect_budget_ms g > 0
              then (fst (local_amqp_now_ms E (snd (snd ?l))) + amqp_connect_budget_ms g,
                    snd (local_amqp_now_ms E (snd (snd ?l))))
              else (0, snd (snd ?l))"
    let ?c = "connect_hosts E g (fst ?d) (nat (nhosts ?b2)) ?b2 (snd ?d)"
    have res: "connect_result ?b2 (fst ?c) (fst (snd ?c))"
      using core2 fr none False by (intro connect_hosts_result) simp_all
    have eq: "connect_bs E g b s =
        (if fst ?c then (fst (snd ?c), snd (snd ?c))
         else record_connect_failure E (fst (snd ?c)) (snd (snd ?c)))"
      using none False by (simp add: connect_bs_def Let_def case_prod_beta)
    show ?thesis
    proof (cases "fst ?c")
      case True
      with res eq fr False show ?thesis by (simp add: connect_result_def bs_ok_def failures_after_def)
    next
      case no: False
      then have "bs_ok (fst (record_connect_failure E (fst (snd ?c)) (snd (snd ?c))))"
        using res by (intro record_failure_ok) (simp_all add: connect_result_def)
      with no res eq fr u2 show ?thesis by (simp add: connect_result_def failures_after_def)
    qed
  qed
qed

lemma connect_bs_ok: "bs_ok b \<Longrightarrow> bs_ok (fst (connect_bs E g b s))"
  using connect_bs_effect [of b E g s] connect_bs_connected [of b E g s]
  by (cases "conn b") auto

lemma connect_bs_id: "bs_ok b \<Longrightarrow> broker_id (fst (connect_bs E g b s)) = broker_id b"
  using connect_bs_effect [of b E g s] connect_bs_connected [of b E g s]
  by (cases "conn b") auto

lemma connect_bs_inerror: "bs_ok b \<Longrightarrow> inerror (fst (connect_bs E g b s)) = inerror b"
  using connect_bs_effect [of b E g s] connect_bs_connected [of b E g s]
  by (cases "conn b") auto

lemma connect_bs_uncommitted:
  "bs_ok b \<Longrightarrow> uncommitted (fst (connect_bs E g b s)) = uncommitted b"
  using connect_bs_effect [of b E g s] connect_bs_connected [of b E g s] bs_ok_no_conn [of b]
  by (cases "conn b") auto

lemma connect_bs_failures: "bs_ok b \<Longrightarrow> failures_after b (fst (connect_bs E g b s))"
  using connect_bs_effect [of b E g s] connect_bs_connected [of b E g s]
  by (cases "conn b") (auto simp: failures_after_def)

lemma connect_bs_connect:
  "grows is_connect_event s t \<Longrightarrow> grows is_connect_event s (snd (connect_bs E g b t))"
  unfolding connect_bs_def in_backoff_def local_amqp_now_ms_def record_connect_failure_def
    Let_def case_prod_beta
  by (auto intro!: grows_steps load_hosts_connect connect_hosts_connect)

lemma get_bs_ok:
  assumes "brokers_ok (head_bs st)"
  shows "brokers_ok (head_bs (snd (local_amqp_get_bs E g i st)))"
    and "bs_ok (fst (local_amqp_get_bs E g i st))"
    and "broker_id (fst (local_amqp_get_bs E g i st)) = i"
    and "fst (local_amqp_get_bs E g i st) \<in> set (head_bs (snd (local_amqp_get_bs E g i st)))"
proof -
  let ?a = "local_amqp_get_a_bs i (head_bs st)"
  let ?c = "connect_bs E g (fst ?a) (bio st)"
  have l: "brokers_ok (snd ?a)" using assms by (rule get_a_bs_ok)
  then have b: "bs_ok (fst ?a)" using get_a_bs_mem [of i "head_bs st"] by (simp add: brokers_ok_def)
  have id: "broker_id (fst ?c) = i"
    using connect_bs_id [OF b] get_a_bs_id [of i "head_bs st"] by simp
  have mem: "broker_id (fst ?c) \<in> broker_id ` set (snd ?a)"
    using id get_a_bs_id [of i "head_bs st"] get_a_bs_mem [of i "head_bs st"] by force
  show "brokers_ok (head_bs (snd (local_amqp_get_bs E g i st)))"
    "bs_ok (fst (local_amqp_get_bs E g i st))"
    "broker_id (fst (local_amqp_get_bs E g i st)) = i"
    "fst (local_amqp_get_bs E g i st) \<in> set (head_bs (snd (local_amqp_get_bs E g i st)))"
    using put_bs_ok [OF l connect_bs_ok [OF b]] connect_bs_ok [OF b] id put_bs_mem [OF mem]
    by (simp_all add: local_amqp_get_bs_def case_prod_beta)
qed

end
