(* ===== verification/Pg_Xact.thy ===== *)
theory Pg_Xact
  imports Pg_Connect
begin

text \<open>
  The transaction callbacks of \<open>src/src/pg_amqp.c\<close>: \<open>amqp_local_phase2\<close> (the \<open>XactCallback\<close>),
  \<open>amqp_local_subxact\<close> (the \<open>SubXactCallback\<close>) and \<open>amqp_atexit\<close>.  Each is a loop over
  \<open>HEAD_BS\<close>; the body of each loop is a function on one broker state.
\<close>

section \<open>Events of the server\<close>

datatype xact_event =
    Xact_Commit
  | Xact_Parallel_Commit
  | Xact_Abort
  | Xact_Parallel_Abort
  | Xact_Prepare
  | Xact_Pre_Commit
  | Xact_Parallel_Pre_Commit
  | Xact_Pre_Prepare

datatype subxact_event =
    Subxact_Start
  | Subxact_Commit
  | Subxact_Abort
  | Subxact_Pre_Commit

text \<open>\<open>elog(ERROR, ...)\<close> does not return to the callback.\<close>

datatype pg_error = Cannot_Prepare int int

section \<open>The loop over HEAD_BS\<close>

fun for_each_bs ::
  "(brokerstate \<Rightarrow> 'w io \<Rightarrow> (brokerstate \<times> 'w io) option) \<Rightarrow>
     brokerstate list \<Rightarrow> 'w io \<Rightarrow> (brokerstate list \<times> 'w io) option" where
  "for_each_bs f [] s = Some ([], s)"
| "for_each_bs f (b # bs) s =
     do { (b', s1) \<leftarrow> f b s;
          (bs', s2) \<leftarrow> for_each_bs f bs s1;
          Some (b' # bs', s2) }"

section \<open>XACT_EVENT_COMMIT\<close>

text \<open>
  The flush of one connected broker with buffered messages: the \<open>if(bs->conn)\<close> block of the
  commit loop, then \<open>bs->uncommitted = 0\<close>.
\<close>

definition flush_bs ::
  "'w rabbitmq \<Rightarrow> gucs \<Rightarrow> conn_handle \<Rightarrow> brokerstate \<Rightarrow> 'w io \<Rightarrow> (brokerstate \<times> 'w io) option"
where
  "flush_bs E g c b s =
     do { let s1 = local_amqp_set_timeout E b (amqp_commit_timeout_ms g) s;
          (ok, b1, s2) \<leftarrow> local_amqp_drain_returns E b s1;
          let (r, s3) = do_rpc E (Tx_Commit c 2) s2;
          let (b2, s4) =
            (if reply_type r \<noteq> Response_Normal
             then local_amqp_disconnect_bs E b1 False
                    (warn (W_Commit_Failed (broker_id b1) (uncommitted b1) (reply_type r)
                             (library_error r)) s3)
             else (b1, local_amqp_set_timeout E b1 (amqp_operation_timeout_ms g) s3));
          Some (b2\<lparr>uncommitted := 0\<rparr>, s4) }"

definition commit_bs ::
  "'w rabbitmq \<Rightarrow> gucs \<Rightarrow> brokerstate \<Rightarrow> 'w io \<Rightarrow> (brokerstate \<times> 'w io) option" where
  "commit_bs E g b s =
     (if uncommitted b > 0 \<and> (inerror b \<or> conn b = None)
      then
        let s1 = warn (W_Discarding (uncommitted b) (broker_id b)) s;
            (b1, s2) = local_amqp_disconnect_bs E b False s1
        in Some (b1\<lparr>inerror := False, uncommitted := 0\<rparr>, s2)
      else
        let (b1, s1) =
              (if inerror b
               then let (b', s') = local_amqp_disconnect_bs E b False s
                    in (b'\<lparr>inerror := False\<rparr>, s')
               else (b, s))
        in if uncommitted b1 = 0 then Some (b1, s1)
           else
             (case conn b1 of
                None \<Rightarrow> Some (b1\<lparr>uncommitted := 0\<rparr>, s1)
              | Some c \<Rightarrow> flush_bs E g c b1 s1))"

section \<open>XACT_EVENT_ABORT\<close>

definition rollback_bs ::
  "'w rabbitmq \<Rightarrow> gucs \<Rightarrow> conn_handle \<Rightarrow> brokerstate \<Rightarrow> 'w io \<Rightarrow> brokerstate \<times> 'w io" where
  "rollback_bs E g c b s =
     (let s1 = local_amqp_set_timeout E b (amqp_commit_timeout_ms g) s;
          (r, s2) = do_rpc E (Tx_Rollback c 2) s1;
          (b1, s3) =
            (if reply_type r \<noteq> Response_Normal
             then local_amqp_disconnect_bs E b False
                    (warn (W_Rollback_Failed (broker_id b) (reply_type r) (library_error r)) s2)
             else (b, local_amqp_set_timeout E b (amqp_operation_timeout_ms g) s2))
      in (b1\<lparr>uncommitted := 0\<rparr>, s3))"

definition abort_bs ::
  "'w rabbitmq \<Rightarrow> gucs \<Rightarrow> brokerstate \<Rightarrow> 'w io \<Rightarrow> brokerstate \<times> 'w io" where
  "abort_bs E g b s =
     (let (b0, s1) = (if inerror b then local_amqp_disconnect_bs E b False s else (b, s));
          b1 = b0\<lparr>inerror := False\<rparr>
      in if uncommitted b1 = 0 then (b1, s1)
         else
           (case conn b1 of
              None \<Rightarrow> (b1\<lparr>uncommitted := 0\<rparr>, s1)
            | Some c \<Rightarrow> rollback_bs E g c b1 s1))"

section \<open>amqp_local_phase2\<close>

text \<open>\<open>XACT_EVENT_PRE_PREPARE\<close>: the first broker with buffered messages raises the error.\<close>

definition pre_prepare_check :: "brokerstate list \<Rightarrow> pg_error + unit" where
  "pre_prepare_check l =
     (case find (\<lambda>b. uncommitted b > 0) l of
        None \<Rightarrow> Inr ()
      | Some b \<Rightarrow> Inl (Cannot_Prepare (uncommitted b) (broker_id b)))"

definition commit_all ::
  "'w rabbitmq \<Rightarrow> gucs \<Rightarrow> 'w backend \<Rightarrow> 'w backend option" where
  "commit_all E g st =
     do { (l, s) \<leftarrow> for_each_bs (commit_bs E g) (head_bs st) (bio st);
          Some (st\<lparr>head_bs := l, bio := s\<rparr>) }"

definition abort_all ::
  "'w rabbitmq \<Rightarrow> gucs \<Rightarrow> 'w backend \<Rightarrow> 'w backend option" where
  "abort_all E g st =
     do { (l, s) \<leftarrow> for_each_bs (\<lambda>b s. Some (abort_bs E g b s)) (head_bs st) (bio st);
          Some (st\<lparr>head_bs := l, bio := s\<rparr>) }"

definition amqp_local_phase2 ::
  "'w rabbitmq \<Rightarrow> gucs \<Rightarrow> xact_event \<Rightarrow> 'w backend \<Rightarrow> ((pg_error + unit) \<times> 'w backend) option"
where
  "amqp_local_phase2 E g ev st =
     (case ev of
        Xact_Pre_Prepare \<Rightarrow> Some (pre_prepare_check (head_bs st), st)
      | Xact_Parallel_Pre_Commit \<Rightarrow> Some (Inr (), st)
      | Xact_Pre_Commit \<Rightarrow> Some (Inr (), st)
      | Xact_Commit \<Rightarrow> map_option (Pair (Inr ())) (commit_all E g st)
      | Xact_Parallel_Commit \<Rightarrow> map_option (Pair (Inr ())) (commit_all E g st)
      | Xact_Abort \<Rightarrow> map_option (Pair (Inr ())) (abort_all E g st)
      | Xact_Parallel_Abort \<Rightarrow> map_option (Pair (Inr ())) (abort_all E g st)
      | Xact_Prepare \<Rightarrow> Some (Inr (), st))"

section \<open>amqp_local_subxact\<close>

definition subxact_bs :: "brokerstate \<Rightarrow> 'w io \<Rightarrow> brokerstate \<times> 'w io" where
  "subxact_bs b s =
     (if uncommitted b > 0 \<and> \<not> inerror b
      then (b\<lparr>inerror := True\<rparr>, warn (W_Savepoint (uncommitted b) (broker_id b)) s)
      else (b, s))"

definition amqp_local_subxact :: "subxact_event \<Rightarrow> 'w backend \<Rightarrow> 'w backend option" where
  "amqp_local_subxact ev st =
     (if ev \<noteq> Subxact_Abort then Some st
      else
        do { (l, s) \<leftarrow> for_each_bs (\<lambda>b s. Some (subxact_bs b s)) (head_bs st) (bio st);
             Some (st\<lparr>head_bs := l, bio := s\<rparr>) })"

section \<open>amqp_atexit\<close>

definition amqp_atexit :: "'w rabbitmq \<Rightarrow> 'w backend \<Rightarrow> 'w backend option" where
  "amqp_atexit E st =
     do { (l, s) \<leftarrow> for_each_bs (\<lambda>b s. Some (local_amqp_disconnect_bs E b True s))
                       (head_bs st) (bio st);
          Some (st\<lparr>head_bs := l, bio := s\<rparr>) }"

section \<open>The contract of a loop body\<close>

text \<open>
  What the callbacks rely on in the body \<open>f\<close> they run on each broker state: it keeps the
  identity and the invariant of the state, never connects, leaves the state in the condition
  \<open>post\<close>, and only adds events that \<open>allowed\<close> admits.  The facts about the whole loop follow once for all of them.
\<close>

locale bs_callback =
  fixes f :: "brokerstate \<Rightarrow> 'w io \<Rightarrow> (brokerstate \<times> 'w io) option"
    and post :: "brokerstate \<Rightarrow> bool"
    and allowed :: "event \<Rightarrow> bool"
  assumes keeps_id: "bs_ok b \<Longrightarrow> f b s = Some (b', s') \<Longrightarrow> broker_id b' = broker_id b"
    and keeps_ok: "bs_ok b \<Longrightarrow> f b s = Some (b', s') \<Longrightarrow> bs_ok b'"
    and keeps_conn: "bs_ok b \<Longrightarrow> f b s = Some (b', s') \<Longrightarrow> conn b' = None \<or> conn b' = conn b"
    and establishes: "bs_ok b \<Longrightarrow> f b s = Some (b', s') \<Longrightarrow> post b'"
    and only_allowed: "bs_ok b \<Longrightarrow> f b s = Some (b', s') \<Longrightarrow> grows allowed s s'"
begin

lemma loop_result:
  "for_each_bs f l s = Some (l', s') \<Longrightarrow> \<forall>b \<in> set l. bs_ok b \<Longrightarrow>
     map broker_id l' = map broker_id l \<and> (\<forall>b \<in> set l'. bs_ok b \<and> post b) \<and> grows allowed s s'"
proof (induction l arbitrary: s l')
  case (Cons b l)
  from Cons.prems(1) obtain b' s1 bs'
    where b: "f b s = Some (b', s1)" and l: "for_each_bs f l s1 = Some (bs', s')"
      and l': "l' = b' # bs'"
    by (auto elim!: bind_SomeE)
  from Cons.prems(2) have ok: "bs_ok b" and oks: "\<forall>b \<in> set l. bs_ok b" by auto
  from Cons.IH [OF l oks] keeps_id [OF ok b] keeps_ok [OF ok b] establishes [OF ok b]
    only_allowed [OF ok b]
  show ?case by (auto simp: l' intro: grows_trans)
qed simp

lemma loop_brokers_ok:
  "for_each_bs f l s = Some (l', s') \<Longrightarrow> brokers_ok l \<Longrightarrow>
     brokers_ok l' \<and> (\<forall>b \<in> set l'. post b)"
  using loop_result [of l s l' s'] by (simp add: brokers_ok_def)

lemma loop_grows:
  "for_each_bs f l s = Some (l', s') \<Longrightarrow> brokers_ok l \<Longrightarrow> grows allowed s s'"
  using loop_result [of l s l' s'] by (simp add: brokers_ok_def)

lemma loop_conn:
  "for_each_bs f l s = Some (l', s') \<Longrightarrow> \<forall>b \<in> set l. bs_ok b \<Longrightarrow> b' \<in> set l' \<Longrightarrow>
     conn b' = None \<or> (\<exists>b \<in> set l. conn b' = conn b)"
proof (induction l arbitrary: s l')
  case (Cons b l)
  from Cons.prems(1) obtain b1 s1 bs'
    where b: "f b s = Some (b1, s1)" and l: "for_each_bs f l s1 = Some (bs', s')"
      and l': "l' = b1 # bs'"
    by (auto elim!: bind_SomeE)
  from Cons.prems(2) have ok: "bs_ok b" and oks: "\<forall>b \<in> set l. bs_ok b" by auto
  show ?case
    using keeps_conn [OF ok b] Cons.IH [OF l oks] Cons.prems(3) l' by auto
qed simp

text \<open>Every broker state has its turn, between a prefix and a suffix of the run.\<close>

lemma loop_member:
  assumes "for_each_bs f l s = Some (l', s')" and "\<forall>b \<in> set l. bs_ok b" and "b \<in> set l"
  shows "\<exists>t b' t'. f b t = Some (b', t') \<and> b' \<in> set l' \<and> grows allowed s t \<and> grows allowed t' s'"
  using assms
proof (induction l arbitrary: s l')
  case (Cons x xs)
  from Cons.prems(1) obtain x' s1 xs'
    where x: "f x s = Some (x', s1)" and xs: "for_each_bs f xs s1 = Some (xs', s')"
      and l': "l' = x' # xs'"
    by (auto elim!: bind_SomeE)
  from Cons.prems(2) have ok: "bs_ok x" and oks: "\<forall>b \<in> set xs. bs_ok b" by auto
  show ?case
  proof (cases "b = x")
    case True
    have "grows allowed s s" by simp
    with True x l' loop_result [OF xs oks] show ?thesis by fastforce
  next
    case False
    with Cons.prems(3) have "b \<in> set xs" by simp
    from Cons.IH [OF xs oks this] obtain t b' t' where "f b t = Some (b', t')" "b' \<in> set xs'"
      "grows allowed s1 t" "grows allowed t' s'" by blast
    with only_allowed [OF ok x] l' show ?thesis by (metis grows_trans list.set_intros(2))
  qed
qed simp

end

lemma for_each_bs_returns: "(\<And>b s. f b s \<noteq> None) \<Longrightarrow> for_each_bs f l s \<noteq> None"
proof (induction l arbitrary: s)
  case (Cons b l)
  obtain b' s1 where "f b s = Some (b', s1)" using Cons.prems [of b s] by auto
  moreover obtain l' s2 where "for_each_bs f l s1 = Some (l', s2)"
    using Cons.IH [OF Cons.prems, of s1] by auto
  ultimately show ?case by simp
qed simp

section \<open>The commit body\<close>

definition clean :: "brokerstate \<Rightarrow> bool" where
  "clean b \<longleftrightarrow> uncommitted b = 0 \<and> \<not> inerror b"

fun is_commit_event :: "event \<Rightarrow> bool" where
  "is_commit_event (Call (Set_Rpc_Timeout _ _)) = True"
| "is_commit_event (Call (Setsockopt _ _ _)) = True"
| "is_commit_event (Call (Destroy_Connection _)) = True"
| "is_commit_event (Call (Maybe_Release_Buffers _)) = True"
| "is_commit_event (Rpc (Tx_Commit _ _) _) = True"
| "is_commit_event (Polled _ _) = True"
| "is_commit_event (Warn (W_Unroutable _ _)) = True"
| "is_commit_event (Warn (W_Blocked _)) = True"
| "is_commit_event (Warn (W_Discarding _ _)) = True"
| "is_commit_event (Warn (W_Commit_Failed _ _ _ _)) = True"
| "is_commit_event _ = False"

lemma set_timeout_commit:
  "grows is_commit_event s t \<Longrightarrow> grows is_commit_event s (local_amqp_set_timeout E b ms t)"
  by (erule grows_trans, rule grows_mono [OF set_timeout_grows])
     (auto elim: is_timeout_event.elims)

lemma drain_event_commit: "is_drain_event c e \<Longrightarrow> is_commit_event e"
  by (auto elim: is_drain_event.elims)

text \<open>The result of a flush, with the drained state and the reply of \<open>tx.commit\<close> named.\<close>

lemma flush_bs_cases:
  assumes "flush_bs E g c b s = Some (b', s')"
  obtains ok v s2 r s3 s4 where
    "local_amqp_drain_returns E b (local_amqp_set_timeout E b (amqp_commit_timeout_ms g) s) =
       Some (ok, b\<lparr>blocked := v\<rparr>, s2)"
    "r = fst (do_rpc E (Tx_Commit c 2) s2)" "s3 = snd (do_rpc E (Tx_Commit c 2) s2)"
    "s4 = warn (W_Commit_Failed (broker_id b) (uncommitted b) (reply_type r) (library_error r)) s3"
    "reply_type r = Response_Normal \<Longrightarrow>
       b' = b\<lparr>blocked := v, uncommitted := 0\<rparr> \<and>
       s' = local_amqp_set_timeout E (b\<lparr>blocked := v\<rparr>) (amqp_operation_timeout_ms g) s3"
    "reply_type r \<noteq> Response_Normal \<Longrightarrow>
       b' = fst (local_amqp_disconnect_bs E (b\<lparr>blocked := v\<rparr>) False s4)\<lparr>uncommitted := 0\<rparr> \<and>
       s' = snd (local_amqp_disconnect_bs E (b\<lparr>blocked := v\<rparr>) False s4)"
proof -
  from assms obtain ok b1 s2 where d: "local_amqp_drain_returns E b
      (local_amqp_set_timeout E b (amqp_commit_timeout_ms g) s) = Some (ok, b1, s2)"
    by (auto simp: flush_bs_def Let_def elim!: bind_SomeE)
  obtain v where v: "b1 = b\<lparr>blocked := v\<rparr>" using drain_returns_effect [OF d] by blast
  show thesis
    by (rule that [OF d [unfolded v] refl refl refl])
       (use assms d v in \<open>auto simp: flush_bs_def Let_def case_prod_beta\<close>)
qed

lemma flush_bs_result:
  assumes "flush_bs E g c b s = Some (b', s')" and "bs_ok b" and "conn b = Some c"
  shows "broker_id b' = broker_id b \<and> bs_ok b' \<and> uncommitted b' = 0 \<and> inerror b' = inerror b \<and>
         (conn b' = None \<or> conn b' = conn b) \<and> grows is_commit_event s s'"
proof (rule flush_bs_cases [OF assms(1)])
  fix ok v s2 r s3 s4
  assume d: "local_amqp_drain_returns E b (local_amqp_set_timeout E b (amqp_commit_timeout_ms g) s)
      = Some (ok, b\<lparr>blocked := v\<rparr>, s2)"
    and r: "r = fst (do_rpc E (Tx_Commit c 2) s2)" "s3 = snd (do_rpc E (Tx_Commit c 2) s2)"
    and s4: "s4 = warn (W_Commit_Failed (broker_id b) (uncommitted b) (reply_type r)
      (library_error r)) s3"
    and normal: "reply_type r = Response_Normal \<Longrightarrow>
       b' = b\<lparr>blocked := v, uncommitted := 0\<rparr> \<and>
       s' = local_amqp_set_timeout E (b\<lparr>blocked := v\<rparr>) (amqp_operation_timeout_ms g) s3"
    and failed: "reply_type r \<noteq> Response_Normal \<Longrightarrow>
       b' = fst (local_amqp_disconnect_bs E (b\<lparr>blocked := v\<rparr>) False s4)\<lparr>uncommitted := 0\<rparr> \<and>
       s' = snd (local_amqp_disconnect_bs E (b\<lparr>blocked := v\<rparr>) False s4)"
  have ok1: "bs_ok (b\<lparr>blocked := v\<rparr>)" using drain_returns_ok [OF d assms(2)] .
  have "grows is_commit_event s (local_amqp_set_timeout E b (amqp_commit_timeout_ms g) s)"
    by (rule set_timeout_commit) simp
  also have "grows is_commit_event \<dots> s2"
    by (rule drain_returns_grows [OF d]) (rule drain_event_commit)
  also have "grows is_commit_event s2 s3" using r by (auto intro!: grows_steps)
  finally have g: "grows is_commit_event s s3" .
  show ?thesis
  proof (cases "reply_type r = Response_Normal")
    case True
    with normal g ok1 show ?thesis
      by (simp add: set_timeout_commit bs_ok_clear_uncommitted)
  next
    case False
    with failed s4 g ok1 show ?thesis
      by (auto intro!: grows_disconnect_hard grows_steps bs_ok_clear_uncommitted disconnect_bs_ok)
  qed
qed

text \<open>The trace of a flush: timeout, polls, the commit, and what its reply leads to.\<close>

lemma flush_bs_trace:
  assumes "flush_bs E g c b s = Some (b', s')" and "conn b = Some c"
  shows "\<exists>polls rt e. list_all (is_drain_event c) polls \<and>
      trace s' = trace s @ timeout_calls b (amqp_commit_timeout_ms g) @ polls @
        Rpc (Tx_Commit c 2) rt #
        (if rt = Response_Normal then timeout_calls b (amqp_operation_timeout_ms g)
         else [Warn (W_Commit_Failed (broker_id b) (uncommitted b) rt e), Call (Destroy_Connection c)]) \<and>
      conn b' = (if rt = Response_Normal then Some c else None)"
proof (rule flush_bs_cases [OF assms(1)])
  fix ok v s2 r s3 s4
  assume d: "local_amqp_drain_returns E b (local_amqp_set_timeout E b (amqp_commit_timeout_ms g) s)
      = Some (ok, b\<lparr>blocked := v\<rparr>, s2)"
    and r: "r = fst (do_rpc E (Tx_Commit c 2) s2)" "s3 = snd (do_rpc E (Tx_Commit c 2) s2)"
    and s4: "s4 = warn (W_Commit_Failed (broker_id b) (uncommitted b) (reply_type r)
      (library_error r)) s3"
    and normal: "reply_type r = Response_Normal \<Longrightarrow>
       b' = b\<lparr>blocked := v, uncommitted := 0\<rparr> \<and>
       s' = local_amqp_set_timeout E (b\<lparr>blocked := v\<rparr>) (amqp_operation_timeout_ms g) s3"
    and failed: "reply_type r \<noteq> Response_Normal \<Longrightarrow>
       b' = fst (local_amqp_disconnect_bs E (b\<lparr>blocked := v\<rparr>) False s4)\<lparr>uncommitted := 0\<rparr> \<and>
       s' = snd (local_amqp_disconnect_bs E (b\<lparr>blocked := v\<rparr>) False s4)"
  obtain polls where "list_all (is_drain_event c) polls"
      "trace s2 = trace s @ timeout_calls b (amqp_commit_timeout_ms g) @ polls"
    using drain_returns_effect [OF d] assms(2) by (auto simp: grows_def set_timeout_trace)
  with r s4 assms(2) show ?thesis
    by (cases "reply_type r = Response_Normal"; intro exI [of _ polls] exI [of _ "reply_type r"] exI [of _ "library_error r"])
       (simp_all add: normal failed trace_simps set_timeout_trace disconnect_hard_trace)
qed

text \<open>What each kind of broker state leaves of the commit body.\<close>

lemma commit_bs_idle:
  assumes "uncommitted b = 0"
  shows "commit_bs E g b s =
    Some (if inerror b
          then (fst (local_amqp_disconnect_bs E b False s)\<lparr>inerror := False\<rparr>,
                snd (local_amqp_disconnect_bs E b False s))
          else (b, s))"
proof -
  have "uncommitted (fst (local_amqp_disconnect_bs E b False s)) = 0"
    using assms by (simp add: local_amqp_disconnect_bs_def split: option.split)
  with assms show ?thesis by (simp add: commit_bs_def Let_def case_prod_beta)
qed

lemma commit_bs_discard:
  assumes "0 < uncommitted b" and "inerror b \<or> conn b = None"
  shows "commit_bs E g b s =
    (let d = local_amqp_disconnect_bs E b False (warn (W_Discarding (uncommitted b) (broker_id b)) s)
     in Some (fst d\<lparr>inerror := False, uncommitted := 0\<rparr>, snd d))"
  using assms by (auto simp: commit_bs_def Let_def case_prod_beta)

lemma commit_bs_flush:
  assumes "uncommitted b \<noteq> 0" and "\<not> inerror b" and "conn b = Some c"
  shows "commit_bs E g b s = flush_bs E g c b s"
  using assms by (auto simp: commit_bs_def Let_def case_prod_beta)

text \<open>A count that has wrapped to a negative number: the discard is not reported.\<close>

lemma commit_bs_wrapped:
  assumes "uncommitted b < 0" and "inerror b" and "bs_ok b"
  shows "commit_bs E g b s =
    (let d = local_amqp_disconnect_bs E b False s in Some (fst d\<lparr>inerror := False\<rparr>, snd d))"
  using assms by (simp add: commit_bs_def Let_def case_prod_beta disconnect_bs_uncommitted)

lemma commit_bs_cases:
  assumes "bs_ok b"
  obtains "uncommitted b = 0"
    | "0 < uncommitted b" "inerror b \<or> conn b = None"
    | c where "uncommitted b \<noteq> 0" "\<not> inerror b" "conn b = Some c"
    | c where "uncommitted b < 0" "inerror b" "conn b = Some c"
  using assms that by (cases "conn b") (fastforce simp: bs_ok_def bs_core_def)+

lemma commit_bs_result:
  assumes "commit_bs E g b s = Some (b', s')" and "bs_ok b"
  shows "broker_id b' = broker_id b \<and> bs_ok b' \<and> clean b' \<and>
         (conn b' = None \<or> conn b' = conn b) \<and> grows is_commit_event s s'"
proof (cases rule: commit_bs_cases [OF assms(2)])
  case 1
  with assms 1 show ?thesis
    by (auto simp: commit_bs_idle clean_def disconnect_bs_uncommitted disconnect_bs_ok split: if_splits
        intro!: grows_disconnect_hard)
next
  case 2
  let ?d = "local_amqp_disconnect_bs E b False (warn (W_Discarding (uncommitted b) (broker_id b)) s)"
  have eq: "b' = fst ?d\<lparr>inerror := False, uncommitted := 0\<rparr>" "s' = snd ?d"
    using assms(1) commit_bs_discard [OF 2, of E g s] by (auto simp: Let_def)
  have "bs_ok (fst ?d\<lparr>inerror := False, uncommitted := 0\<rparr>)"
    using assms(2) by (intro bs_ok_clear_uncommitted) (simp add: disconnect_bs_ok)
  with eq show ?thesis by (auto simp: clean_def intro!: grows_disconnect_hard grows_steps)
next
  case (3 c)
  with assms flush_bs_result [of E g c b s b' s'] show ?thesis
    by (auto simp: commit_bs_flush clean_def)
next
  case (4 c)
  with assms show ?thesis
    by (auto simp: commit_bs_wrapped Let_def clean_def disconnect_bs_uncommitted disconnect_bs_ok
        intro!: grows_disconnect_hard)
qed

lemma flush_bs_returns:
  assumes "polls_run_dry E pending"
  shows "flush_bs E g c b s \<noteq> None"
proof -
  obtain ok b1 s1 where "local_amqp_drain_returns E b
      (local_amqp_set_timeout E b (amqp_commit_timeout_ms g) s) = Some (ok, b1, s1)"
    using drain_returns_terminates [OF assms] by (metis option.exhaust prod_cases3)
  then show ?thesis by (simp add: flush_bs_def Let_def case_prod_beta)
qed

lemma commit_bs_returns:
  "polls_run_dry E pending \<Longrightarrow> commit_bs E g b s \<noteq> None"
  using flush_bs_returns [of E pending]
  by (auto simp: commit_bs_def Let_def case_prod_beta simp del: not_None_eq split: option.split)

section \<open>The abort body\<close>

fun is_abort_event :: "event \<Rightarrow> bool" where
  "is_abort_event (Call (Set_Rpc_Timeout _ _)) = True"
| "is_abort_event (Call (Setsockopt _ _ _)) = True"
| "is_abort_event (Call (Destroy_Connection _)) = True"
| "is_abort_event (Rpc (Tx_Rollback _ _) _) = True"
| "is_abort_event (Warn (W_Rollback_Failed _ _ _)) = True"
| "is_abort_event _ = False"

lemma set_timeout_abort:
  "grows is_abort_event s t \<Longrightarrow> grows is_abort_event s (local_amqp_set_timeout E b ms t)"
  by (erule grows_trans, rule grows_mono [OF set_timeout_grows])
     (auto elim: is_timeout_event.elims)

lemma rollback_bs_result:
  assumes "bs_ok b"
  shows "broker_id (fst (rollback_bs E g c b s)) = broker_id b \<and>
         bs_ok (fst (rollback_bs E g c b s)) \<and> uncommitted (fst (rollback_bs E g c b s)) = 0 \<and>
         inerror (fst (rollback_bs E g c b s)) = inerror b \<and>
         (conn (fst (rollback_bs E g c b s)) = None \<or>
          conn (fst (rollback_bs E g c b s)) = conn b) \<and>
         grows is_abort_event s (snd (rollback_bs E g c b s))"
  using assms
  by (auto simp: rollback_bs_def Let_def case_prod_beta bs_ok_clear_uncommitted disconnect_bs_ok
      intro!: grows_disconnect_hard grows_steps set_timeout_abort)

lemma abort_bs_result:
  assumes "bs_ok b"
  shows "broker_id (fst (abort_bs E g b s)) = broker_id b \<and> bs_ok (fst (abort_bs E g b s)) \<and>
         clean (fst (abort_bs E g b s)) \<and>
         (conn (fst (abort_bs E g b s)) = None \<or> conn (fst (abort_bs E g b s)) = conn b) \<and>
         grows is_abort_event s (snd (abort_bs E g b s))"
proof (cases "inerror b")
  case True
  with True assms show ?thesis
    by (auto simp: abort_bs_def Let_def case_prod_beta clean_def disconnect_bs_uncommitted disconnect_bs_ok
        intro!: grows_disconnect_hard)
next
  case False
  then have same: "b\<lparr>inerror := False\<rparr> = b" by simp
  show ?thesis
  proof (cases "conn b")
    case None
    with assms False bs_ok_no_conn [OF assms None] show ?thesis
      by (simp add: abort_bs_def Let_def clean_def same)
  next
    case (Some c)
    with assms False rollback_bs_result [OF assms, of E g c s] show ?thesis
      by (simp add: abort_bs_def Let_def clean_def same)
  qed
qed

section \<open>The contract of the loop bodies, discharged\<close>

interpretation commit_loop: bs_callback "commit_bs E g" clean is_commit_event
  for E :: "'w rabbitmq" and g :: gucs
  by unfold_locales (auto dest: commit_bs_result)

interpretation abort_loop: bs_callback "\<lambda>b s. Some (abort_bs E g b s)" clean is_abort_event
  for E :: "'w rabbitmq" and g :: gucs
  by unfold_locales (metis abort_bs_result fst_conv snd_conv option.inject)+

text \<open>A savepoint rollback poisons every broker with buffered messages and only says so.\<close>

definition poisoned_if_buffered :: "brokerstate \<Rightarrow> bool" where
  "poisoned_if_buffered b \<longleftrightarrow> (0 < uncommitted b \<longrightarrow> inerror b)"

fun is_subxact_event :: "event \<Rightarrow> bool" where
  "is_subxact_event (Warn (W_Savepoint _ _)) = True"
| "is_subxact_event _ = False"

interpretation subxact_loop: bs_callback "\<lambda>b s. Some (subxact_bs b s)"
  poisoned_if_buffered is_subxact_event
  by unfold_locales
     (auto simp: subxact_bs_def poisoned_if_buffered_def intro!: grows_steps split: if_splits)

definition disconnected :: "brokerstate \<Rightarrow> bool" where
  "disconnected b \<longleftrightarrow> conn b = None"

interpretation exit_loop: bs_callback "\<lambda>b s. Some (local_amqp_disconnect_bs E b True s)"
  disconnected is_teardown_event
  for E :: "'w rabbitmq"
proof unfold_locales
  fix b :: brokerstate and s s' :: "'w io" and b'
  assume ok: "bs_ok b" and "Some (local_amqp_disconnect_bs E b True s) = Some (b', s')"
  then have eq: "b' = fst (local_amqp_disconnect_bs E b True s)"
    "s' = snd (local_amqp_disconnect_bs E b True s)" by auto
  show "broker_id b' = broker_id b" "bs_ok b'" "conn b' = None \<or> conn b' = conn b"
    "disconnected b'" "grows is_teardown_event s s'"
    using ok by (simp_all add: eq disconnected_def disconnect_bs_ok disconnect_bs_grows)
qed

lemma commit_all_ok:
  "commit_all E g st = Some st' \<Longrightarrow> brokers_ok (head_bs st) \<Longrightarrow>
     brokers_ok (head_bs st') \<and> (\<forall>b \<in> set (head_bs st'). clean b)"
  by (auto simp: commit_all_def dest: commit_loop.loop_brokers_ok elim!: bind_SomeE)

lemma abort_all_ok:
  "abort_all E g st = Some st' \<Longrightarrow> brokers_ok (head_bs st) \<Longrightarrow>
     brokers_ok (head_bs st') \<and> (\<forall>b \<in> set (head_bs st'). clean b)"
  by (auto simp: abort_all_def dest: abort_loop.loop_brokers_ok elim!: bind_SomeE)

lemma subxact_ok:
  "amqp_local_subxact ev st = Some st' \<Longrightarrow> brokers_ok (head_bs st) \<Longrightarrow> brokers_ok (head_bs st')"
  by (auto simp: amqp_local_subxact_def dest: subxact_loop.loop_brokers_ok
      split: if_splits elim!: bind_SomeE)

lemma atexit_ok:
  "amqp_atexit E st = Some st' \<Longrightarrow> brokers_ok (head_bs st) \<Longrightarrow>
     brokers_ok (head_bs st') \<and> (\<forall>b \<in> set (head_bs st'). disconnected b)"
  by (auto simp: amqp_atexit_def dest: exit_loop.loop_brokers_ok elim!: bind_SomeE)

end
