(* ===== verification/Pg_Publish.thy ===== *)
theory Pg_Publish
  imports Pg_Xact
begin

text \<open>
  The SQL-callable functions of \<open>src/src/pg_amqp.c\<close>: \<open>pg_amqp_exchange_declare\<close>,
  \<open>pg_amqp_publish_opt\<close> with its two callers \<open>pg_amqp_publish\<close> (channel 2) and
  \<open>pg_amqp_autonomous_publish\<close> (channel 1), and \<open>pg_amqp_disconnect\<close>.
\<close>

section \<open>Arguments\<close>

text \<open>SQL arguments; \<open>None\<close> is NULL.  \<open>arg_n\<close> is \<open>PG_NARGS()\<close>.\<close>

record publish_args =
  arg_broker_id :: "int option"
  arg_exchange :: "string option"
  arg_routing_key :: "string option"
  arg_body :: "string option"
  arg_delivery_mode :: "int option"
  arg_content_type :: "string option"
  arg_reply_to :: "string option"
  arg_correlation_id :: "string option"
  arg_mandatory :: "bool option"
  arg_n :: nat

record declare_args =
  decl_broker_id :: "int option"
  decl_exchange :: "string option"
  decl_type :: "string option"
  decl_passive :: "bool option"
  decl_durable :: "bool option"
  decl_auto_delete :: "bool option"

section \<open>The message\<close>

definition AMQP_BASIC_CONTENT_TYPE_FLAG :: u32 where
  "AMQP_BASIC_CONTENT_TYPE_FLAG = push_bit 15 1"

definition AMQP_BASIC_DELIVERY_MODE_FLAG :: u32 where
  "AMQP_BASIC_DELIVERY_MODE_FLAG = push_bit 12 1"

definition AMQP_BASIC_CORRELATION_ID_FLAG :: u32 where
  "AMQP_BASIC_CORRELATION_ID_FLAG = push_bit 10 1"

definition AMQP_BASIC_REPLY_TO_FLAG :: u32 where
  "AMQP_BASIC_REPLY_TO_FLAG = push_bit 9 1"

text \<open>
  The optional properties.  A field whose flag stays clear is indeterminate stack memory in C and
  is never read by the library; here it is empty.
\<close>

definition add_flag :: "u32 \<Rightarrow> publish_properties \<Rightarrow> publish_properties" where
  "add_flag fl p = p\<lparr>props_flags := or (props_flags p) fl\<rparr>"

definition no_properties :: publish_properties where
  "no_properties =
     \<lparr>props_flags = 0, delivery_mode = 0, content_type = [], reply_to = [],
      correlation_id = []\<rparr>"

definition set_delivery_mode ::
  "publish_args \<Rightarrow> publish_properties \<Rightarrow> 'w io \<Rightarrow> publish_properties \<times> 'w io" where
  "set_delivery_mode a p s =
     (case arg_delivery_mode a of
        None \<Rightarrow> (p, s)
      | Some m \<Rightarrow>
          if m = 1 \<or> m = 2
          then (add_flag AMQP_BASIC_DELIVERY_MODE_FLAG p\<lparr>delivery_mode := m\<rparr>, s)
          else (p, warn (W_Delivery_Mode m) s))"

definition set_text_properties :: "publish_args \<Rightarrow> publish_properties \<Rightarrow> publish_properties" where
  "set_text_properties a p =
     (let p1 = (case arg_content_type a of
                  None \<Rightarrow> p
                | Some t \<Rightarrow> add_flag AMQP_BASIC_CONTENT_TYPE_FLAG p\<lparr>content_type := t\<rparr>);
          p2 = (case arg_reply_to a of
                  None \<Rightarrow> p1
                | Some t \<Rightarrow> add_flag AMQP_BASIC_REPLY_TO_FLAG p1\<lparr>reply_to := t\<rparr>)
      in (case arg_correlation_id a of
            None \<Rightarrow> p2
          | Some t \<Rightarrow> add_flag AMQP_BASIC_CORRELATION_ID_FLAG p2\<lparr>correlation_id := t\<rparr>))"

text \<open>\<open>PG_NARGS() > 8 && !PG_ARGISNULL(8)\<close>.\<close>

definition arg_is_mandatory :: "publish_args \<Rightarrow> bool" where
  "arg_is_mandatory a = (arg_n a > 8 \<and> arg_mandatory a = Some True)"

definition build_request :: "publish_args \<Rightarrow> 'w io \<Rightarrow> publish_request \<times> 'w io" where
  "build_request a s =
     (let (p, s1) = set_delivery_mode a no_properties s;
          p1 = set_text_properties a p
      in (\<lparr>exchange = or_default ''amq.direct'' (arg_exchange a),
           routing_key = or_default [] (arg_routing_key a),
           mandatory = arg_is_mandatory a,
           immediate = False,
           properties = (if props_flags p1 = 0 then None else Some p1),
           body = or_default [] (arg_body a)\<rparr>, s1))"

section \<open>pg_amqp_publish_opt\<close>

text \<open>The size of an oversized body, if the guard \<open>pg_amqp.max_body_bytes\<close> rejects it.\<close>

definition body_too_large :: "gucs \<Rightarrow> publish_args \<Rightarrow> int option" where
  "body_too_large g a =
     (case arg_body a of
        None \<Rightarrow> None
      | Some t \<Rightarrow>
          if amqp_max_body_bytes g > 0 \<and> int (length t) > amqp_max_body_bytes g
          then Some (int (length t)) else None)"

text \<open>One pass from the label \<open>redo\<close>: it returns to SQL or jumps back.\<close>

datatype attempt = Return bool | Redo

text \<open>
  \<open>if(once_more && (channel == 1 || bs->uncommitted == 0))\<close>: drop the connection and go back to
  \<open>redo\<close>; otherwise give up with the broker state \<open>b'\<close>.
\<close>

definition retry_or_fail ::
  "'w rabbitmq \<Rightarrow> nat \<Rightarrow> bool \<Rightarrow> brokerstate \<Rightarrow> brokerstate \<Rightarrow> 'w io \<Rightarrow>
     attempt \<times> brokerstate \<times> 'w io" where
  "retry_or_fail E channel once_more b b' s =
     (if once_more \<and> (channel = 1 \<or> uncommitted b = 0)
      then let (b1, s1) = local_amqp_disconnect_bs E b False s in (Redo, b1, s1)
      else (Return False, b', s))"

definition send_message ::
  "'w rabbitmq \<Rightarrow> publish_args \<Rightarrow> nat \<Rightarrow> bool \<Rightarrow> conn_handle \<Rightarrow> brokerstate \<Rightarrow> 'w io \<Rightarrow>
     (attempt \<times> brokerstate \<times> 'w io) option" where
  "send_message E a channel once_more c b s =
     do { let (q, s1) = build_request a s;
          let (rv, s2) = do_publish E c channel q s1;
          (b2, s3) \<leftarrow>
            (if channel = 1 \<and> mandatory q
             then map_option snd (local_amqp_drain_returns E b s2)
             else Some (b, s2));
          Some (if rv \<noteq> 0
                then retry_or_fail E channel once_more b2 (b2\<lparr>inerror := True\<rparr>) s3
                else (Return True,
                      (if channel = 2 then b2\<lparr>uncommitted := int32 (uncommitted b2 + 1)\<rparr> else b2), s3)) }"

definition publish_attempt ::
  "'w rabbitmq \<Rightarrow> publish_args \<Rightarrow> nat \<Rightarrow> bool \<Rightarrow> brokerstate \<Rightarrow> 'w io \<Rightarrow>
     (attempt \<times> brokerstate \<times> 'w io) option" where
  "publish_attempt E a channel once_more b s =
     (case conn b of
        None \<Rightarrow> Some (Return False, b, s)
      | Some c \<Rightarrow>
          if \<not> (channel = 1 \<or> \<not> inerror b) then Some (Return False, b, s)
          else
            do { (usable, b1, s1) \<leftarrow> local_amqp_drain_returns E b s;
                 if \<not> usable
                 then Some (retry_or_fail E channel once_more b1
                              (if channel = 2 then b1\<lparr>inerror := True\<rparr> else b1) s1)
                 else if blocked b1
                 then Some (Return False, b1, warn (W_Publish_Blocked (broker_id b1)) s1)
                 else send_message E a channel once_more c b1 s1 })"

text \<open>
  The loop made by \<open>goto redo\<close>.  A pass with \<open>once_more\<close> cleared never jumps back
  (\<open>publish_attempt_last\<close>), so the last branch is not reached.
\<close>

function publish_redo ::
  "'w rabbitmq \<Rightarrow> gucs \<Rightarrow> publish_args \<Rightarrow> nat \<Rightarrow> int \<Rightarrow> bool \<Rightarrow> 'w backend \<Rightarrow>
     (bool \<times> 'w backend) option" where
  "publish_redo E g a channel i once_more st =
     (let (b, st1) = local_amqp_get_bs E g i st
      in (case publish_attempt E a channel once_more b (bio st1) of
            None \<Rightarrow> None
          | Some (r, b1, s1) \<Rightarrow>
              (let st2 = st1\<lparr>head_bs := put_bs b1 (head_bs st1), bio := s1\<rparr>
               in (case r of
                     Return v \<Rightarrow> Some (v, st2)
                   | Redo \<Rightarrow>
                       if once_more then publish_redo E g a channel i False st2 else None))))"
  by pat_completeness auto
termination
  by (relation "measure (\<lambda>(E, g, a, ch, i, once_more, st). if once_more then 1 else 0)") auto

declare publish_redo.simps [simp del]

definition pg_amqp_publish_opt ::
  "'w rabbitmq \<Rightarrow> gucs \<Rightarrow> publish_args \<Rightarrow> nat \<Rightarrow> 'w backend \<Rightarrow> (bool \<times> 'w backend) option" where
  "pg_amqp_publish_opt E g a channel st =
     (case arg_broker_id a of
        None \<Rightarrow> Some (False, st)
      | Some i \<Rightarrow>
          (case body_too_large g a of
             Some n \<Rightarrow>
               Some (False, st\<lparr>bio := warn (W_Body_Too_Large n (amqp_max_body_bytes g)) (bio st)\<rparr>)
           | None \<Rightarrow> publish_redo E g a channel i True st))"

definition pg_amqp_publish ::
  "'w rabbitmq \<Rightarrow> gucs \<Rightarrow> publish_args \<Rightarrow> 'w backend \<Rightarrow> (bool \<times> 'w backend) option" where
  "pg_amqp_publish E g a st = pg_amqp_publish_opt E g a 2 st"

definition pg_amqp_autonomous_publish ::
  "'w rabbitmq \<Rightarrow> gucs \<Rightarrow> publish_args \<Rightarrow> 'w backend \<Rightarrow> (bool \<times> 'w backend) option" where
  "pg_amqp_autonomous_publish E g a st = pg_amqp_publish_opt E g a 1 st"

section \<open>pg_amqp_exchange_declare\<close>

definition declare_request :: "declare_args \<Rightarrow> exchange_request" where
  "declare_request a =
     \<lparr>declare_exchange = or_default [] (decl_exchange a),
      declare_type = or_default [] (decl_type a),
      declare_passive = or_default False (decl_passive a),
      declare_durable = or_default False (decl_durable a),
      declare_auto_delete = or_default False (decl_auto_delete a)\<rparr>"

definition pg_amqp_exchange_declare ::
  "'w rabbitmq \<Rightarrow> gucs \<Rightarrow> declare_args \<Rightarrow> 'w backend \<Rightarrow> bool \<times> 'w backend" where
  "pg_amqp_exchange_declare E g a st =
     (case decl_broker_id a of
        None \<Rightarrow> (False, st)
      | Some i \<Rightarrow>
          let (b, st1) = local_amqp_get_bs E g i st
          in (case conn b of
                None \<Rightarrow> (False, st1)
              | Some c \<Rightarrow>
                  let (r, s1) = do_rpc E (Exchange_Declare c 1 (declare_request a)) (bio st1)
                  in if reply_type r = Response_Normal then (True, st1\<lparr>bio := s1\<rparr>)
                     else
                       let (b1, s2) = local_amqp_disconnect_bs E b False s1
                       in (False, st1\<lparr>head_bs := put_bs b1 (head_bs st1), bio := s2\<rparr>)))"

section \<open>pg_amqp_disconnect\<close>

definition local_amqp_disconnect :: "'w rabbitmq \<Rightarrow> int \<Rightarrow> 'w backend \<Rightarrow> 'w backend" where
  "local_amqp_disconnect E i st =
     (let (b, l) = local_amqp_get_a_bs i (head_bs st);
          (b1, s1) = local_amqp_disconnect_bs E b True (bio st);
          b2 = b1\<lparr>inerror := False, idx := 0, consecutive_failures := 0,
                  last_failed_connect := 0\<rparr>
      in st\<lparr>head_bs := put_bs (local_amqp_free_hosts b2) l, bio := s1\<rparr>)"

definition pg_amqp_disconnect ::
  "'w rabbitmq \<Rightarrow> int option \<Rightarrow> 'w backend \<Rightarrow> 'w backend" where
  "pg_amqp_disconnect E arg st =
     (case arg of None \<Rightarrow> st | Some i \<Rightarrow> local_amqp_disconnect E i st)"

section \<open>One pass of the publish loop\<close>

text \<open>The message a call sends does not depend on the state of the world.\<close>

definition request_of :: "publish_args \<Rightarrow> publish_request" where
  "request_of a = fst (build_request a \<lparr>world = (), trace = []\<rparr>)"

lemma fst_set_delivery_mode:
  "fst (set_delivery_mode a p s) = fst (set_delivery_mode a p t)"
  by (simp add: set_delivery_mode_def split: option.split)

lemma build_request_fst [simp]: "fst (build_request a s) = request_of a"
  using fst_set_delivery_mode [of a no_properties s "\<lparr>world = (), trace = []\<rparr>"]
  by (simp add: request_of_def build_request_def case_prod_beta Let_def)

fun is_sent :: "event \<Rightarrow> bool" where
  "is_sent (Sent _ _) = True"
| "is_sent _ = False"

text \<open>What a pass does that returns: it polls, publishes and logs.  One that jumps back destroys the
  connection in the end.\<close>

fun is_publish_event :: "conn_handle \<Rightarrow> nat \<Rightarrow> event \<Rightarrow> bool" where
  "is_publish_event c ch (Sent (Basic_Publish c' ch' _) _) = (c' = c \<and> ch' = ch)"
| "is_publish_event c ch (Call (Maybe_Release_Buffers c')) = (c' = c)"
| "is_publish_event c ch (Polled (Wait_Frame_Noblock c') _) = (c' = c)"
| "is_publish_event c ch (Warn (W_Unroutable _ _)) = True"
| "is_publish_event c ch (Warn (W_Blocked _)) = True"
| "is_publish_event c ch (Warn (W_Publish_Blocked _)) = True"
| "is_publish_event c ch (Warn (W_Delivery_Mode _)) = True"
| "is_publish_event c ch _ = False"

definition is_attempt_event :: "conn_handle \<Rightarrow> nat \<Rightarrow> attempt \<Rightarrow> event \<Rightarrow> bool" where
  "is_attempt_event c ch r e \<longleftrightarrow> is_publish_event c ch e \<or> r = Redo \<and> e = Call (Destroy_Connection c)"

lemma publish_event_attempt [simp]: "is_publish_event c ch e \<Longrightarrow> is_attempt_event c ch r e"
  by (simp add: is_attempt_event_def)

lemma grows_publish_attempt:
  "grows (is_publish_event c ch) s s' \<Longrightarrow> grows (is_attempt_event c ch r) s s'"
  by (erule grows_mono) simp

lemma drain_attempt:
  "local_amqp_drain_returns E b s = Some (ok, b', s') \<Longrightarrow> conn b = Some c \<Longrightarrow>
     grows (is_publish_event c ch) s s'"
  by (rule drain_returns_grows) (auto elim: is_drain_event.elims)

lemma drain_sent:
  "local_amqp_drain_returns E b s = Some (ok, b', s') \<Longrightarrow>
     filter is_sent (trace s') = filter is_sent (trace s)"
  by (rule grows_filter [where P = "\<lambda>e. \<not> is_sent e"], rule drain_returns_grows)
     (auto elim: is_drain_event.elims)

lemma build_request_grows: "grows (is_publish_event c ch) s (snd (build_request a s))"
  by (auto simp: build_request_def set_delivery_mode_def case_prod_beta Let_def
      intro!: grows_steps split: option.split)

lemma build_request_sent:
  "filter is_sent (trace (snd (build_request a s))) = filter is_sent (trace s)"
  by (simp add: build_request_def set_delivery_mode_def case_prod_beta Let_def trace_simps
      split: option.split)

text \<open>What a pass leaves of the broker state.\<close>

definition attempt_post :: "nat \<Rightarrow> bool \<Rightarrow> brokerstate \<Rightarrow> attempt \<Rightarrow> brokerstate \<Rightarrow> bool" where
  "attempt_post ch once_more b r b' \<longleftrightarrow>
     broker_id b' = broker_id b \<and> bs_ok b' \<and>
     consecutive_failures b' = consecutive_failures b \<and>
     last_failed_connect b' = last_failed_connect b \<and>
     (case r of
        Redo \<Rightarrow> once_more \<and> (ch = 1 \<or> uncommitted b = 0) \<and> conn b' = None \<and>
                uncommitted b' = 0 \<and> inerror b' = inerror b
      | Return v \<Rightarrow>
          conn b' = conn b \<and>
          uncommitted b' = (if v \<and> ch = 2 then int32 (uncommitted b + 1) else uncommitted b) \<and>
          (v \<longrightarrow> conn b \<noteq> None \<and> inerror b' = inerror b \<and> (ch = 1 \<or> \<not> inerror b)) \<and>
          (inerror b \<longrightarrow> inerror b'))"

lemma retry_or_fail_post:
  assumes "bs_ok b1" and "broker_id b1 = broker_id b" and "conn b1 = conn b"
    and "uncommitted b1 = uncommitted b" and "inerror b1 = inerror b"
    and "consecutive_failures b1 = consecutive_failures b"
    and "last_failed_connect b1 = last_failed_connect b"
    and "b' = b1 \<or> b' = b1\<lparr>inerror := True\<rparr>"
  shows "attempt_post ch once_more b (fst (retry_or_fail E ch once_more b1 b' s))
           (fst (snd (retry_or_fail E ch once_more b1 b' s)))"
  using assms
  by (auto simp: retry_or_fail_def attempt_post_def case_prod_beta Let_def disconnect_bs_ok
      disconnect_bs_uncommitted)

lemma retry_or_fail_grows:
  assumes "grows (is_publish_event c ch) s t" and "conn b = Some c"
  shows "grows (is_attempt_event c ch (fst (retry_or_fail E ch once_more b b' t))) s
           (snd (snd (retry_or_fail E ch once_more b b' t)))"
  using grows_publish_attempt [OF assms(1)] assms(2)
  by (auto simp: retry_or_fail_def case_prod_beta Let_def local_amqp_disconnect_bs_def
      is_attempt_event_def intro!: grows_steps)

lemma retry_or_fail_sent [simp]:
  "filter is_sent (trace (snd (snd (retry_or_fail E ch once_more b b' t)))) =
     filter is_sent (trace t)"
  by (simp add: retry_or_fail_def case_prod_beta Let_def disconnect_hard_trace split: option.split)

lemma retry_or_fail_not_true: "fst (retry_or_fail E ch once_more b b' t) \<noteq> Return True"
  by (simp add: retry_or_fail_def case_prod_beta Let_def)

lemma send_message_cases:
  assumes "send_message E a ch once_more c b s = Some (r, b', s')"
  obtains v rv s2 s3 where
    "rv = fst (do_publish E c ch (request_of a) (snd (build_request a s)))"
    "s2 = snd (do_publish E c ch (request_of a) (snd (build_request a s)))"
    "(s3 = s2 \<and> v = blocked b) \<or>
       (\<exists>ok. local_amqp_drain_returns E b s2 = Some (ok, b\<lparr>blocked := v\<rparr>, s3))"
    "(r, b', s') =
       (if rv \<noteq> 0
        then retry_or_fail E ch once_more (b\<lparr>blocked := v\<rparr>) (b\<lparr>blocked := v, inerror := True\<rparr>) s3
        else (Return True, (if ch = 2 then b\<lparr>blocked := v, uncommitted := int32 (uncommitted b + 1)\<rparr>
                            else b\<lparr>blocked := v\<rparr>), s3))"
proof -
  let ?q = "build_request a s"
  let ?p = "do_publish E c ch (request_of a) (snd ?q)"
  show thesis
  proof (cases "ch = 1 \<and> mandatory (request_of a)")
    case True
    with assms obtain ok b2 s3 where d: "local_amqp_drain_returns E b (snd ?p) = Some (ok, b2, s3)"
      and eq: "(r, b', s') = (if fst ?p \<noteq> 0
        then retry_or_fail E ch once_more b2 (b2\<lparr>inerror := True\<rparr>) s3
        else (Return True, (if ch = 2 then b2\<lparr>uncommitted := int32 (uncommitted b2 + 1)\<rparr> else b2), s3))"
      by (auto simp: send_message_def case_prod_beta Let_def elim!: bind_SomeE)
    obtain v where v: "b2 = b\<lparr>blocked := v\<rparr>" using drain_returns_effect [OF d] by blast
    show thesis by (rule that [OF refl refl, of s3 v]) (use d eq v in auto)
  next
    case False
    with assms have eq: "(r, b', s') = (if fst ?p \<noteq> 0
        then retry_or_fail E ch once_more b (b\<lparr>inerror := True\<rparr>) (snd ?p)
        else (Return True, (if ch = 2 then b\<lparr>uncommitted := int32 (uncommitted b + 1)\<rparr> else b), snd ?p))"
      by (auto simp: send_message_def case_prod_beta Let_def)
    have self: "b\<lparr>blocked := blocked b\<rparr> = b" by simp
    show thesis by (rule that [OF refl refl, of "snd ?p" "blocked b"]) (use eq self in simp_all)
  qed
qed

lemma send_message_post:
  assumes send: "send_message E a ch once_more c b s = Some (r, b', s')"
    and ok: "bs_ok b" and conn: "conn b = Some c" and may: "ch = 1 \<or> \<not> inerror b"
  shows "attempt_post ch once_more b r b'"
proof (rule send_message_cases [OF send])
  fix v rv s2 s3
  assume d: "(s3 = s2 \<and> v = blocked b) \<or>
       (\<exists>ok. local_amqp_drain_returns E b s2 = Some (ok, b\<lparr>blocked := v\<rparr>, s3))"
    and eq: "(r, b', s') =
       (if rv \<noteq> 0
        then retry_or_fail E ch once_more (b\<lparr>blocked := v\<rparr>) (b\<lparr>blocked := v, inerror := True\<rparr>) s3
        else (Return True, (if ch = 2 then b\<lparr>blocked := v, uncommitted := int32 (uncommitted b + 1)\<rparr>
                            else b\<lparr>blocked := v\<rparr>), s3))"
  have ok': "bs_ok (b\<lparr>blocked := v\<rparr>)"
    using ok conn by (simp add: bs_ok_def bs_core_def frame_simps)
  show "attempt_post ch once_more b r b'"
  proof (cases "rv = 0")
    case True
    with eq ok ok' conn may show ?thesis
      by (auto simp: attempt_post_def bs_ok_def bs_core_def frame_simps)
  next
    case False
    let ?x = "b\<lparr>blocked := v\<rparr>" and ?y = "b\<lparr>blocked := v, inerror := True\<rparr>"
    from False eq have "r = fst (retry_or_fail E ch once_more ?x ?y s3)"
      and "b' = fst (snd (retry_or_fail E ch once_more ?x ?y s3))"
      by (metis fst_conv, metis fst_conv snd_conv)
    moreover have "attempt_post ch once_more b (fst (retry_or_fail E ch once_more ?x ?y s3))
        (fst (snd (retry_or_fail E ch once_more ?x ?y s3)))"
      by (rule retry_or_fail_post [OF ok']) simp_all
    ultimately show ?thesis by simp
  qed
qed

lemma send_message_trace:
  assumes send: "send_message E a ch once_more c b s = Some (r, b', s')" and conn: "conn b = Some c"
  shows "grows (is_attempt_event c ch r) s s' \<and>
    (\<exists>rv. filter is_sent (trace s') =
            filter is_sent (trace s) @ [Sent (Basic_Publish c ch (request_of a)) rv] \<and>
          (r = Return True \<longleftrightarrow> rv = 0))"
proof (rule send_message_cases [OF send])
  fix v rv s2 s3
  assume rv: "rv = fst (do_publish E c ch (request_of a) (snd (build_request a s)))"
    and s2: "s2 = snd (do_publish E c ch (request_of a) (snd (build_request a s)))"
    and d: "(s3 = s2 \<and> v = blocked b) \<or>
       (\<exists>ok. local_amqp_drain_returns E b s2 = Some (ok, b\<lparr>blocked := v\<rparr>, s3))"
    and eq: "(r, b', s') =
       (if rv \<noteq> 0
        then retry_or_fail E ch once_more (b\<lparr>blocked := v\<rparr>) (b\<lparr>blocked := v, inerror := True\<rparr>) s3
        else (Return True, (if ch = 2 then b\<lparr>blocked := v, uncommitted := int32 (uncommitted b + 1)\<rparr>
                            else b\<lparr>blocked := v\<rparr>), s3))"
  have "grows (is_publish_event c ch) s s2"
    unfolding s2 by (intro grows_do_publish build_request_grows) simp
  moreover have "grows (is_publish_event c ch) s2 s3" using d drain_attempt conn by auto
  ultimately have g3: "grows (is_publish_event c ch) s s3" by (rule grows_trans)
  have sent3: "filter is_sent (trace s3) =
      filter is_sent (trace s) @ [Sent (Basic_Publish c ch (request_of a)) rv]"
    using d drain_sent [of E b s2] by (auto simp: s2 rv trace_simps build_request_sent)
  show ?thesis
  proof (cases "rv = 0")
    case True
    with eq grows_publish_attempt [OF g3] sent3 show ?thesis by auto
  next
    case False
    let ?t = "retry_or_fail E ch once_more (b\<lparr>blocked := v\<rparr>)
      (b\<lparr>blocked := v, inerror := True\<rparr>) s3"
    from False eq have e: "r = fst ?t" "s' = snd (snd ?t)" by (metis fst_conv, metis snd_conv)
    have "grows (is_attempt_event c ch r) s s'"
      unfolding e using g3 conn by (intro retry_or_fail_grows) simp_all
    with False sent3 show ?thesis
      using retry_or_fail_not_true [of E ch once_more "b\<lparr>blocked := v\<rparr>"] by (auto simp: e)
  qed
qed

lemma publish_attempt_post:
  assumes att: "publish_attempt E a ch once_more b s = Some (r, b', s')" and ok: "bs_ok b"
  shows "attempt_post ch once_more b r b'"
proof (cases "conn b = None \<or> (ch \<noteq> 1 \<and> inerror b)")
  case True
  with att ok show ?thesis
    by (auto simp: publish_attempt_def attempt_post_def split: option.splits)
next
  case False
  then obtain c where c: "conn b = Some c" and may: "ch = 1 \<or> \<not> inerror b" by auto
  from att c may obtain usable b1 s1
    where d: "local_amqp_drain_returns E b s = Some (usable, b1, s1)"
    and rest: "(if \<not> usable
      then Some (retry_or_fail E ch once_more b1 (if ch = 2 then b1\<lparr>inerror := True\<rparr> else b1) s1)
      else if blocked b1 then Some (Return False, b1, warn (W_Publish_Blocked (broker_id b1)) s1)
      else send_message E a ch once_more c b1 s1) = Some (r, b', s')"
    by (auto simp: publish_attempt_def elim!: bind_SomeE)
  obtain v where v: "b1 = b\<lparr>blocked := v\<rparr>" using drain_returns_effect [OF d] by blast
  have ok1: "bs_ok b1" by (rule drain_returns_ok [OF d ok])
  show ?thesis
  proof (cases "usable \<and> \<not> blocked b1")
    case True
    with rest have "send_message E a ch once_more c b1 s1 = Some (r, b', s')" by simp
    from send_message_post [OF this ok1] c may v show ?thesis
      by (auto simp: attempt_post_def split: attempt.splits)
  next
    case no_send: False
    show ?thesis
    proof (cases usable)
      case True
      with no_send rest v ok1 show ?thesis by (auto simp: attempt_post_def)
    next
      case False
      let ?y = "if ch = 2 then b1\<lparr>inerror := True\<rparr> else b1"
      from False rest have "r = fst (retry_or_fail E ch once_more b1 ?y s1)"
        and "b' = fst (snd (retry_or_fail E ch once_more b1 ?y s1))" by auto
      moreover have "attempt_post ch once_more b (fst (retry_or_fail E ch once_more b1 ?y s1))
          (fst (snd (retry_or_fail E ch once_more b1 ?y s1)))"
        by (rule retry_or_fail_post [OF ok1]) (simp_all add: v)
      ultimately show ?thesis by simp
    qed
  qed
qed

lemma publish_attempt_trace:
  assumes att: "publish_attempt E a ch once_more b s = Some (r, b', s')"
  shows "case conn b of None \<Rightarrow> s' = s
    | Some c \<Rightarrow> grows (is_attempt_event c ch r) s s' \<and>
        (\<exists>es. filter is_sent (trace s') = filter is_sent (trace s) @ es \<and>
              (es = [] \<and> r \<noteq> Return True \<or>
               (\<exists>rv. es = [Sent (Basic_Publish c ch (request_of a)) rv] \<and>
                     (r = Return True \<longleftrightarrow> rv = 0))))"
proof (cases "conn b = None \<or> (ch \<noteq> 1 \<and> inerror b)")
  case True
  with att show ?thesis
    by (auto simp: publish_attempt_def split: option.splits)
next
  case False
  then obtain c where c: "conn b = Some c" and may: "ch = 1 \<or> \<not> inerror b" by auto
  from att c may obtain usable b1 s1
    where d: "local_amqp_drain_returns E b s = Some (usable, b1, s1)"
    and rest: "(if \<not> usable
      then Some (retry_or_fail E ch once_more b1 (if ch = 2 then b1\<lparr>inerror := True\<rparr> else b1) s1)
      else if blocked b1 then Some (Return False, b1, warn (W_Publish_Blocked (broker_id b1)) s1)
      else send_message E a ch once_more c b1 s1) = Some (r, b', s')"
    by (auto simp: publish_attempt_def elim!: bind_SomeE)
  obtain v where v: "b1 = b\<lparr>blocked := v\<rparr>" using drain_returns_effect [OF d] by blast
  have c1: "conn b1 = Some c" using c v by simp
  note g1 = drain_attempt [OF d c, of ch] and sent1 = drain_sent [OF d]
  show ?thesis
  proof (cases "usable \<and> \<not> blocked b1")
    case True
    with rest have "send_message E a ch once_more c b1 s1 = Some (r, b', s')" by simp
    from send_message_trace [OF this c1] grows_publish_attempt [OF g1] sent1 c show ?thesis
      by (auto intro: grows_trans)
  next
    case no_send: False
    show ?thesis
    proof (cases usable)
      case True
      with no_send rest grows_publish_attempt [OF g1] sent1 c show ?thesis
        by (auto simp: trace_simps intro!: grows_steps)
    next
      case False
      let ?y = "if ch = 2 then b1\<lparr>inerror := True\<rparr> else b1"
      from False rest have e: "r = fst (retry_or_fail E ch once_more b1 ?y s1)"
        "s' = snd (snd (retry_or_fail E ch once_more b1 ?y s1))" by auto
      show ?thesis
        using retry_or_fail_grows [OF g1 c1, of E once_more ?y] c sent1
          retry_or_fail_not_true [of E ch once_more b1 ?y s1]
        by (simp add: e)
    qed
  qed
qed

lemma publish_attempt_last:
  "publish_attempt E a ch False b s = Some (r, b', s') \<Longrightarrow> bs_ok b \<Longrightarrow> r \<noteq> Redo"
  by (drule (1) publish_attempt_post) (auto simp: attempt_post_def)

lemma publish_attempt_returns:
  assumes "polls_run_dry E pending"
  shows "publish_attempt E a ch once_more b s \<noteq> None"
proof -
  have d: "\<exists>ok b1 s1. local_amqp_drain_returns E x t = Some (ok, b1, s1)" for x t
    using drain_returns_terminates [OF assms] by (metis option.exhaust prod_cases3)
  have send: "send_message E a ch once_more c x t \<noteq> None" for c x t
    using d [of x "snd (do_publish E c ch (request_of a) (snd (build_request a t)))"]
    by (auto simp: send_message_def case_prod_beta Let_def simp del: not_None_eq)
  obtain ok b1 s1 where "local_amqp_drain_returns E b s = Some (ok, b1, s1)" using d by blast
  with send show ?thesis
    by (auto simp: publish_attempt_def simp del: not_None_eq split: option.split)
qed

end
