(* ===== verification/Pg_Session.thy ===== *)
theory Pg_Session
  imports Pg_Publish
begin

text \<open>
  Whole calls and whole sessions of \<open>src/src/pg_amqp.c\<close>: the effect of the publish loop on the
  broker list, the step relation of one PostgreSQL backend (every SQL call and every server
  callback is a step), its reachable states and the invariants they keep.
\<close>

section \<open>The broker state a call works on\<close>

definition bs_of :: "int \<Rightarrow> 'w backend \<Rightarrow> brokerstate" where
  "bs_of i st = fst (local_amqp_get_a_bs i (head_bs st))"

lemma bs_of_ok: "brokers_ok (head_bs st) \<Longrightarrow> bs_ok (bs_of i st)"
  using get_a_bs_ok [of "head_bs st" i] get_a_bs_mem [of i "head_bs st"]
  by (simp add: bs_of_def brokers_ok_def)

lemma bs_of_id [simp]: "broker_id (bs_of i st) = i"
  by (simp add: bs_of_def get_a_bs_id)

lemma brokers_ok_unique:
  "brokers_ok l \<Longrightarrow> b \<in> set l \<Longrightarrow> fst (local_amqp_get_a_bs (broker_id b) l) = b"
proof -
  assume l: "brokers_ok l" and b: "b \<in> set l"
  have "find (\<lambda>x. broker_id x = broker_id b) l \<noteq> None" using b by (auto simp: find_None_iff)
  then obtain x where x: "find (\<lambda>x. broker_id x = broker_id b) l = Some x" by auto
  then have "x \<in> set l" "broker_id x = broker_id b" by (auto dest: find_key_SomeD)
  with l b have "x = b" by (auto simp: brokers_ok_def distinct_map inj_on_def)
  with x show ?thesis by (simp add: local_amqp_get_a_bs_def)
qed

lemma bs_of_mem: "brokers_ok (head_bs st) \<Longrightarrow> b \<in> set (head_bs st) \<Longrightarrow> bs_of (broker_id b) st = b"
  by (simp add: bs_of_def brokers_ok_unique)

lemma bs_of_put:
  assumes "broker_id b = i" and "i \<in> broker_id ` set l"
  shows "bs_of i (st\<lparr>head_bs := put_bs b l, bio := s\<rparr>) = b"
  using get_a_bs_put [OF assms] by (simp add: bs_of_def)

lemma get_bs_bs_of:
  assumes "brokers_ok (head_bs st)"
  shows "bs_of i (snd (local_amqp_get_bs E g i st)) = fst (local_amqp_get_bs E g i st)"
  using bs_of_mem [OF get_bs_ok(1) get_bs_ok(4)] get_bs_ok(3) assms by metis

lemma get_bs_uncommitted:
  assumes "brokers_ok (head_bs st)"
  shows "uncommitted (fst (local_amqp_get_bs E g i st)) = uncommitted (bs_of i st)"
  using connect_bs_uncommitted [OF bs_of_ok [OF assms]]
  by (simp add: local_amqp_get_bs_def bs_of_def case_prod_beta)

lemma get_bs_inerror:
  assumes "brokers_ok (head_bs st)"
  shows "inerror (fst (local_amqp_get_bs E g i st)) = inerror (bs_of i st)"
  using connect_bs_inerror [OF bs_of_ok [OF assms]]
  by (simp add: local_amqp_get_bs_def bs_of_def case_prod_beta)

lemma get_bs_connected:
  assumes "conn (bs_of i st) \<noteq> None"
  shows "fst (local_amqp_get_bs E g i st) = bs_of i st"
    and "bio (snd (local_amqp_get_bs E g i st)) = bio st"
  using assms by (simp_all add: local_amqp_get_bs_def bs_of_def connect_bs_connected case_prod_beta)

lemma get_bs_connect:
  "grows is_connect_event (bio st) (bio (snd (local_amqp_get_bs E g i st)))"
  by (simp add: local_amqp_get_bs_def case_prod_beta connect_bs_connect)

text \<open>Broker states other than the one a call is about.\<close>

definition others_kept :: "int \<Rightarrow> 'w backend \<Rightarrow> 'w backend \<Rightarrow> bool" where
  "others_kept i st st' \<longleftrightarrow>
     (\<forall>b. broker_id b \<noteq> i \<longrightarrow> (b \<in> set (head_bs st') \<longleftrightarrow> b \<in> set (head_bs st)))"

lemma others_kept_refl [simp]: "others_kept i st st"
  by (simp add: others_kept_def)

lemma others_kept_trans: "others_kept i st st' \<Longrightarrow> others_kept i st' st'' \<Longrightarrow> others_kept i st st''"
  by (simp add: others_kept_def)

lemma others_kept_put:
  "broker_id b = i \<Longrightarrow> others_kept i st (st\<lparr>head_bs := put_bs b (head_bs st), bio := s\<rparr>)"
  by (auto simp: others_kept_def put_bs_def dest: set_replace_by_key intro: replace_by_key_other)

lemma others_kept_get_a_bs:
  "others_kept i st (st\<lparr>head_bs := snd (local_amqp_get_a_bs i (head_bs st))\<rparr>)"
  by (auto simp: others_kept_def local_amqp_get_a_bs_def fresh_bs_def split: option.split)

lemma others_kept_get_bs:
  assumes "brokers_ok (head_bs st)"
  shows "others_kept i st (snd (local_amqp_get_bs E g i st))"
proof -
  let ?st1 = "st\<lparr>head_bs := snd (local_amqp_get_a_bs i (head_bs st))\<rparr>"
  let ?c = "connect_bs E g (bs_of i st) (bio st)"
  have id: "broker_id (fst ?c) = i" using connect_bs_id [OF bs_of_ok [OF assms]] by simp
  have "others_kept i ?st1 (?st1\<lparr>head_bs := put_bs (fst ?c) (head_bs ?st1), bio := snd ?c\<rparr>)"
    by (rule others_kept_put [OF id])
  moreover have "snd (local_amqp_get_bs E g i st) =
      ?st1\<lparr>head_bs := put_bs (fst ?c) (head_bs ?st1), bio := snd ?c\<rparr>"
    by (simp add: local_amqp_get_bs_def bs_of_def case_prod_beta)
  ultimately show ?thesis using others_kept_get_a_bs others_kept_trans by metis
qed

section \<open>The publish loop\<close>

text \<open>What \<open>publish_redo\<close> does to the broker it publishes on.\<close>

definition publish_post :: "nat \<Rightarrow> int \<Rightarrow> 'w backend \<Rightarrow> bool \<Rightarrow> 'w backend \<Rightarrow> bool" where
  "publish_post ch i st v st' \<longleftrightarrow>
     brokers_ok (head_bs st') \<and> others_kept i st st' \<and>
     (ch \<noteq> 1 \<longrightarrow>
        uncommitted (bs_of i st') =
          (if v \<and> ch = 2 then int32 (uncommitted (bs_of i st) + 1) else uncommitted (bs_of i st))) \<and>
     (ch \<noteq> 1 \<and> uncommitted (bs_of i st) \<noteq> 0 \<longrightarrow> conn (bs_of i st') = conn (bs_of i st)) \<and>
     (ch = 1 \<longrightarrow> uncommitted (bs_of i st') \<in> {0, uncommitted (bs_of i st)})"

text \<open>One pass of the loop on the backend: \<open>local_amqp_get_bs\<close>, then the attempt.\<close>

lemma publish_pass:
  assumes ok: "brokers_ok (head_bs st)"
    and att: "publish_attempt E a ch once_more (fst (local_amqp_get_bs E g i st))
                (bio (snd (local_amqp_get_bs E g i st))) = Some (r, b1, s1)"
    and st2: "st2 = (snd (local_amqp_get_bs E g i st))
                \<lparr>head_bs := put_bs b1 (head_bs (snd (local_amqp_get_bs E g i st))), bio := s1\<rparr>"
  shows "brokers_ok (head_bs st2) \<and> others_kept i st st2 \<and> bs_of i st2 = b1 \<and>
         attempt_post ch once_more (fst (local_amqp_get_bs E g i st)) r b1"
proof -
  note get = get_bs_ok [OF ok, of E g i]
  have post: "attempt_post ch once_more (fst (local_amqp_get_bs E g i st)) r b1"
    by (rule publish_attempt_post [OF att get(2)])
  then have b1: "broker_id b1 = i" "bs_ok b1" using get(3) by (auto simp: attempt_post_def)
  have "i \<in> broker_id ` set (head_bs (snd (local_amqp_get_bs E g i st)))"
    using get(3,4) by force
  then have "bs_of i st2 = b1" unfolding st2 by (rule bs_of_put [OF b1(1)])
  moreover have "brokers_ok (head_bs st2)" unfolding st2 using put_bs_ok [OF get(1) b1(2)] by simp
  moreover have "others_kept i st st2"
    unfolding st2 using others_kept_get_bs [OF ok] others_kept_put [OF b1(1)] others_kept_trans
    by blast
  ultimately show ?thesis using post by blast
qed

lemma publish_redo_step:
  assumes att: "publish_attempt E a ch once_more (fst (local_amqp_get_bs E g i st))
                (bio (snd (local_amqp_get_bs E g i st))) = Some (r, b1, s1)"
    and st2: "st2 = (snd (local_amqp_get_bs E g i st))
                \<lparr>head_bs := put_bs b1 (head_bs (snd (local_amqp_get_bs E g i st))), bio := s1\<rparr>"
  shows "publish_redo E g a ch i once_more st =
    (case r of Return v \<Rightarrow> Some (v, st2)
     | Redo \<Rightarrow> if once_more then publish_redo E g a ch i False st2 else None)"
proof -
  obtain b0 st1 where G: "local_amqp_get_bs E g i st = (b0, st1)" by fastforce
  show ?thesis
    by (subst publish_redo.simps)
       (use att G in \<open>simp add: st2 Let_def split: attempt.split\<close>)
qed

lemma publish_redo_attempt:
  assumes "publish_redo E g a ch i once_more st = Some (v, st')"
  obtains r b1 s1 where "publish_attempt E a ch once_more (fst (local_amqp_get_bs E g i st))
                (bio (snd (local_amqp_get_bs E g i st))) = Some (r, b1, s1)"
proof -
  obtain b0 st1 where G: "local_amqp_get_bs E g i st = (b0, st1)" by fastforce
  show thesis
    using assms that
    by (auto simp: publish_redo.simps [of E g a ch i once_more st] G split: option.splits)
qed

text \<open>
  An induction rule for the loop: a last pass that returns, or a pass that jumps back followed by
  a last pass.
\<close>

lemma publish_redo_cases:
  assumes run: "publish_redo E g a ch i once_more st = Some (v, st')"
    and ok: "brokers_ok (head_bs st)"
  obtains (last) s1 where
      "publish_attempt E a ch once_more (fst (local_amqp_get_bs E g i st))
         (bio (snd (local_amqp_get_bs E g i st))) = Some (Return v, bs_of i st', s1)"
      "st' = (snd (local_amqp_get_bs E g i st))
         \<lparr>head_bs := put_bs (bs_of i st') (head_bs (snd (local_amqp_get_bs E g i st))), bio := s1\<rparr>"
  | (again) st2 s1 where "once_more"
      "publish_attempt E a ch once_more (fst (local_amqp_get_bs E g i st))
         (bio (snd (local_amqp_get_bs E g i st))) = Some (Redo, bs_of i st2, s1)"
      "st2 = (snd (local_amqp_get_bs E g i st))
         \<lparr>head_bs := put_bs (bs_of i st2) (head_bs (snd (local_amqp_get_bs E g i st))), bio := s1\<rparr>"
      "publish_redo E g a ch i False st2 = Some (v, st')"
proof (rule publish_redo_attempt [OF run])
  let ?g = "local_amqp_get_bs E g i st"
  fix r b1 s1
  assume att: "publish_attempt E a ch once_more (fst ?g) (bio (snd ?g)) = Some (r, b1, s1)"
  define st2 where st2: "st2 = (snd ?g)\<lparr>head_bs := put_bs b1 (head_bs (snd ?g)), bio := s1\<rparr>"
  have b1: "bs_of i st2 = b1" using publish_pass [OF ok att st2] by simp
  note eq = publish_redo_step [OF att st2]
  show thesis
  proof (cases r)
    case (Return w)
    with run eq have "w = v" "st' = st2" by auto
    with att Return b1 st2 show thesis by (intro last) simp_all
  next
    case Redo
    with run eq have "once_more" "publish_redo E g a ch i False st2 = Some (v, st')"
      by (auto split: if_splits)
    with att Redo b1 st2 show thesis by (intro again) simp_all
  qed
qed

lemma publish_redo_last:
  assumes run: "publish_redo E g a ch i once_more st = Some (v, st')"
    and ok: "brokers_ok (head_bs st)"
    and att: "publish_attempt E a ch once_more (fst (local_amqp_get_bs E g i st))
         (bio (snd (local_amqp_get_bs E g i st))) = Some (Return v, bs_of i st', s1)"
    and st': "st' = (snd (local_amqp_get_bs E g i st))
         \<lparr>head_bs := put_bs (bs_of i st') (head_bs (snd (local_amqp_get_bs E g i st))), bio := s1\<rparr>"
  shows "publish_post ch i st v st'"
proof -
  let ?g = "local_amqp_get_bs E g i st"
  have u: "uncommitted (fst ?g) = uncommitted (bs_of i st)" by (rule get_bs_uncommitted [OF ok])
  have c: "conn (fst ?g) = conn (bs_of i st)" if "uncommitted (bs_of i st) \<noteq> 0"
    using that get_bs_connected(1) [of i st E g] bs_ok_no_conn [OF bs_of_ok [OF ok, of i]]
    by (cases "conn (bs_of i st)") auto
  show ?thesis
    using publish_pass [OF ok att st'] u c by (auto simp: publish_post_def attempt_post_def)
qed

lemma publish_redo_post:
  assumes run: "publish_redo E g a ch i once_more st = Some (v, st')"
    and ok: "brokers_ok (head_bs st)"
  shows "publish_post ch i st v st'"
proof (cases rule: publish_redo_cases [OF run ok])
  case (1 s1)
  with run ok show ?thesis by (intro publish_redo_last) auto
next
  case (2 st2 s1)
  note pass = publish_pass [OF ok 2(2,3)]
  then have ok2: "brokers_ok (head_bs st2)" by simp
  have u: "uncommitted (fst (local_amqp_get_bs E g i st)) = uncommitted (bs_of i st)"
    by (rule get_bs_uncommitted [OF ok])
  have "publish_post ch i st2 v st'"
  proof (cases rule: publish_redo_cases [OF 2(4) ok2])
    case (1 s)
    with 2 ok2 show ?thesis by (intro publish_redo_last) auto
  qed simp
  with pass u show ?thesis
    by (auto simp: publish_post_def attempt_post_def intro: others_kept_trans)
qed

lemma publish_opt_post:
  assumes "pg_amqp_publish_opt E g a ch st = Some (v, st')" and "brokers_ok (head_bs st)"
    and "arg_broker_id a = Some i"
  shows "publish_post ch i st v st'"
  using assms
  by (auto simp: pg_amqp_publish_opt_def publish_post_def bs_of_def others_kept_def
      split: option.splits dest!: publish_redo_post)

lemma publish_redo_returns:
  assumes dry: "polls_run_dry E pending" and ok: "brokers_ok (head_bs st)"
  shows "publish_redo E g a ch i True st \<noteq> None"
proof -
  have attempt: "\<exists>r b1 s1. publish_attempt E a ch om b s = Some (r, b1, s1)" for om b s
    using publish_attempt_returns [OF dry] by (metis option.exhaust prod_cases3)
  have last: "publish_redo E g a ch i False x \<noteq> None" if okx: "brokers_ok (head_bs x)" for x
  proof -
    obtain r b1 s1 where att: "publish_attempt E a ch False (fst (local_amqp_get_bs E g i x))
        (bio (snd (local_amqp_get_bs E g i x))) = Some (r, b1, s1)" using attempt by blast
    with publish_attempt_last [OF att get_bs_ok(2) [OF okx]] show ?thesis
      by (cases r) (auto simp: publish_redo_step [OF att refl])
  qed
  obtain r b1 s1 where att: "publish_attempt E a ch True (fst (local_amqp_get_bs E g i st))
      (bio (snd (local_amqp_get_bs E g i st))) = Some (r, b1, s1)" using attempt by blast
  note eq = publish_redo_step [OF att refl]
  from publish_pass [OF ok att refl] show ?thesis
    unfolding eq by (cases r) (simp_all add: last del: not_None_eq)
qed

end
