(* ===== verification/Pg_Steps.thy ===== *)
theory Pg_Steps
  imports Pg_Session
begin

text \<open>
  The backend process as a state machine over \<open>src/src/pg_amqp.c\<close>: every SQL call and every
  server callback is a step, in any order and with any setting of the tunables, and the outside
  world may move between steps.  The invariant of its reachable states, and the safety property
  that nothing is published on channel 2 outside AMQP transaction mode.
\<close>

section \<open>Transaction mode of a connection\<close>

definition tx_selected :: "conn_handle \<Rightarrow> event list \<Rightarrow> bool" where
  "tx_selected c es \<longleftrightarrow> Rpc (Tx_Select c 2) Response_Normal \<in> set es"

text \<open>Every publish on channel 2 in \<open>es\<close> comes after \<open>tx.select\<close> succeeded on its connection.\<close>

fun tx_safe :: "event list \<Rightarrow> event list \<Rightarrow> bool" where
  "tx_safe before [] = True"
| "tx_safe before (e # es) =
     ((case e of Sent (Basic_Publish c ch _) _ \<Rightarrow> ch = 2 \<longrightarrow> tx_selected c before | _ \<Rightarrow> True)
      \<and> tx_safe (before @ [e]) es)"

lemma tx_selected_append: "tx_selected c es \<Longrightarrow> tx_selected c (es @ fs)"
  by (simp add: tx_selected_def)

lemma tx_selected_grows: "grows P s s' \<Longrightarrow> tx_selected c (trace s) \<Longrightarrow> tx_selected c (trace s')"
  by (auto simp: grows_def tx_selected_def)

lemma tx_safe_append: "tx_safe bef (es @ fs) \<longleftrightarrow> tx_safe bef es \<and> tx_safe (bef @ es) fs"
  by (induction es arbitrary: bef) auto

lemma tx_safe_quiet: "list_all (\<lambda>e. \<not> is_sent e) es \<Longrightarrow> tx_safe bef es"
  by (induction es arbitrary: bef) (auto split: event.split)

lemma attempt_event_safe:
  "is_attempt_event c ch r e \<Longrightarrow> (ch = 2 \<longrightarrow> tx_selected c bef) \<Longrightarrow> tx_safe bef [e]"
  by (cases "(c, ch, e)" rule: is_publish_event.cases) (auto simp: is_attempt_event_def)

lemma tx_safe_attempt:
  "list_all (is_attempt_event c ch r) es \<Longrightarrow> (ch = 2 \<longrightarrow> tx_selected c bef) \<Longrightarrow> tx_safe bef es"
proof (induction es arbitrary: bef)
  case (Cons e es)
  have "tx_safe bef [e]" by (rule attempt_event_safe [of c ch r]) (use Cons.prems in simp_all)
  moreover have "tx_safe (bef @ [e]) es"
    using Cons by (auto intro: tx_selected_append)
  ultimately show ?case using tx_safe_append [of bef "[e]" es] by simp
qed simp

section \<open>The invariant\<close>

definition session_ok :: "'w backend \<Rightarrow> bool" where
  "session_ok st \<longleftrightarrow>
     brokers_ok (head_bs st) \<and> tx_safe [] (trace (bio st)) \<and>
     (\<forall>b \<in> set (head_bs st). \<forall>c. conn b = Some c \<longrightarrow> tx_selected c (trace (bio st)))"

lemma session_ok_brokers: "session_ok st \<Longrightarrow> brokers_ok (head_bs st)"
  by (simp add: session_ok_def)

lemma session_ok_quiet:
  assumes "session_ok st" and "grows P (bio st) (bio st')" and "\<And>e. P e \<Longrightarrow> \<not> is_sent e"
    and "brokers_ok (head_bs st')"
    and "\<And>b' c. b' \<in> set (head_bs st') \<Longrightarrow> conn b' = Some c \<Longrightarrow>
           (\<exists>b \<in> set (head_bs st). conn b = Some c) \<or> tx_selected c (trace (bio st'))"
  shows "session_ok st'"
proof -
  obtain es where es: "trace (bio st') = trace (bio st) @ es" "list_all P es"
    using assms(2) by (auto simp: grows_def)
  then have "list_all (\<lambda>e. \<not> is_sent e) es" using assms(3) by (auto simp: list_all_iff)
  then have "tx_safe [] (trace (bio st'))"
    using assms(1) tx_safe_quiet by (simp add: es session_ok_def tx_safe_append)
  moreover have "tx_selected c (trace (bio st'))"
    if "b' \<in> set (head_bs st')" and "conn b' = Some c" for b' c
    using assms(5) [OF that] assms(1) by (auto simp: es session_ok_def intro: tx_selected_append)
  ultimately show ?thesis using assms(4) by (simp add: session_ok_def)
qed

section \<open>Connecting establishes transaction mode\<close>

lemma connect_bs_selected:
  assumes ok: "bs_ok b" and none: "conn b = None" and c: "conn (fst (connect_bs E g b s)) = Some c"
  shows "tx_selected c (trace (snd (connect_bs E g b s)))"
proof -
  let ?w = "in_backoff E b s"
  let ?l = "local_amqp_load_hosts E b (snd ?w)"
  let ?b2 = "fst (snd ?l)"
  let ?d = "if amqp_connect_budget_ms g > 0
              then (fst (local_amqp_now_ms E (snd (snd ?l))) + amqp_connect_budget_ms g,
                    snd (local_amqp_now_ms E (snd (snd ?l))))
              else (0, snd (snd ?l))"
  let ?c = "connect_hosts E g (fst ?d) (nat (nhosts ?b2)) ?b2 (snd ?d)"
  have hok: "hosts_ok b" using ok by (simp add: bs_ok_def bs_core_def)
  have l: "conn ?b2 = None" "bs_core ?b2" "0 < fst ?l \<Longrightarrow> hosts ?b2 \<noteq> None"
    using load_hosts_frame [OF hok, of E "snd ?w"] load_hosts_core [of b E "snd ?w"] ok none
    by (auto simp: bs_ok_def)
  have no: "\<not> fst ?w" "0 < fst ?l"
    using c none l(1) by (auto simp: connect_bs_def Let_def case_prod_beta not_le split: if_splits)
  then have eq: "connect_bs E g b s =
      (if fst ?c then (fst (snd ?c), snd (snd ?c))
       else record_connect_failure E (fst (snd ?c)) (snd (snd ?c)))"
    using none by (simp add: connect_bs_def Let_def case_prod_beta)
  have "connect_result ?b2 (fst ?c) (fst (snd ?c))"
    using l no by (intro connect_hosts_result) simp_all
  then have suc: "fst ?c" using c eq by (auto simp: connect_result_def split: if_splits)
  from connect_hosts_handshake [OF this] obtain c' rpcs where
    c': "conn (fst (snd ?c)) = Some c'" and
    tr: "filter is_rpc (trace (snd (snd ?c))) = rpcs @ handshake c' (next_host_of (fst (snd ?c)))"
    by blast
  have "Rpc (Tx_Select c' 2) Response_Normal \<in> set (filter is_rpc (trace (snd (snd ?c))))"
    unfolding tr by (simp add: handshake_def)
  with c c' eq suc show ?thesis by (simp add: tx_selected_def)
qed

lemma connect_event_quiet: "is_connect_event e \<Longrightarrow> \<not> is_sent e"
  by (cases e) auto

lemma get_bs_session_ok:
  assumes ok: "session_ok st"
  shows "session_ok (snd (local_amqp_get_bs E g i st))"
    and "conn (fst (local_amqp_get_bs E g i st)) = Some c \<Longrightarrow>
           tx_selected c (trace (bio (snd (local_amqp_get_bs E g i st))))"
proof -
  note brokers = session_ok_brokers [OF ok]
  let ?g = "local_amqp_get_bs E g i st"
  have new: "tx_selected d (trace (bio (snd ?g)))"
    if "conn (bs_of i st) = None" and "conn (fst ?g) = Some d" for d
    using connect_bs_selected [OF bs_of_ok [OF brokers] that(1)] that(2)
    by (simp add: local_amqp_get_bs_def bs_of_def case_prod_beta)
  have sel: "(\<exists>b \<in> set (head_bs st). conn b = Some d) \<or> tx_selected d (trace (bio (snd ?g)))"
    if b: "b \<in> set (head_bs (snd ?g))" and d: "conn b = Some d" for b d
  proof (cases "broker_id b = i")
    case False
    with b others_kept_get_bs [OF brokers, of i E g] d show ?thesis by (auto simp: others_kept_def)
  next
    case True
    have b': "b = fst ?g"
      using bs_of_mem [OF get_bs_ok(1) [OF brokers] b] get_bs_bs_of [OF brokers, of i E g] True by metis
    show ?thesis
    proof (cases "conn (bs_of i st)")
      case None
      with new b' d show ?thesis by blast
    next
      case (Some e)
      have "bs_of i st \<in> set (head_bs st)"
      proof (rule ccontr)
        assume "bs_of i st \<notin> set (head_bs st)"
        then have "bs_of i st = fresh_bs i"
          by (auto simp: bs_of_def local_amqp_get_a_bs_def dest: find_key_SomeD split: option.splits)
        with Some show False by (simp add: fresh_bs_def)
      qed
      with get_bs_connected(1) [of i st E g] Some b' d show ?thesis by auto
    qed
  qed
  show A: "session_ok (snd ?g)"
    by (rule session_ok_quiet [OF ok get_bs_connect connect_event_quiet get_bs_ok(1) [OF brokers]])
       (use sel in auto)
  show "tx_selected c (trace (bio (snd ?g)))" if "conn (fst ?g) = Some c"
    using A get_bs_ok(4) [OF brokers, of E g i] that by (auto simp: session_ok_def)
qed

section \<open>Every call keeps the invariant\<close>

lemma publish_pass_session_ok:
  assumes ok: "session_ok st"
    and att: "publish_attempt E a ch once_more (fst (local_amqp_get_bs E g i st))
                (bio (snd (local_amqp_get_bs E g i st))) = Some (r, bs_of i st2, s1)"
    and st2: "st2 = (snd (local_amqp_get_bs E g i st))
      \<lparr>head_bs := put_bs (bs_of i st2) (head_bs (snd (local_amqp_get_bs E g i st))), bio := s1\<rparr>"
  shows "session_ok st2"
proof -
  let ?g = "local_amqp_get_bs E g i st"
  note brokers = session_ok_brokers [OF ok]
  note okg = get_bs_session_ok(1) [OF ok, of E g i]
  note pass = publish_pass [OF brokers att st2]
  have bio2: "bio st2 = s1" by (subst st2) simp
  have head2: "head_bs st2 = put_bs (bs_of i st2) (head_bs (snd ?g))" by (subst st2) simp
  have conns: "conn (bs_of i st2) = None \<or> conn (bs_of i st2) = conn (fst ?g)"
    using pass by (auto simp: attempt_post_def split: attempt.splits)
  have "\<exists>es. trace s1 = trace (bio (snd ?g)) @ es \<and> tx_safe (trace (bio (snd ?g))) es"
  proof (cases "conn (fst ?g)")
    case None
    then have "s1 = bio (snd ?g)" using publish_attempt_trace [OF att] by simp
    then show ?thesis by simp
  next
    case (Some c)
    then obtain es where "trace s1 = trace (bio (snd ?g)) @ es" "list_all (is_attempt_event c ch r) es"
      using publish_attempt_trace [OF att] by (auto simp: grows_def)
    with get_bs_session_ok(2) [OF ok Some] tx_safe_attempt show ?thesis by blast
  qed
  then obtain es where es: "trace s1 = trace (bio (snd ?g)) @ es"
    and safe: "tx_safe (trace (bio (snd ?g))) es" by blast
  have "tx_safe [] (trace s1)" using okg safe by (simp add: es tx_safe_append session_ok_def)
  moreover have "tx_selected c (trace s1)" if b: "b \<in> set (head_bs st2)" and c: "conn b = Some c" for b c
  proof -
    from b head2 have "b = bs_of i st2 \<or> b \<in> set (head_bs (snd ?g))"
      by (auto simp: put_bs_def dest: set_replace_by_key)
    with c conns okg get_bs_session_ok(2) [OF ok] show ?thesis
      by (auto simp: es session_ok_def intro!: tx_selected_append)
  qed
  ultimately show ?thesis using pass by (simp add: session_ok_def bio2)
qed

lemma publish_redo_session_ok:
  assumes run: "publish_redo E g a ch i once_more st = Some (v, st')" and ok: "session_ok st"
  shows "session_ok st'"
proof (cases rule: publish_redo_cases [OF run session_ok_brokers [OF ok]])
  case (1 s1)
  then show ?thesis by (rule publish_pass_session_ok [OF ok])
next
  case (2 st2 s1)
  have ok2: "session_ok st2" by (rule publish_pass_session_ok [OF ok 2(2,3)])
  show ?thesis
  proof (cases rule: publish_redo_cases [OF 2(4) session_ok_brokers [OF ok2]])
    case (1 s)
    then show ?thesis by (rule publish_pass_session_ok [OF ok2])
  qed simp
qed

lemma session_ok_bio_quiet:
  "session_ok st \<Longrightarrow> grows P (bio st) s \<Longrightarrow> (\<And>e. P e \<Longrightarrow> \<not> is_sent e) \<Longrightarrow> session_ok (st\<lparr>bio := s\<rparr>)"
  using session_ok_quiet [of st P "st\<lparr>bio := s\<rparr>"] by (auto simp: session_ok_def)

lemma publish_opt_session_ok:
  assumes "pg_amqp_publish_opt E g a ch st = Some (v, st')" and "session_ok st"
  shows "session_ok st'"
  using assms
  by (auto simp: pg_amqp_publish_opt_def split: option.splits dest: publish_redo_session_ok
      intro!: grows_steps session_ok_bio_quiet [where P = "\<lambda>e. \<not> is_sent e"])

text \<open>A broker state written back with at most the connection it had.\<close>

lemma session_ok_put:
  assumes "session_ok st" and "grows P (bio st) s" and "\<And>e. P e \<Longrightarrow> \<not> is_sent e"
    and "bs_ok b'" and "conn b' = None"
  shows "session_ok (st\<lparr>head_bs := put_bs b' (head_bs st), bio := s\<rparr>)"
proof (rule session_ok_quiet [OF assms(1), where P = P])
  show "brokers_ok (head_bs (st\<lparr>head_bs := put_bs b' (head_bs st), bio := s\<rparr>))"
    using put_bs_ok assms(1,4) by (simp add: session_ok_def)
qed (use assms in \<open>auto simp: put_bs_def dest!: set_replace_by_key\<close>)

lemma declare_session_ok:
  assumes ok: "session_ok st"
  shows "session_ok (snd (pg_amqp_exchange_declare E g a st))"
proof (cases "decl_broker_id a")
  case None
  with ok show ?thesis by (simp add: pg_amqp_exchange_declare_def)
next
  case (Some i)
  let ?g = "local_amqp_get_bs E g i st"
  note okg = get_bs_session_ok(1) [OF ok, of E g i]
  note bok = get_bs_ok(2) [OF session_ok_brokers [OF ok], of E g i]
  show ?thesis
  proof (cases "conn (fst ?g)")
    case None
    with Some okg show ?thesis by (simp add: pg_amqp_exchange_declare_def case_prod_beta)
  next
    case (Some c)
    let ?r = "do_rpc E (Exchange_Declare c 1 (declare_request a)) (bio (snd ?g))"
    let ?d = "local_amqp_disconnect_bs E (fst ?g) False (snd ?r)"
    have gr: "grows (\<lambda>e. \<not> is_sent e) (bio (snd ?g)) (snd ?r)" by (intro grows_steps) simp
    have gd: "grows (\<lambda>e. \<not> is_sent e) (bio (snd ?g)) (snd ?d)"
      by (rule grows_disconnect_hard [OF gr]) simp
    have "session_ok ((snd ?g)\<lparr>bio := snd ?r\<rparr>)"
      by (rule session_ok_bio_quiet [OF okg gr])
    moreover have "session_ok ((snd ?g)\<lparr>head_bs := put_bs (fst ?d) (head_bs (snd ?g)), bio := snd ?d\<rparr>)"
      by (rule session_ok_put [OF okg gd _ disconnect_bs_ok [OF bok]]) simp_all
    ultimately show ?thesis
      using Some \<open>decl_broker_id a = Some i\<close>
      by (simp add: pg_amqp_exchange_declare_def case_prod_beta)
  qed
qed

lemma teardown_event_quiet: "is_teardown_event e \<Longrightarrow> \<not> is_sent e"
  by (cases e) auto

lemma disconnect_reset_ok:
  assumes "bs_ok b" and "conn b = None"
  shows "bs_ok (local_amqp_free_hosts
    (b\<lparr>inerror := False, idx := 0, consecutive_failures := 0, last_failed_connect := 0\<rparr>))"
  using assms
  by (auto simp: local_amqp_free_hosts_def bs_ok_def bs_core_def hosts_ok_def split: option.splits)

lemma get_a_bs_session_ok:
  assumes "session_ok st"
  shows "session_ok (st\<lparr>head_bs := snd (local_amqp_get_a_bs i (head_bs st))\<rparr>)"
proof (rule session_ok_quiet [OF assms grows_same, where P = "\<lambda>_. False"])
  show "brokers_ok (head_bs (st\<lparr>head_bs := snd (local_amqp_get_a_bs i (head_bs st))\<rparr>))"
    using get_a_bs_ok assms by (simp add: session_ok_def)
qed (auto simp: local_amqp_get_a_bs_def fresh_bs_def split: option.splits)

lemma disconnect_session_ok:
  assumes ok: "session_ok st"
  shows "session_ok (pg_amqp_disconnect E arg st)"
proof (cases arg)
  case (Some i)
  let ?st1 = "st\<lparr>head_bs := snd (local_amqp_get_a_bs i (head_bs st))\<rparr>"
  let ?d = "local_amqp_disconnect_bs E (bs_of i st) True (bio st)"
  let ?b = "local_amqp_free_hosts (fst ?d\<lparr>inerror := False, idx := 0, consecutive_failures := 0,
    last_failed_connect := 0\<rparr>)"
  have "bs_ok (fst ?d)"
    using bs_of_ok [OF session_ok_brokers [OF ok]] by (rule disconnect_bs_ok)
  then have b: "bs_ok ?b" by (rule disconnect_reset_ok) simp
  have none: "conn ?b = None" by (simp add: local_amqp_free_hosts_def split: option.split)
  have "session_ok (?st1\<lparr>head_bs := put_bs ?b (head_bs ?st1), bio := snd ?d\<rparr>)"
    by (rule session_ok_put [OF get_a_bs_session_ok [OF ok] _ teardown_event_quiet b none])
       (simp_all add: disconnect_bs_grows)
  with Some show ?thesis
    by (simp add: pg_amqp_disconnect_def local_amqp_disconnect_def bs_of_def case_prod_beta Let_def)
qed (use ok in \<open>simp add: pg_amqp_disconnect_def\<close>)


section \<open>The callbacks keep it too\<close>

text \<open>Every loop body over the broker list publishes nothing.\<close>

locale quiet_callback = bs_callback +
  assumes quiet: "allowed e \<Longrightarrow> \<not> is_sent e"
begin

lemma loop_session_ok:
  assumes run: "for_each_bs f (head_bs st) (bio st) = Some (l, s)" and ok: "session_ok st"
  shows "session_ok (st\<lparr>head_bs := l, bio := s\<rparr>)"
proof (rule session_ok_quiet [OF ok, where P = allowed])
  have oks: "\<forall>b \<in> set (head_bs st). bs_ok b"
    using ok by (simp add: session_ok_def brokers_ok_def)
  show "grows allowed (bio st) (bio (st\<lparr>head_bs := l, bio := s\<rparr>))"
    using loop_grows [OF run] ok by (simp add: session_ok_def)
  show "brokers_ok (head_bs (st\<lparr>head_bs := l, bio := s\<rparr>))"
    using loop_brokers_ok [OF run] ok by (simp add: session_ok_def)
  show "(\<exists>b \<in> set (head_bs st). conn b = Some c) \<or>
      tx_selected c (trace (bio (st\<lparr>head_bs := l, bio := s\<rparr>)))"
    if "b' \<in> set (head_bs (st\<lparr>head_bs := l, bio := s\<rparr>))" and "conn b' = Some c" for b' c
    using loop_conn [OF run oks] that by fastforce
qed (rule quiet)

end

interpretation commit_quiet: quiet_callback "commit_bs E g" clean is_commit_event
  for E :: "'w rabbitmq" and g :: gucs
  by unfold_locales (auto elim: is_commit_event.elims)

interpretation abort_quiet: quiet_callback "\<lambda>b s. Some (abort_bs E g b s)" clean is_abort_event
  for E :: "'w rabbitmq" and g :: gucs
  by unfold_locales (auto elim: is_abort_event.elims)

interpretation subxact_quiet: quiet_callback "\<lambda>b s. Some (subxact_bs b s)"
  poisoned_if_buffered is_subxact_event
  by unfold_locales (auto elim: is_subxact_event.elims)

interpretation exit_quiet: quiet_callback "\<lambda>b s. Some (local_amqp_disconnect_bs E b True s)"
  disconnected is_teardown_event
  for E :: "'w rabbitmq"
  by unfold_locales (rule teardown_event_quiet)

lemma phase2_session_ok:
  assumes "amqp_local_phase2 E g ev st = Some (r, st')" and "session_ok st"
  shows "session_ok st'"
  using assms
  by (cases ev)
     (auto simp: amqp_local_phase2_def commit_all_def abort_all_def
       dest: commit_quiet.loop_session_ok abort_quiet.loop_session_ok elim!: bind_SomeE)

lemma subxact_session_ok:
  assumes "amqp_local_subxact ev st = Some st'" and "session_ok st"
  shows "session_ok st'"
  using assms
  by (auto simp: amqp_local_subxact_def dest: subxact_quiet.loop_session_ok
      split: if_splits elim!: bind_SomeE)

lemma atexit_session_ok:
  assumes "amqp_atexit E st = Some st'" and "session_ok st"
  shows "session_ok st'"
  using assms by (auto simp: amqp_atexit_def dest: exit_quiet.loop_session_ok elim!: bind_SomeE)

section \<open>The backend as a state machine\<close>

datatype pg_call =
    Call_Publish publish_args
  | Call_Autonomous_Publish publish_args
  | Call_Exchange_Declare declare_args
  | Call_Disconnect "int option"
  | Xact_Callback xact_event
  | Subxact_Callback subxact_event
  | Exit_Callback

text \<open>
  One step: a call runs to its end (a call that never returns makes no step), or the world moves
  on by itself.  The tunables are session settings, so every step has its own.
\<close>

inductive pg_step :: "'w rabbitmq \<Rightarrow> pg_call option \<Rightarrow> 'w backend \<Rightarrow> 'w backend \<Rightarrow> bool"
  for E :: "'w rabbitmq" where
  step_publish:
    "pg_amqp_publish E g a st = Some (v, st') \<Longrightarrow> pg_step E (Some (Call_Publish a)) st st'"
| step_autonomous:
    "pg_amqp_autonomous_publish E g a st = Some (v, st') \<Longrightarrow>
       pg_step E (Some (Call_Autonomous_Publish a)) st st'"
| step_declare:
    "pg_amqp_exchange_declare E g d st = (v, st') \<Longrightarrow>
       pg_step E (Some (Call_Exchange_Declare d)) st st'"
| step_disconnect:
    "pg_step E (Some (Call_Disconnect i)) st (pg_amqp_disconnect E i st)"
| step_xact:
    "amqp_local_phase2 E g ev st = Some (r, st') \<Longrightarrow> pg_step E (Some (Xact_Callback ev)) st st'"
| step_subxact:
    "amqp_local_subxact sev st = Some st' \<Longrightarrow> pg_step E (Some (Subxact_Callback sev)) st st'"
| step_exit:
    "amqp_atexit E st = Some st' \<Longrightarrow> pg_step E (Some Exit_Callback) st st'"
| step_world:
    "pg_step E None st (st\<lparr>bio := (bio st)\<lparr>world := w\<rparr>\<rparr>)"

inductive_cases pg_publishE: "pg_step E (Some (Call_Publish a)) st st'"
inductive_cases pg_xactE: "pg_step E (Some (Xact_Callback ev)) st st'"
inductive_cases pg_subxactE: "pg_step E (Some (Subxact_Callback ev)) st st'"
inductive_simps pg_disconnect_step: "pg_step E (Some (Call_Disconnect i)) st st'"

text \<open>\<open>HEAD_BS\<close> is NULL when the library is loaded.\<close>

definition pg_init :: "'w \<Rightarrow> 'w backend" where
  "pg_init w = \<lparr>head_bs = [], bio = \<lparr>world = w, trace = []\<rparr>\<rparr>"

inductive pg_reachable :: "'w rabbitmq \<Rightarrow> 'w backend \<Rightarrow> bool"
  for E :: "'w rabbitmq" where
  reach_init: "pg_reachable E (pg_init w)"
| reach_step: "pg_reachable E st \<Longrightarrow> pg_step E c st st' \<Longrightarrow> pg_reachable E st'"

lemma pg_step_session_ok: "pg_step E c st st' \<Longrightarrow> session_ok st \<Longrightarrow> session_ok st'"
proof (induction rule: pg_step.induct)
  case (step_declare g d st v st')
  with declare_session_ok [of st E g d] show ?case by simp
next
  case (step_world st w)
  then show ?case by (simp add: session_ok_def)
qed (auto simp: pg_amqp_publish_def pg_amqp_autonomous_publish_def disconnect_session_ok
    dest: publish_opt_session_ok phase2_session_ok subxact_session_ok atexit_session_ok)

lemma pg_reachable_session_ok: "pg_reachable E st \<Longrightarrow> session_ok st"
proof (induction rule: pg_reachable.induct)
  case (reach_init w)
  then show ?case by (simp add: session_ok_def pg_init_def brokers_ok_def)
qed (rule pg_step_session_ok)

lemma pg_reachable_brokers_ok: "pg_reachable E st \<Longrightarrow> brokers_ok (head_bs st)"
  by (rule session_ok_brokers [OF pg_reachable_session_ok])

end
