(* ===== verification/Pg_Demo.thy ===== *)
theory Pg_Demo
  imports Pg_Steps
begin

text \<open>
  A concrete outside world on which the properties of the extension are exercised: a broker that
  accepts everything until it is broken, with a queue of frames it has already pushed.  Nothing
  here models code; it shows that the hypotheses of the properties can hold together.
\<close>

record demo_world =
  next_handle :: nat
  inbox :: "mq_frame list"
  clock :: int
  broken :: bool

definition demo_row :: broker_row where
  "demo_row =
     \<lparr>row_host = Some ''mq1'', row_port = Some 5672, row_vhost = None, row_user = None,
      row_pass = None, row_ssl = None, row_ssl_verify = None, row_ssl_cacert = None,
      row_ssl_cert = None, row_ssl_key = None\<rparr>"

definition demo_poll :: "conn_handle \<Rightarrow> demo_world \<Rightarrow> poll_result \<times> demo_world" where
  "demo_poll c w =
     (case inbox w of [] \<Rightarrow> (Poll_Timeout, w) | f # fs \<Rightarrow> (Poll_Frame f, w\<lparr>inbox := fs\<rparr>))"

definition demo_connection :: "demo_world \<Rightarrow> conn_handle option \<times> demo_world" where
  "demo_connection w = (Some (next_handle w), w\<lparr>next_handle := next_handle w + 1\<rparr>)"

definition demo_ok :: "conn_handle \<Rightarrow> demo_world \<Rightarrow> bool \<times> demo_world" where
  "demo_ok c w = (True, w)"

definition demo_open ::
  "conn_handle \<Rightarrow> string \<Rightarrow> int \<Rightarrow> timeval \<Rightarrow> demo_world \<Rightarrow> bool \<times> demo_world" where
  "demo_open c h p t w = (\<not> broken w, w)"

definition demo_sockfd :: "conn_handle \<Rightarrow> demo_world \<Rightarrow> int \<times> demo_world" where
  "demo_sockfd c w = (7, w)"

definition demo_rpc :: "mq_call \<Rightarrow> demo_world \<Rightarrow> rpc_reply \<times> demo_world" where
  "demo_rpc c w =
     (\<lparr>reply_type = (if broken w then Response_Library_Exception else Response_Normal),
       library_error = 0\<rparr>, w)"

definition demo_send ::
  "conn_handle \<Rightarrow> nat \<Rightarrow> publish_request \<Rightarrow> demo_world \<Rightarrow> int \<times> demo_world" where
  "demo_send c ch q w = (if broken w then -9 else 0, w)"

definition demo_void :: "mq_call \<Rightarrow> demo_world \<Rightarrow> demo_world" where
  "demo_void c w = w"

definition demo_spi_connect :: "demo_world \<Rightarrow> bool \<times> demo_world" where
  "demo_spi_connect w = (True, w)"

definition demo_select :: "int \<Rightarrow> demo_world \<Rightarrow> broker_row list option \<times> demo_world" where
  "demo_select i w = (Some [demo_row, demo_row\<lparr>row_host := Some ''mq2''\<rparr>], w)"

definition demo_time :: "demo_world \<Rightarrow> int \<times> demo_world" where
  "demo_time w = (clock w, w)"

definition demo_timeofday :: "demo_world \<Rightarrow> timeval \<times> demo_world" where
  "demo_timeofday w = ((clock w, 0), w)"

definition demo :: "demo_world rabbitmq" where
  "demo =
     \<lparr>new_connection = demo_connection, tcp_socket_new = demo_ok, ssl_socket_new = demo_ok,
      socket_open_noblock = demo_open, get_sockfd = demo_sockfd, rpc_call = demo_rpc,
      basic_publish = demo_send, wait_frame_noblock = demo_poll, void_call = demo_void,
      spi_connect = demo_spi_connect, spi_select = demo_select, time_now = demo_time,
      gettimeofday = demo_timeofday, my_proc_pid = 4711,
      undefined_shift = (\<lambda>x n. 0)\<rparr>"

definition demo_up :: demo_world where
  "demo_up = \<lparr>next_handle = 5, inbox = [], clock = 100, broken = False\<rparr>"

definition demo_args :: publish_args where
  "demo_args =
     \<lparr>arg_broker_id = Some 1, arg_exchange = Some ''orders'', arg_routing_key = Some ''new'',
      arg_body = Some ''{}'', arg_delivery_mode = Some 2, arg_content_type = None,
      arg_reply_to = None, arg_correlation_id = None, arg_mandatory = None, arg_n = 9\<rparr>"

definition demo_declare :: declare_args where
  "demo_declare =
     \<lparr>decl_broker_id = Some 1, decl_exchange = Some ''orders'', decl_type = Some ''fanout'',
      decl_passive = None, decl_durable = None, decl_auto_delete = None\<rparr>"

definition demo_host :: "string \<Rightarrow> broker_host" where
  "demo_host hn =
     \<lparr>host = hn, port = 5672, vhost = ''/'', user = ''guest'', pass = ''guest'',
      use_ssl = False, ssl_verify = True, ssl_cacert = None, ssl_cert = None, ssl_key = None\<rparr>"

text \<open>Broker 1, connected to its first host with \<open>n\<close> messages in the AMQP transaction.\<close>

definition demo_bs :: "int \<Rightarrow> bool \<Rightarrow> brokerstate" where
  "demo_bs n err =
     \<lparr>broker_id = 1, conn = Some 5, sockfd = 7, uncommitted = n, inerror = err, blocked = False,
      idx = 0, consecutive_failures = 0, last_failed_connect = 0,
      hosts = Some [demo_host ''mq1'', demo_host ''mq2''], nhosts = 2\<rparr>"

definition demo_request :: publish_request where
  "demo_request =
     \<lparr>exchange = ''orders'', routing_key = ''new'', mandatory = False, immediate = False,
      properties = Some \<lparr>props_flags = 4096, delivery_mode = 2, content_type = [], reply_to = [],
                         correlation_id = []\<rparr>,
      body = ''{}''\<rparr>"

definition demo_connect_trace :: "event list" where
  "demo_connect_trace =
     [Call Spi_Connect, Call (Spi_Execute 1), Call Spi_Finish,
      Call New_Connection, Call (Tcp_Socket_New 5),
      Call (Socket_Open 5 ''mq1'' 5672 (2, 0)),
      Call (Setsockopt 7 So_Keepalive (Opt_Int 1)),
      Call (Setsockopt 7 Tcp_Nodelay (Opt_Int 1)),
      Call (Setsockopt 7 Tcp_Keepidle (Opt_Int 30)),
      Call (Setsockopt 7 Tcp_Keepintvl (Opt_Int 10)),
      Call (Setsockopt 7 Tcp_Keepcnt (Opt_Int 3)),
      Call (Setsockopt 7 So_Rcvtimeo (Opt_Timeval (2, 0))),
      Call (Setsockopt 7 So_Sndtimeo (Opt_Timeval (2, 0))),
      Call (Set_Rpc_Timeout 5 (2, 0)),
      Rpc (Login 5 ''/'' 0 131072 0 client_properties ''guest'' ''guest'') Response_Normal,
      Rpc (Channel_Open 5 1) Response_Normal,
      Rpc (Channel_Open 5 2) Response_Normal,
      Rpc (Tx_Select 5 2) Response_Normal,
      Call (Setsockopt 7 So_Rcvtimeo (Opt_Timeval (30, 0))),
      Call (Setsockopt 7 So_Sndtimeo (Opt_Timeval (30, 0))),
      Call (Set_Rpc_Timeout 5 (30, 0))]"

definition demo_publish_trace :: "event list" where
  "demo_publish_trace =
     [Polled (Wait_Frame_Noblock 5) Poll_Timeout, Sent (Basic_Publish 5 2 demo_request) 0]"

definition demo_world1 :: demo_world where
  "demo_world1 = \<lparr>next_handle = 6, inbox = [], clock = 100, broken = False\<rparr>"

text \<open>One message buffered; one message buffered in a poisoned transaction; the broker gone.\<close>

definition demo_buffered :: "demo_world backend" where
  "demo_buffered =
     \<lparr>head_bs = [demo_bs 1 False],
      bio = \<lparr>world = demo_world1, trace = demo_connect_trace @ demo_publish_trace\<rparr>\<rparr>"

definition demo_poisoned :: "demo_world backend" where
  "demo_poisoned =
     \<lparr>head_bs = [demo_bs 1 True],
      bio = \<lparr>world = demo_world1,
             trace = demo_connect_trace @ demo_publish_trace @ [Warn (W_Savepoint 1 1)]\<rparr>\<rparr>"

definition demo_broken :: "demo_world backend" where
  "demo_broken =
     demo_buffered\<lparr>bio := (bio demo_buffered)\<lparr>world := demo_world1\<lparr>broken := True\<rparr>\<rparr>\<rparr>"

section \<open>Running the model on it\<close>

lemma demo_fields:
  "new_connection demo = demo_connection" "tcp_socket_new demo = demo_ok"
  "ssl_socket_new demo = demo_ok" "socket_open_noblock demo = demo_open"
  "get_sockfd demo = demo_sockfd" "rpc_call demo = demo_rpc"
  "basic_publish demo = demo_send" "wait_frame_noblock demo = demo_poll"
  "void_call demo = demo_void" "spi_connect demo = demo_spi_connect"
  "spi_select demo = demo_select" "time_now demo = demo_time"
  "gettimeofday demo = demo_timeofday" "my_proc_pid demo = 4711" "undefined_shift demo = (\<lambda>x n. 0)"
  by (simp_all add: demo_def)

lemmas demo_funs =
  demo_fields demo_connection_def demo_ok_def demo_open_def demo_sockfd_def demo_rpc_def
  demo_send_def demo_poll_def demo_void_def demo_spi_connect_def demo_select_def demo_time_def
  demo_timeofday_def demo_row_def demo_up_def demo_world1_def demo_args_def demo_declare_def

lemmas demo_states =
  demo_host_def demo_bs_def demo_request_def demo_connect_trace_def demo_publish_trace_def
  demo_buffered_def demo_poisoned_def demo_broken_def pg_init_def default_gucs_def

lemmas run_io =
  do_void_def do_rpc_def do_query_def do_read_def do_poll_def do_publish_def log_event_def warn_def

lemma connect_two: "connect_hosts E g d 2 b s = connect_hosts E g d (Suc (Suc 0)) b s"
  by (simp only: numeral_2_eq_2)

lemmas run_connect =
  local_amqp_get_bs_def local_amqp_get_a_bs_def connect_bs_def in_backoff_def
  local_amqp_load_hosts_def load_host_def load_rows.simps or_default_def pid_mod_def
  connect_hosts.simps connect_two try_host_def local_amqp_open_socket_def
  local_amqp_set_keepalive_def local_amqp_set_timeout_def timeval_of_ms_def
  local_amqp_login_def put_bs_def replace_by_key_def fresh_bs_def ssl_configure_def

lemmas run_publish =
  pg_amqp_publish_def pg_amqp_publish_opt_def body_too_large_def publish_redo.simps
  publish_attempt_def local_amqp_drain_returns_def drain_loop.simps drain_frame_def
  send_message_def build_request_def set_delivery_mode_def set_text_properties_def
  no_properties_def add_flag_def arg_is_mandatory_def retry_or_fail_def
  AMQP_BASIC_DELIVERY_MODE_FLAG_def

lemmas run_demo = demo_funs demo_states run_io run_connect run_publish Let_def int32_def

lemma demo_polls_run_dry: "polls_run_dry demo (\<lambda>w. length (inbox w))"
  by (auto simp: polls_run_dry_def demo_def demo_poll_def demo_void_def split: list.splits)

lemma demo_publish:
  "pg_amqp_publish demo default_gucs demo_args (pg_init demo_up) = Some (True, demo_buffered)"
  by (simp add: run_demo)

lemma demo_savepoint: "amqp_local_subxact Subxact_Abort demo_buffered = Some demo_poisoned"
  by (simp add: amqp_local_subxact_def subxact_bs_def demo_states warn_def log_event_def)

lemma demo_buffered_reachable: "pg_reachable demo demo_buffered"
  by (rule reach_step [OF reach_init step_publish [OF demo_publish]])

lemma demo_poisoned_reachable: "pg_reachable demo demo_poisoned"
  by (rule reach_step [OF demo_buffered_reachable step_subxact [OF demo_savepoint]])

lemma demo_broken_reachable: "pg_reachable demo demo_broken"
  unfolding demo_broken_def by (rule reach_step [OF demo_buffered_reachable step_world])

end
