(* ===== verification/Pg_Counts.thy ===== *)
theory Pg_Counts
  imports Pg_Steps
begin

text \<open>
  The two counters of a broker state of \<open>src/src/pg_amqp.c\<close>, \<open>uncommitted\<close> and
  \<open>consecutive_failures\<close>, are C \<open>int\<close>s and wrap around.  How far a call or a callback can move them, and
  so what they are worth after a given number of steps of the backend.
\<close>

section \<open>Counters within bounds\<close>

definition within_counts :: "int \<Rightarrow> int \<Rightarrow> brokerstate \<Rightarrow> bool" where
  "within_counts p q b \<longleftrightarrow>
     0 \<le> uncommitted b \<and> uncommitted b \<le> p \<and>
     0 \<le> consecutive_failures b \<and> consecutive_failures b \<le> q \<and>
     (last_failed_connect b \<noteq> 0 \<longrightarrow> 0 < consecutive_failures b)"

definition counts_ok :: "int \<Rightarrow> int \<Rightarrow> brokerstate list \<Rightarrow> bool" where
  "counts_ok p q l \<longleftrightarrow> (\<forall>b \<in> set l. within_counts p q b)"

lemma within_counts_mono:
  "within_counts p q b \<Longrightarrow> p \<le> p' \<Longrightarrow> q \<le> q' \<Longrightarrow> within_counts p' q' b"
  by (auto simp: within_counts_def)

lemma counts_ok_mono: "counts_ok p q l \<Longrightarrow> p \<le> p' \<Longrightarrow> q \<le> q' \<Longrightarrow> counts_ok p' q' l"
  by (auto simp: counts_ok_def intro: within_counts_mono)

lemma within_fresh: "0 \<le> p \<Longrightarrow> 0 \<le> q \<Longrightarrow> within_counts p q (fresh_bs i)"
  by (simp add: within_counts_def fresh_bs_def)

lemma counts_ok_get_a_bs:
  "counts_ok p q l \<Longrightarrow> 0 \<le> p \<Longrightarrow> 0 \<le> q \<Longrightarrow> counts_ok p q (snd (local_amqp_get_a_bs i l))"
  by (auto simp: local_amqp_get_a_bs_def counts_ok_def within_fresh split: option.split)

lemma counts_ok_bs_of:
  "counts_ok p q (head_bs st) \<Longrightarrow> 0 \<le> p \<Longrightarrow> 0 \<le> q \<Longrightarrow> within_counts p q (bs_of i st)"
  using counts_ok_get_a_bs [of p q "head_bs st" i] get_a_bs_mem [of i "head_bs st"]
  by (simp add: bs_of_def counts_ok_def)

lemma counts_ok_put: "counts_ok p q l \<Longrightarrow> within_counts p q b \<Longrightarrow> counts_ok p q (put_bs b l)"
  by (auto simp: counts_ok_def put_bs_def dest: set_replace_by_key)

lemma counts_ok_others:
  assumes "counts_ok p q (head_bs st)" and "others_kept i st st'" and "brokers_ok (head_bs st')"
    and "within_counts p q (bs_of i st')"
  shows "counts_ok p q (head_bs st')"
proof -
  have "within_counts p q b" if "b \<in> set (head_bs st')" for b
    using assms bs_of_mem [OF assms(3) that] that
    by (cases "broker_id b = i") (auto simp: others_kept_def counts_ok_def)
  then show ?thesis by (simp add: counts_ok_def)
qed

section \<open>What the calls do to them\<close>

lemma within_disconnect:
  "bs_ok b \<Longrightarrow> within_counts p q b \<Longrightarrow> within_counts p q (fst (local_amqp_disconnect_bs E b g s))"
  by (auto simp: within_counts_def disconnect_bs_uncommitted)

lemma within_connect:
  assumes "bs_ok b" and "within_counts p q b" and "q < 2 ^ 31 - 1"
  shows "within_counts p (q + 1) (fst (connect_bs E g b s))"
  using connect_bs_failures [OF assms(1), of E g s] assms(2,3)
    int32_Suc [OF bs_ok_int32(2) [OF assms(1)]]
  by (auto simp: within_counts_def failures_after_def connect_bs_uncommitted [OF assms(1)])

lemma within_get_bs:
  assumes ok: "brokers_ok (head_bs st)" and "counts_ok p q (head_bs st)"
    and "0 \<le> p" and "0 \<le> q" and "q < 2 ^ 31 - 1"
  shows "within_counts p (q + 1) (fst (local_amqp_get_bs E g i st))"
    and "counts_ok p (q + 1) (head_bs (snd (local_amqp_get_bs E g i st)))"
proof -
  show w: "within_counts p (q + 1) (fst (local_amqp_get_bs E g i st))"
    using within_connect [OF bs_of_ok [OF ok] counts_ok_bs_of [OF assms(2-4)] assms(5)]
    by (simp add: local_amqp_get_bs_def bs_of_def case_prod_beta)
  show "counts_ok p (q + 1) (head_bs (snd (local_amqp_get_bs E g i st)))"
    by (rule counts_ok_others [OF _ others_kept_get_bs [OF ok] get_bs_ok(1) [OF ok]])
       (use assms(2) w in \<open>simp_all add: get_bs_bs_of [OF ok] counts_ok_mono\<close>)
qed

lemma within_attempt:
  assumes "within_counts p q b" and "bs_ok b" and "attempt_post ch once_more b r b'"
    and "0 \<le> p" and "p < 2 ^ 31 - 1"
  shows "within_counts (case r of Redo \<Rightarrow> p | Return v \<Rightarrow> p + 1) q b'"
  using assms int32_Suc [OF bs_ok_int32(1) [OF assms(2)]]
  by (auto simp: within_counts_def attempt_post_def split: attempt.splits)

lemma publish_pass_counts:
  assumes ok: "brokers_ok (head_bs st)" and counts: "counts_ok p q (head_bs st)"
    and bounds: "0 \<le> p" "p < 2 ^ 31 - 1" "0 \<le> q" "q < 2 ^ 31 - 1"
    and att: "publish_attempt E a ch once_more (fst (local_amqp_get_bs E g i st))
                (bio (snd (local_amqp_get_bs E g i st))) = Some (r, bs_of i st2, s1)"
    and st2: "st2 = (snd (local_amqp_get_bs E g i st))
      \<lparr>head_bs := put_bs (bs_of i st2) (head_bs (snd (local_amqp_get_bs E g i st))), bio := s1\<rparr>"
  shows "counts_ok (case r of Redo \<Rightarrow> p | Return v \<Rightarrow> p + 1) (q + 1) (head_bs st2)"
proof -
  note pass = publish_pass [OF ok att st2]
  have "within_counts (case r of Redo \<Rightarrow> p | Return v \<Rightarrow> p + 1) (q + 1) (bs_of i st2)"
    by (rule within_attempt [OF within_get_bs(1) [OF ok counts] get_bs_ok(2) [OF ok]])
       (use pass bounds in auto)
  moreover have "counts_ok (case r of Redo \<Rightarrow> p | Return v \<Rightarrow> p + 1) (q + 1) (head_bs st)"
    by (rule counts_ok_mono [OF counts]) (simp_all split: attempt.split)
  ultimately show ?thesis using pass counts_ok_others by blast
qed

lemma publish_redo_counts:
  assumes run: "publish_redo E g a ch i once_more st = Some (v, st')"
    and ok: "brokers_ok (head_bs st)" and counts: "counts_ok p q (head_bs st)"
    and bounds: "0 \<le> p" "p < 2 ^ 31 - 1" "0 \<le> q" "q + 1 < 2 ^ 31 - 1"
  shows "counts_ok (p + 1) (q + 2) (head_bs st')"
proof (cases rule: publish_redo_cases [OF run ok])
  case (1 s1)
  have "counts_ok (p + 1) (q + 1) (head_bs st')"
    using publish_pass_counts [OF ok counts _ _ _ _ 1] bounds by simp
  then show ?thesis by (rule counts_ok_mono) simp_all
next
  case (2 st2 s1)
  have ok2: "brokers_ok (head_bs st2)" using publish_pass [OF ok 2(2,3)] by simp
  have counts2: "counts_ok p (q + 1) (head_bs st2)"
    using publish_pass_counts [OF ok counts _ _ _ _ 2(2,3)] bounds by simp
  show ?thesis
  proof (cases rule: publish_redo_cases [OF 2(4) ok2])
    case (1 s)
    have "counts_ok (p + 1) (q + 1 + 1) (head_bs st')"
      using publish_pass_counts [OF ok2 counts2 _ _ _ _ 1] bounds by simp
    then show ?thesis by (rule counts_ok_mono) simp_all
  qed simp
qed

lemma publish_opt_counts:
  assumes "pg_amqp_publish_opt E g a ch st = Some (v, st')"
    and "brokers_ok (head_bs st)" and "counts_ok p q (head_bs st)"
    and "0 \<le> p" "p < 2 ^ 31 - 1" "0 \<le> q" "q + 1 < 2 ^ 31 - 1"
  shows "counts_ok (p + 1) (q + 2) (head_bs st')"
  using assms
  by (auto simp: pg_amqp_publish_opt_def split: option.splits
      dest: publish_redo_counts counts_ok_mono [where p' = "p + 1" and q' = "q + 2"])

lemma declare_counts:
  assumes ok: "brokers_ok (head_bs st)" and counts: "counts_ok p q (head_bs st)"
    and bounds: "0 \<le> p" "0 \<le> q" "q < 2 ^ 31 - 1"
  shows "counts_ok p (q + 1) (head_bs (snd (pg_amqp_exchange_declare E g a st)))"
proof (cases "decl_broker_id a")
  case None
  with counts show ?thesis by (simp add: pg_amqp_exchange_declare_def counts_ok_mono)
next
  case (Some i)
  note get = within_get_bs [OF ok counts bounds, of E g i]
  note bok = get_bs_ok(2) [OF ok, of E g i]
  with get Some show ?thesis
    by (auto simp: pg_amqp_exchange_declare_def case_prod_beta
        intro!: counts_ok_put within_disconnect split: option.split)
qed

lemma disconnect_counts:
  assumes ok: "brokers_ok (head_bs st)" and counts: "counts_ok p q (head_bs st)"
    and bounds: "0 \<le> p" "0 \<le> q"
  shows "counts_ok p q (head_bs (pg_amqp_disconnect E arg st))"
proof (cases arg)
  case (Some i)
  let ?d = "local_amqp_disconnect_bs E (bs_of i st) True (bio st)"
  have "uncommitted (fst ?d) = 0" by (rule disconnect_bs_uncommitted [OF bs_of_ok [OF ok]])
  with Some bounds counts_ok_get_a_bs [OF counts bounds, of i] show ?thesis
    by (auto simp: pg_amqp_disconnect_def local_amqp_disconnect_def bs_of_def case_prod_beta Let_def
        local_amqp_free_hosts_def within_counts_def intro!: counts_ok_put split: option.splits)
qed (use counts in \<open>simp add: pg_amqp_disconnect_def\<close>)

section \<open>What the callbacks do to them\<close>

text \<open>A loop body that empties the buffer or leaves it alone, and leaves the failure record alone.\<close>

locale counting_callback = bs_callback +
  assumes counters: "f b s = Some (b', s') \<Longrightarrow> bs_ok b \<Longrightarrow>
    (uncommitted b' = 0 \<or> uncommitted b' = uncommitted b) \<and>
    consecutive_failures b' = consecutive_failures b \<and>
    last_failed_connect b' = last_failed_connect b"
begin

lemma step_counts:
  "f b s = Some (b', s') \<Longrightarrow> bs_ok b \<Longrightarrow> within_counts p q b \<Longrightarrow> within_counts p q b'"
  using counters [of b s b' s'] by (auto simp: within_counts_def)

lemma loop_counts:
  "for_each_bs f l s = Some (l', s') \<Longrightarrow> \<forall>b \<in> set l. bs_ok b \<Longrightarrow> counts_ok p q l \<Longrightarrow>
     counts_ok p q l'"
  by (induction l arbitrary: s l')
     (auto simp: counts_ok_def dest: step_counts elim!: bind_SomeE)

end

lemma flush_bs_counters:
  assumes "flush_bs E g c b s = Some (b', s')"
  shows "uncommitted b' = 0 \<and> consecutive_failures b' = consecutive_failures b \<and>
    last_failed_connect b' = last_failed_connect b"
  by (rule flush_bs_cases [OF assms], case_tac "reply_type r = Response_Normal") auto

lemma commit_bs_counters:
  assumes "commit_bs E g b s = Some (b', s')" and "bs_ok b"
  shows "(uncommitted b' = 0 \<or> uncommitted b' = uncommitted b) \<and>
    consecutive_failures b' = consecutive_failures b \<and>
    last_failed_connect b' = last_failed_connect b"
proof (cases rule: commit_bs_cases [OF assms(2)])
  case 1
  with assms show ?thesis by (auto simp: commit_bs_idle disconnect_bs_uncommitted split: if_splits)
next
  case 2
  with assms show ?thesis by (auto simp: commit_bs_discard Let_def)
next
  case (3 c)
  with assms(1) have "flush_bs E g c b s = Some (b', s')" by (simp add: commit_bs_flush)
  from flush_bs_counters [OF this] show ?thesis by simp
next
  case (4 c)
  with assms show ?thesis by (auto simp: commit_bs_wrapped Let_def disconnect_bs_uncommitted)
qed

lemma abort_bs_counters:
  assumes "bs_ok b"
  shows "(uncommitted (fst (abort_bs E g b s)) = 0 \<or>
      uncommitted (fst (abort_bs E g b s)) = uncommitted b) \<and>
    consecutive_failures (fst (abort_bs E g b s)) = consecutive_failures b \<and>
    last_failed_connect (fst (abort_bs E g b s)) = last_failed_connect b"
  using assms disconnect_bs_uncommitted [OF assms]
  by (auto simp: abort_bs_def rollback_bs_def Let_def case_prod_beta split: option.split)

interpretation commit_counts: counting_callback "commit_bs E g" clean is_commit_event
  for E :: "'w rabbitmq" and g :: gucs
  by unfold_locales (rule commit_bs_counters)

interpretation abort_counts: counting_callback "\<lambda>b s. Some (abort_bs E g b s)" clean is_abort_event
  for E :: "'w rabbitmq" and g :: gucs
  by unfold_locales (metis abort_bs_counters fst_conv option.inject)

interpretation subxact_counts: counting_callback "\<lambda>b s. Some (subxact_bs b s)"
  poisoned_if_buffered is_subxact_event
  by unfold_locales (auto simp: subxact_bs_def split: if_splits)

interpretation exit_counts: counting_callback "\<lambda>b s. Some (local_amqp_disconnect_bs E b True s)"
  disconnected is_teardown_event
  for E :: "'w rabbitmq"
  by unfold_locales
     (metis disconnect_bs_fields(5,6) disconnect_bs_uncommitted fst_conv option.inject)

lemmas callback_counts =
  commit_counts.loop_counts abort_counts.loop_counts subxact_counts.loop_counts
  exit_counts.loop_counts

lemma phase2_counts:
  assumes "amqp_local_phase2 E g ev st = Some (r, st')" and "\<forall>b \<in> set (head_bs st). bs_ok b"
    and "counts_ok p q (head_bs st)"
  shows "counts_ok p q (head_bs st')"
  using assms
  by (cases ev)
     (auto simp: amqp_local_phase2_def commit_all_def abort_all_def
       dest: callback_counts elim!: bind_SomeE)

lemma subxact_counts_ok:
  assumes "amqp_local_subxact ev st = Some st'" and "\<forall>b \<in> set (head_bs st). bs_ok b"
    and "counts_ok p q (head_bs st)"
  shows "counts_ok p q (head_bs st')"
  using assms
  by (auto simp: amqp_local_subxact_def dest: callback_counts split: if_splits elim!: bind_SomeE)

lemma atexit_counts:
  assumes "amqp_atexit E st = Some st'" and "\<forall>b \<in> set (head_bs st). bs_ok b"
    and "counts_ok p q (head_bs st)"
  shows "counts_ok p q (head_bs st')"
  using assms by (auto simp: amqp_atexit_def dest: callback_counts elim!: bind_SomeE)

section \<open>The counters after so many steps\<close>

text \<open>The states a backend can reach in \<open>n\<close> steps.\<close>

inductive pg_reach_in :: "'w rabbitmq \<Rightarrow> nat \<Rightarrow> 'w backend \<Rightarrow> bool"
  for E :: "'w rabbitmq" where
  reach_in_init: "pg_reach_in E 0 (pg_init w)"
| reach_in_step: "pg_reach_in E n st \<Longrightarrow> pg_step E c st st' \<Longrightarrow> pg_reach_in E (Suc n) st'"

lemma pg_reachable_iff: "pg_reachable E st \<longleftrightarrow> (\<exists>n. pg_reach_in E n st)"
proof
  show "pg_reachable E st \<Longrightarrow> \<exists>n. pg_reach_in E n st"
    by (induction rule: pg_reachable.induct) (blast intro: pg_reach_in.intros)+
  have "pg_reach_in E n st \<Longrightarrow> pg_reachable E st" for n
    by (induction rule: pg_reach_in.induct) (blast intro: pg_reachable.intros)+
  then show "\<exists>n. pg_reach_in E n st \<Longrightarrow> pg_reachable E st" by blast
qed

lemma pg_step_counts:
  assumes "pg_step E c st st'" and "brokers_ok (head_bs st)" and "counts_ok p q (head_bs st)"
    and "0 \<le> p" and "p < 2 ^ 31 - 1" and "0 \<le> q" and "q + 1 < 2 ^ 31 - 1"
  shows "counts_ok (p + 1) (q + 2) (head_bs st')"
  using assms
proof (cases rule: pg_step.cases)
  case (step_declare g d v)
  with declare_counts [OF assms(2,3), of E g d] assms show ?thesis
    by (auto intro: counts_ok_mono)
next
  case (step_disconnect i)
  with disconnect_counts [OF assms(2,3), of E i] assms show ?thesis
    by (auto intro: counts_ok_mono)
next
  case (step_xact g ev r)
  with phase2_counts [OF step_xact(2) _ assms(3)] assms show ?thesis
    by (auto simp: brokers_ok_def intro: counts_ok_mono)
next
  case (step_subxact sev)
  with subxact_counts_ok [OF step_subxact(2) _ assms(3)] assms show ?thesis
    by (auto simp: brokers_ok_def intro: counts_ok_mono)
next
  case step_exit
  with atexit_counts [OF step_exit(2) _ assms(3)] assms show ?thesis
    by (auto simp: brokers_ok_def intro: counts_ok_mono)
next
  case (step_world w)
  with assms show ?thesis by (auto intro: counts_ok_mono)
qed (auto simp: pg_amqp_publish_def pg_amqp_autonomous_publish_def dest: publish_opt_counts)

lemma pg_reach_in_counts:
  assumes "pg_reach_in E n st" and "n < 2 ^ 30"
  shows "counts_ok (int n) (2 * int n) (head_bs st)"
  using assms
proof (induction rule: pg_reach_in.induct)
  case (reach_in_init w)
  then show ?case by (simp add: counts_ok_def pg_init_def)
next
  case (reach_in_step n st c st')
  have "brokers_ok (head_bs st)"
    using reach_in_step.hyps(1) pg_reachable_iff pg_reachable_brokers_ok by blast
  from pg_step_counts [OF reach_in_step.hyps(2) this, of "int n" "2 * int n"] reach_in_step
  show ?case by (simp add: algebra_simps)
qed

end
