(* ===== verification/Pg_Transactions.thy ===== *)
theory Pg_Transactions
  imports Pg_Demo Pg_Counts
begin

text \<open>
  The properties of the transaction callbacks of \<open>src/src/pg_amqp.c\<close>: what a commit, a rollback,
  a savepoint rollback, a two-phase prepare and the end of the process do with the messages
  buffered on channel 2, over the reachable states of a backend.
\<close>

section \<open>Helper lemmas\<close>

lemma reachable_oks: "pg_reachable E st \<Longrightarrow> \<forall>b \<in> set (head_bs st). bs_ok b"
  using pg_reachable_brokers_ok [of E st] by (simp add: brokers_ok_def)

lemma commit_all_returns: "polls_run_dry E pending \<Longrightarrow> commit_all E g st \<noteq> None"
  using for_each_bs_returns [of "commit_bs E g" "head_bs st" "bio st"]
    commit_bs_returns [of E pending g]
  by (auto simp: commit_all_def)

lemma abort_all_returns: "abort_all E g st \<noteq> None"
  using for_each_bs_returns [of "\<lambda>b s. Some (abort_bs E g b s)" "head_bs st" "bio st"]
  by (auto simp: abort_all_def)

text \<open>What a flush reports about the broker it is for.\<close>

definition accounted :: "brokerstate \<Rightarrow> event list \<Rightarrow> bool" where
  "accounted b es \<longleftrightarrow>
     (\<exists>c. conn b = Some c \<and> Rpc (Tx_Commit c 2) Response_Normal \<in> set es) \<or>
     Warn (W_Discarding (uncommitted b) (broker_id b)) \<in> set es \<or>
     (\<exists>rt e. Warn (W_Commit_Failed (broker_id b) (uncommitted b) rt e) \<in> set es)"

lemma accounted_mono: "accounted b es \<Longrightarrow> set es \<subseteq> set fs \<Longrightarrow> accounted b fs"
  by (auto simp: accounted_def)

lemma flush_bs_accounted:
  assumes "flush_bs E g c b s = Some (b', s')" and "conn b = Some c"
  shows "\<exists>es. trace s' = trace s @ es \<and> accounted b es"
proof (rule flush_bs_cases [OF assms(1)])
  fix ok v s2 r s3 s4
  assume d: "local_amqp_drain_returns E b (local_amqp_set_timeout E b (amqp_commit_timeout_ms g) s)
      = Some (ok, b\<lparr>blocked := v\<rparr>, s2)"
    and r: "r = fst (do_rpc E (Tx_Commit c 2) s2)" "s3 = snd (do_rpc E (Tx_Commit c 2) s2)"
    and s4: "s4 = warn (W_Commit_Failed (broker_id b) (uncommitted b) (reply_type r)
      (library_error r)) s3"
    and normal: "reply_type r = Response_Normal \<Longrightarrow>
       b' = b\<lparr>blocked := v, uncommitted := 0\<rparr> \<and>
       s' = local_amqp_set_timeout E (b\<lparr>blocked := v\<rparr>) (amqp_operation_timeout_ms g) s3"
    and failed: "reply_type r \<noteq> Response_Normal \<Longrightarrow>
       b' = fst (local_amqp_disconnect_bs E (b\<lparr>blocked := v\<rparr>) False s4)\<lparr>uncommitted := 0\<rparr> \<and>
       s' = snd (local_amqp_disconnect_bs E (b\<lparr>blocked := v\<rparr>) False s4)"
  have "grows (\<lambda>_. True) s (local_amqp_set_timeout E b (amqp_commit_timeout_ms g) s)"
    by (rule grows_mono [OF set_timeout_grows]) simp
  also have "grows (\<lambda>_. True) \<dots> s2"
    by (rule drain_returns_grows [OF d]) simp
  finally obtain es2 where es2: "trace s2 = trace s @ es2" by (auto simp: grows_def)
  have es3: "trace s3 = trace s @ es2 @ [Rpc (Tx_Commit c 2) (reply_type r)]"
    using r by (simp add: trace_simps es2)
  show ?thesis
  proof (cases "reply_type r = Response_Normal")
    case True
    have "grows is_timeout_event s3 s'" using normal [OF True] set_timeout_grows by auto
    then obtain fs where "trace s' = trace s3 @ fs" by (auto simp: grows_def)
    then have "trace s' = trace s @ es2 @ Rpc (Tx_Commit c 2) Response_Normal # fs"
      using es3 True by simp
    with assms(2) show ?thesis by (fastforce simp: accounted_def)
  next
    case False
    let ?w = "W_Commit_Failed (broker_id b) (uncommitted b) (reply_type r) (library_error r)"
    obtain fs where "trace s' = trace s @ es2 @ Rpc (Tx_Commit c 2) (reply_type r) # Warn ?w # fs"
      using failed [OF False] es3 s4 by (auto simp: trace_simps disconnect_hard_trace)
    then show ?thesis by (fastforce simp: accounted_def)
  qed
qed

lemma commit_bs_accounted:
  assumes run: "commit_bs E g b s = Some (b', s')" and ok: "bs_ok b" and n: "0 < uncommitted b"
  shows "\<exists>es. trace s' = trace s @ es \<and> accounted b es"
proof (cases rule: commit_bs_cases [OF ok])
  case 2
  have "s' = snd (local_amqp_disconnect_bs E b False
      (warn (W_Discarding (uncommitted b) (broker_id b)) s))"
    using run commit_bs_discard [OF 2, of E g s] by (simp add: Let_def)
  then show ?thesis by (auto simp: disconnect_hard_trace trace_simps accounted_def)
next
  case (3 c)
  with run flush_bs_accounted [of E g c b s b' s'] show ?thesis by (simp add: commit_bs_flush)
qed (use n in simp_all)

section \<open>The invariant\<close>

text \<open>C1: In every reachable state of a backend, whatever calls, callbacks and moves of the
  outside world led to it, each broker id occurs once in \<open>HEAD_BS\<close> and every broker state is
  well formed: without a connection there is no socket, no buffered message and no back-pressure
  flag, with one there is no failure record, the failover index stays inside the cached host list and
  every cached port is a TCP port.  The two counters are 32-bit \<open>int\<close>s that wrap around: as long
  as the backend has made \<open>n < 2 ^ 30\<close> steps, the count of buffered messages lies between 0 and \<open>n\<close>, the count of
  failures between 0 and \<open>2 n\<close>, and a recorded failure is counted; beyond that only their width is known.\<close>

theorem pg_reachable_invariant:
  "pg_reach_in E n st \<Longrightarrow>
     distinct (map broker_id (head_bs st)) \<and>
     (\<forall>b \<in> set (head_bs st). bs_ok b \<and>
        (n < 2 ^ 30 \<longrightarrow>
           0 \<le> uncommitted b \<and> uncommitted b \<le> int n \<and>
           0 \<le> consecutive_failures b \<and> consecutive_failures b \<le> 2 * int n \<and>
           (last_failed_connect b \<noteq> 0 \<longrightarrow> 0 < consecutive_failures b)))"
  using pg_reach_in_counts [of E n st] pg_reachable_brokers_ok [of E st] pg_reachable_iff [of E st]
  by (auto simp: brokers_ok_def counts_ok_def within_counts_def)

theorem pg_reachable_invariant_witness:
  "distinct (map broker_id (head_bs demo_buffered)) \<and> bs_ok (demo_bs 1 False) \<and>
   uncommitted (demo_bs 1 False) \<le> 1"
proof -
  have "pg_reach_in demo (Suc 0) demo_buffered"
    by (rule reach_in_step [OF reach_in_init step_publish [OF demo_publish]])
  from pg_reachable_invariant [OF this] show ?thesis by (simp add: demo_buffered_def)
qed

text \<open>C2: Nothing is ever published on channel 2 before \<open>tx.select\<close> succeeded on that
  connection: a message of \<open>amqp.publish\<close> cannot reach the broker outside an AMQP transaction.\<close>

theorem pg_publish_only_in_tx_mode:
  assumes "pg_reachable E st" and "i < length (trace (bio st))"
    and "trace (bio st) ! i = Sent (Basic_Publish c 2 q) rv"
  shows "\<exists>j < i. trace (bio st) ! j = Rpc (Tx_Select c 2) Response_Normal"
proof -
  let ?es = "trace (bio st)"
  have "tx_safe [] ?es" using pg_reachable_session_ok [OF assms(1)] by (simp add: session_ok_def)
  then have "tx_safe [] (take i ?es @ ?es ! i # drop (Suc i) ?es)"
    using id_take_nth_drop [OF assms(2)] by metis
  then have "tx_selected c (take i ?es)" by (simp add: tx_safe_append assms(3))
  then show ?thesis
    using assms(2) by (auto simp: tx_selected_def in_set_conv_nth)
qed

theorem pg_publish_only_in_tx_mode_witness:
  "\<exists>j < 22. trace (bio demo_buffered) ! j = Rpc (Tx_Select 5 2) Response_Normal"
  by (rule pg_publish_only_in_tx_mode [OF demo_buffered_reachable, of 22 5 demo_request 0])
     (simp_all add: demo_buffered_def demo_connect_trace_def demo_publish_trace_def)

section \<open>Commit\<close>

text \<open>C3: As long as the broker pushes only finitely many frames, the commit and abort callbacks
  return, never raise an error, and leave every broker of the backend with nothing buffered and
  no poisoned transaction, in a state that satisfies the invariant again.\<close>

theorem xact_end_leaves_clean:
  assumes "pg_reachable E st" and "polls_run_dry E pending"
    and "ev \<in> {Xact_Commit, Xact_Parallel_Commit, Xact_Abort, Xact_Parallel_Abort}"
  shows "\<exists>st'. amqp_local_phase2 E g ev st = Some (Inr (), st') \<and> brokers_ok (head_bs st') \<and>
           (\<forall>b \<in> set (head_bs st'). uncommitted b = 0 \<and> \<not> inerror b)"
proof -
  note ok = pg_reachable_brokers_ok [OF assms(1)]
  obtain stc where "commit_all E g st = Some stc" using commit_all_returns [OF assms(2)] by blast
  moreover obtain sta where "abort_all E g st = Some sta" using abort_all_returns by blast
  ultimately show ?thesis
    using assms(3) commit_all_ok [of E g st stc] abort_all_ok [of E g st sta] ok
    by (auto simp: amqp_local_phase2_def clean_def)
qed

theorem xact_end_leaves_clean_witness:
  "\<exists>st'. amqp_local_phase2 demo default_gucs Xact_Commit demo_broken = Some (Inr (), st') \<and>
     brokers_ok (head_bs st') \<and> (\<forall>b \<in> set (head_bs st'). uncommitted b = 0 \<and> \<not> inerror b)"
  by (rule xact_end_leaves_clean [OF demo_broken_reachable demo_polls_run_dry]) simp

text \<open>C4: A commit never loses buffered messages in silence: for every broker with a non-empty
  buffer it either had its \<open>tx.commit\<close> acknowledged by the broker, or it logged a WARNING with the
  number of messages discarded, or one with the number of messages whose fate is unknown.\<close>

theorem commit_no_silent_loss:
  assumes "pg_reachable E st" and "amqp_local_phase2 E g Xact_Commit st = Some (r, st')"
    and "b \<in> set (head_bs st)" and "0 < uncommitted b"
  shows "\<exists>es. trace (bio st') = trace (bio st) @ es \<and>
    ((\<exists>c. conn b = Some c \<and> Rpc (Tx_Commit c 2) Response_Normal \<in> set es) \<or>
     Warn (W_Discarding (uncommitted b) (broker_id b)) \<in> set es \<or>
     (\<exists>rt e. Warn (W_Commit_Failed (broker_id b) (uncommitted b) rt e) \<in> set es))"
proof -
  note oks = reachable_oks [OF assms(1)]
  obtain l s where run: "for_each_bs (commit_bs E g) (head_bs st) (bio st) = Some (l, s)"
    and st': "bio st' = s"
    using assms(2) by (auto simp: amqp_local_phase2_def commit_all_def elim!: bind_SomeE)
  from commit_loop.loop_member [OF run oks assms(3)] obtain t b' t'
    where t: "commit_bs E g b t = Some (b', t')" "grows is_commit_event (bio st) t"
      "grows is_commit_event t' s" by blast
  from commit_bs_accounted [OF t(1)] oks assms(3,4) obtain es
    where es: "trace t' = trace t @ es" "accounted b es" by auto
  from t es obtain ds fs where "trace s = trace (bio st) @ ds @ es @ fs"
    by (auto simp: grows_def)
  moreover have "accounted b (ds @ es @ fs)" using es(2) by (rule accounted_mono) auto
  ultimately show ?thesis unfolding accounted_def st' by blast
qed

lemma demo_commit_runs:
  "polls_run_dry E pending \<Longrightarrow> \<exists>r st'. amqp_local_phase2 E g Xact_Commit st = Some (r, st')"
  using commit_all_returns by (fastforce simp: amqp_local_phase2_def)

theorem commit_no_silent_loss_witness:
  "\<exists>r st' es. amqp_local_phase2 demo default_gucs Xact_Commit demo_broken = Some (r, st') \<and>
     trace (bio st') = trace (bio demo_broken) @ es \<and>
     (Rpc (Tx_Commit 5 2) Response_Normal \<in> set es \<or> Warn (W_Discarding 1 1) \<in> set es \<or>
      (\<exists>rt e. Warn (W_Commit_Failed 1 1 rt e) \<in> set es))"
proof -
  obtain r st' where run: "amqp_local_phase2 demo default_gucs Xact_Commit demo_broken = Some (r, st')"
    using demo_commit_runs [OF demo_polls_run_dry] by blast
  have "demo_bs 1 False \<in> set (head_bs demo_broken)" "0 < uncommitted (demo_bs 1 False)"
    by (simp_all add: demo_broken_def demo_buffered_def demo_bs_def)
  from commit_no_silent_loss [OF demo_broken_reachable run this] run show ?thesis
    by (fastforce simp: demo_bs_def)
qed

text \<open>C5: A poisoned transaction is never committed: when the broker state is in error, the commit
  body makes no AMQP call at all, it logs the number of discarded messages and destroys the
  connection, and ends with an empty buffer, a cleared error flag and no connection.\<close>

theorem commit_poisoned_discards:
  assumes "bs_ok b" and "inerror b" and "0 < uncommitted b"
  shows "\<exists>c b' s'. conn b = Some c \<and> commit_bs E g b s = Some (b', s') \<and>
    trace s' = trace s @ [Warn (W_Discarding (uncommitted b) (broker_id b)),
                          Call (Destroy_Connection c)] \<and>
    conn b' = None \<and> uncommitted b' = 0 \<and> \<not> inerror b'"
proof -
  obtain c where c: "conn b = Some c" using assms bs_ok_no_conn [OF assms(1)] by (cases "conn b") auto
  with assms show ?thesis
    by (simp add: commit_bs_discard Let_def disconnect_hard_trace trace_simps)
qed

theorem commit_poisoned_discards_witness:
  "\<exists>c b' s'. conn (demo_bs 3 True) = Some c \<and>
    commit_bs demo default_gucs (demo_bs 3 True) (bio demo_poisoned) = Some (b', s') \<and>
    trace s' = trace (bio demo_poisoned) @ [Warn (W_Discarding (uncommitted (demo_bs 3 True))
                 (broker_id (demo_bs 3 True))), Call (Destroy_Connection c)] \<and>
    conn b' = None \<and> uncommitted b' = 0 \<and> \<not> inerror b'"
  by (rule commit_poisoned_discards)
     (simp_all add: demo_bs_def demo_host_def bs_ok_def bs_core_def hosts_ok_def is_int32_def)

text \<open>C6: A healthy buffer is flushed by exactly one \<open>tx.commit\<close> on channel 2.  The commit body
  puts the commit timeout on the socket and the connection, polls the connection, and commits.  If the
  commit is acknowledged, it puts the steady-state timeout back and keeps the connection; otherwise
  it logs the failure with the number of messages and destroys the connection.  It does nothing else: nothing
  is published on the way, and the polls are reads of that connection, releases of its buffers
  and WARNINGs about returned messages and back-pressure.\<close>

theorem commit_flush_order:
  assumes "bs_ok b" and "conn b = Some c" and "\<not> inerror b" and "0 < uncommitted b"
    and "commit_bs E g b s = Some (b', s')"
  shows "\<exists>polls rt e. list_all (is_drain_event c) polls \<and>
    trace s' = trace s @ timeout_calls b (amqp_commit_timeout_ms g) @ polls @
      Rpc (Tx_Commit c 2) rt #
      (if rt = Response_Normal then timeout_calls b (amqp_operation_timeout_ms g)
       else [Warn (W_Commit_Failed (broker_id b) (uncommitted b) rt e), Call (Destroy_Connection c)]) \<and>
    conn b' = (if rt = Response_Normal then Some c else None) \<and> uncommitted b' = 0"
proof -
  have run: "flush_bs E g c b s = Some (b', s')" using assms commit_bs_flush [of b c E g s] by simp
  show ?thesis
    using flush_bs_trace [OF run assms(2)] flush_bs_result [OF run assms(1,2)] by blast
qed

theorem commit_flush_order_witness:
  "\<exists>b' s' polls rt e. commit_bs demo default_gucs (demo_bs 1 False) (bio demo_buffered) = Some (b', s') \<and>
     list_all (is_drain_event 5) polls \<and>
     trace s' = trace (bio demo_buffered) @
      timeout_calls (demo_bs 1 False) (amqp_commit_timeout_ms default_gucs) @ polls @
      Rpc (Tx_Commit 5 2) rt #
      (if rt = Response_Normal
       then timeout_calls (demo_bs 1 False) (amqp_operation_timeout_ms default_gucs)
       else [Warn (W_Commit_Failed 1 1 rt e), Call (Destroy_Connection 5)]) \<and>
     conn b' = (if rt = Response_Normal then Some 5 else None)"
proof -
  let ?b = "demo_bs 1 False"
  obtain b' s' where run: "commit_bs demo default_gucs ?b (bio demo_buffered) = Some (b', s')"
    using commit_bs_returns [OF demo_polls_run_dry, of default_gucs ?b "bio demo_buffered"] by auto
  have b: "bs_ok ?b" "conn ?b = Some 5" "\<not> inerror ?b" "0 < uncommitted ?b"
    and n: "uncommitted ?b = 1" "broker_id ?b = 1"
    by (simp_all add: demo_bs_def demo_host_def bs_ok_def bs_core_def hosts_ok_def is_int32_def)
  from commit_flush_order [OF b run, unfolded n] run show ?thesis by metis
qed

section \<open>Rollback\<close>

lemma timeout_event_not_rpc: "is_timeout_event e \<Longrightarrow> \<not> is_rpc e"
  by (auto elim: is_timeout_event.elims)

lemma abort_event_not_sent: "is_abort_event e \<Longrightarrow> \<not> is_sent e"
  by (auto elim: is_abort_event.elims)

lemma rollback_bs_rpc:
  assumes "conn b = Some c"
  shows "\<exists>es rt. trace (snd (rollback_bs E g c b s)) = trace s @ es \<and>
           filter is_rpc es = [Rpc (Tx_Rollback c 2) rt]"
proof -
  let ?s1 = "local_amqp_set_timeout E b (amqp_commit_timeout_ms g) s"
  let ?r = "do_rpc E (Tx_Rollback c 2) ?s1"
  obtain ds where ds: "trace ?s1 = trace s @ ds" "list_all is_timeout_event ds"
    using set_timeout_grows [of s E b "amqp_commit_timeout_ms g"] by (auto simp: grows_def)
  have "filter is_rpc ds = []"
    using ds(2) by (auto simp: filter_empty_conv list_all_iff timeout_event_not_rpc)
  moreover obtain fs where fs: "trace (snd (rollback_bs E g c b s)) = trace (snd ?r) @ fs"
    "filter is_rpc fs = []"
  proof (cases "reply_type (fst ?r) = Response_Normal")
    case True
    obtain fs where "trace (local_amqp_set_timeout E b (amqp_operation_timeout_ms g) (snd ?r)) =
        trace (snd ?r) @ fs" "list_all is_timeout_event fs"
      using set_timeout_grows [of "snd ?r" E b "amqp_operation_timeout_ms g"]
      by (auto simp: grows_def)
    then show thesis
      by (intro that [of fs]) (use True in
        \<open>auto simp: rollback_bs_def Let_def case_prod_beta filter_empty_conv list_all_iff
          timeout_event_not_rpc\<close>)
  next
    case False
    then show thesis
      by (intro that [of "[Warn (W_Rollback_Failed (broker_id b) (reply_type (fst ?r))
            (library_error (fst ?r))), Call (Destroy_Connection c)]"])
         (use assms in \<open>auto simp: rollback_bs_def Let_def case_prod_beta disconnect_hard_trace
            trace_simps\<close>)
  qed
  ultimately show ?thesis using ds by (auto simp: trace_simps)
qed

lemma abort_bs_undone:
  assumes ok: "bs_ok b" and n: "0 < uncommitted b"
  shows "\<exists>c es. conn b = Some c \<and> trace (snd (abort_bs E g b s)) = trace s @ es \<and>
           (if inerror b then es = [Call (Destroy_Connection c)]
            else \<exists>rt. filter is_rpc es = [Rpc (Tx_Rollback c 2) rt])"
proof -
  obtain c where c: "conn b = Some c" using n bs_ok_no_conn [OF ok] by (cases "conn b") auto
  show ?thesis
  proof (cases "inerror b")
    case True
    with c disconnect_bs_uncommitted [OF ok, of E False s] show ?thesis
      by (simp add: abort_bs_def Let_def case_prod_beta disconnect_hard_trace)
  next
    case False
    then have same: "b\<lparr>inerror := False\<rparr> = b" by simp
    have "abort_bs E g b s = rollback_bs E g c b s"
      using False c n by (simp add: abort_bs_def Let_def same)
    with False c rollback_bs_rpc [OF c, of E g s] show ?thesis by auto
  qed
qed

text \<open>C7: A transaction rollback undoes every buffer: for each broker with buffered messages the
  callback either issues \<open>tx.rollback\<close> on its channel 2, or, when the state is poisoned, destroys
  the connection, which the broker answers by discarding the uncommitted messages.  In the whole
  callback nothing is committed and nothing is published.\<close>

theorem rollback_undoes_buffers:
  assumes "pg_reachable E st" and "amqp_local_phase2 E g Xact_Abort st = Some (r, st')"
  shows "\<exists>es. trace (bio st') = trace (bio st) @ es \<and>
    (\<forall>e \<in> set es. \<not> is_sent e \<and> (\<forall>c ch rt. e \<noteq> Rpc (Tx_Commit c ch) rt)) \<and>
    (\<forall>b \<in> set (head_bs st). 0 < uncommitted b \<longrightarrow>
       (\<exists>c. conn b = Some c \<and>
          (if inerror b then Call (Destroy_Connection c) \<in> set es
           else \<exists>rt. Rpc (Tx_Rollback c 2) rt \<in> set es)))"
proof -
  note oks = reachable_oks [OF assms(1)]
  obtain l s where run: "for_each_bs (\<lambda>b s. Some (abort_bs E g b s)) (head_bs st) (bio st) = Some (l, s)"
    and st': "bio st' = s"
    using assms(2) by (auto simp: amqp_local_phase2_def abort_all_def elim!: bind_SomeE)
  obtain es where es: "trace s = trace (bio st) @ es" "list_all is_abort_event es"
    using abort_loop.loop_result [OF run oks] by (auto simp: grows_def)
  have "\<exists>c. conn b = Some c \<and> (if inerror b then Call (Destroy_Connection c) \<in> set es
           else \<exists>rt. Rpc (Tx_Rollback c 2) rt \<in> set es)"
    if b: "b \<in> set (head_bs st)" and n: "0 < uncommitted b" for b
  proof -
    from abort_loop.loop_member [OF run oks b] obtain t t' where
      t: "snd (abort_bs E g b t) = t'" "grows is_abort_event (bio st) t" "grows is_abort_event t' s"
      by (metis option.inject prod.collapse prod.inject)
    from abort_bs_undone [OF _ n, of E g t] oks b obtain c fs where
      c: "conn b = Some c" and fs: "trace t' = trace t @ fs"
      and undone: "if inerror b then fs = [Call (Destroy_Connection c)]
            else \<exists>rt. filter is_rpc fs = [Rpc (Tx_Rollback c 2) rt]"
      using t(1) by auto
    have sub: "set fs \<subseteq> set es" using t(2,3) fs es(1) by (auto simp: grows_def)
    have "\<exists>rt. Rpc (Tx_Rollback c 2) rt \<in> set fs" if "\<not> inerror b"
      using undone that by (auto simp: filter_eq_Cons_iff)
    with c undone sub show ?thesis by auto
  qed
  moreover have "\<forall>e \<in> set es. \<not> is_sent e \<and> (\<forall>c ch rt. e \<noteq> Rpc (Tx_Commit c ch) rt)"
    using es(2) by (auto simp: list_all_iff dest: abort_event_not_sent)
  ultimately show ?thesis using es(1) st' by auto
qed

theorem rollback_undoes_buffers_witness:
  "\<exists>r st' es rt. amqp_local_phase2 demo default_gucs Xact_Abort demo_buffered = Some (r, st') \<and>
     trace (bio st') = trace (bio demo_buffered) @ es \<and> Rpc (Tx_Rollback 5 2) rt \<in> set es"
proof -
  obtain st' where run: "abort_all demo default_gucs demo_buffered = Some st'"
    using abort_all_returns by blast
  then have run': "amqp_local_phase2 demo default_gucs Xact_Abort demo_buffered = Some (Inr (), st')"
    by (simp add: amqp_local_phase2_def)
  from rollback_undoes_buffers [OF demo_buffered_reachable run'] run' show ?thesis
    by (fastforce simp: demo_buffered_def demo_bs_def)
qed

section \<open>Savepoints\<close>

lemma commit_bs_poisoned_quiet:
  assumes "bs_ok b" and "poisoned_if_buffered b" and "commit_bs E g b s = Some (b', s')"
    and "0 \<le> uncommitted b"
  shows "filter is_rpc (trace s') = filter is_rpc (trace s)"
proof (cases rule: commit_bs_cases [OF assms(1)])
  case 1
  with assms show ?thesis
    by (auto simp: commit_bs_idle disconnect_hard_trace split: if_splits option.split)
next
  case 2
  with assms show ?thesis
    by (auto simp: commit_bs_discard Let_def disconnect_hard_trace trace_simps split: option.split)
qed (use assms in \<open>simp_all add: poisoned_if_buffered_def\<close>)

lemma poisoned_loop_quiet:
  "for_each_bs (commit_bs E g) l s = Some (l', s') \<Longrightarrow>
     \<forall>b \<in> set l. bs_ok b \<and> poisoned_if_buffered b \<and> 0 \<le> uncommitted b \<Longrightarrow>
     filter is_rpc (trace s') = filter is_rpc (trace s)"
  by (induction l arbitrary: s l') (auto dest!: commit_bs_poisoned_quiet elim!: bind_SomeE)

lemma subxact_bs_uncommitted [simp]:
  "uncommitted (fst (subxact_bs b s)) = uncommitted b"
  "broker_id (fst (subxact_bs b s)) = broker_id b"
  by (simp_all add: subxact_bs_def)

lemma subxact_loop_counts:
  "for_each_bs (\<lambda>b s. Some (subxact_bs b s)) l s = Some (l', s') \<Longrightarrow>
     map uncommitted l' = map uncommitted l"
proof (induction l arbitrary: s l')
  case (Cons b l)
  from Cons.prems obtain s1 l1 where "for_each_bs (\<lambda>b s. Some (subxact_bs b s)) l s1 = Some (l1, s')"
    and l': "l' = fst (subxact_bs b s) # l1"
    by (auto simp: case_prod_beta elim!: bind_SomeE)
  from Cons.IH [OF this(1)] show ?case by (simp add: l')
qed simp

text \<open>C8: Rolling back a savepoint and then committing publishes nothing: the subtransaction
  callback poisons every broker with buffered messages, and the commit that follows makes no
  synchronous AMQP call on any broker; each buffered message is counted in a WARNING.  This is so as
  long as no 32-bit count of buffered messages has wrapped to a negative number.\<close>

theorem savepoint_rollback_prevents_commit:
  fixes st :: "'w backend"
  assumes reach: "pg_reachable E st"
    and nonneg: "\<forall>b \<in> set (head_bs st). 0 \<le> uncommitted b"
    and sub: "amqp_local_subxact Subxact_Abort st = Some st1"
    and com: "amqp_local_phase2 E g Xact_Commit st1 = Some (r, st2)"
  shows "filter is_rpc (trace (bio st2)) = filter is_rpc (trace (bio st)) \<and>
    (\<forall>b \<in> set (head_bs st). 0 < uncommitted b \<longrightarrow>
       Warn (W_Discarding (uncommitted b) (broker_id b)) \<in> set (trace (bio st2)))"
proof -
  let ?f = "\<lambda>b s. Some (subxact_bs b s)"
  note ok = pg_reachable_brokers_ok [OF reach] and oks = reachable_oks [OF reach]
  obtain l s where run: "for_each_bs ?f (head_bs st) (bio st) = Some (l, s)"
    and st1: "st1 = st\<lparr>head_bs := l, bio := s\<rparr>"
    using sub by (auto simp: amqp_local_subxact_def elim!: bind_SomeE)
  have "map uncommitted l = map uncommitted (head_bs st)" by (rule subxact_loop_counts [OF run])
  then have "\<forall>b \<in> set l. 0 \<le> uncommitted b"
    using nonneg by (metis (no_types, lifting) imageE image_eqI list.set_map)
  then have oks1: "\<forall>b \<in> set l. bs_ok b \<and> poisoned_if_buffered b \<and> 0 \<le> uncommitted b"
    and gs: "grows is_subxact_event (bio st) s"
    using subxact_loop.loop_result [OF run oks] by auto
  obtain l2 s2 where run2: "for_each_bs (commit_bs E g) l s = Some (l2, s2)" and st2: "bio st2 = s2"
    using com st1 by (auto simp: amqp_local_phase2_def commit_all_def elim!: bind_SomeE)
  have oksl: "\<forall>b \<in> set l. bs_ok b" using oks1 by blast
  have "filter is_rpc (trace s) = filter is_rpc (trace (bio st))"
    by (rule filter_rpc_same [OF gs]) (auto elim: is_subxact_event.elims)
  with poisoned_loop_quiet [OF run2 oks1] have "filter is_rpc (trace s2) = filter is_rpc (trace (bio st))"
    by simp
  moreover have "Warn (W_Discarding (uncommitted b) (broker_id b)) \<in> set (trace s2)"
    if b: "b \<in> set (head_bs st)" and n: "0 < uncommitted b" for b
  proof -
    from subxact_loop.loop_member [OF run oks b] obtain t t' :: "'w io" and b1
      where "Some (subxact_bs b t) = Some (b1, t')" and "b1 \<in> set l" by blast
    then have b1: "b1 \<in> set l" "b1 = fst (subxact_bs b t)" by simp_all
    have u1: "uncommitted b1 = uncommitted b" and id1: "broker_id b1 = broker_id b"
      by (simp_all add: b1(2))
    have n1: "0 < uncommitted b1" using n u1 by simp
    have err: "inerror b1" using oks1 b1(1) n1 poisoned_if_buffered_def by blast
    from commit_loop.loop_member [OF run2 oksl b1(1)] obtain u b2 u' where
      u: "commit_bs E g b1 u = Some (b2, u')" "grows is_commit_event u' s2" by blast
    have "Warn (W_Discarding (uncommitted b) (broker_id b)) \<in> set (trace u')"
    proof -
      have "u' = snd (local_amqp_disconnect_bs E b1 False
          (warn (W_Discarding (uncommitted b1) (broker_id b1)) u))"
        using u(1) commit_bs_discard [OF n1, of E g u] err by (simp add: Let_def)
      then show ?thesis by (simp add: disconnect_hard_trace trace_simps id1 u1)
    qed
    with u(2) show ?thesis by (rule grows_set)
  qed
  ultimately show ?thesis by (simp add: st2)
qed

theorem savepoint_rollback_prevents_commit_witness:
  "\<exists>st2. amqp_local_phase2 demo default_gucs Xact_Commit demo_poisoned = Some (Inr (), st2) \<and>
     filter is_rpc (trace (bio st2)) = filter is_rpc (trace (bio demo_buffered)) \<and>
     Warn (W_Discarding 1 1) \<in> set (trace (bio st2))"
proof -
  obtain st2 where "commit_all demo default_gucs demo_poisoned = Some st2"
    using commit_all_returns [OF demo_polls_run_dry] by blast
  then have run: "amqp_local_phase2 demo default_gucs Xact_Commit demo_poisoned = Some (Inr (), st2)"
    by (simp add: amqp_local_phase2_def)
  have "\<forall>b \<in> set (head_bs demo_buffered). 0 \<le> uncommitted b"
    by (simp add: demo_buffered_def demo_bs_def)
  from savepoint_rollback_prevents_commit [OF demo_buffered_reachable this demo_savepoint run] run
  show ?thesis by (auto simp: demo_buffered_def demo_bs_def)
qed

section \<open>PREPARE TRANSACTION\<close>

lemma find_SomeD: "find P xs = Some x \<Longrightarrow> x \<in> set xs \<and> P x"
  by (auto simp: find_Some_iff)

text \<open>C9: Preparing a transaction fails exactly when some broker has buffered messages; the error
  names one such broker and its count, and the callback touches neither the brokers nor the outside
  world.\<close>

theorem pre_prepare_error_iff:
  "\<exists>r. amqp_local_phase2 E g Xact_Pre_Prepare st = Some (r, st) \<and>
       (r = Inr () \<longleftrightarrow> \<not> (\<exists>b \<in> set (head_bs st). 0 < uncommitted b)) \<and>
       (\<forall>n i. r = Inl (Cannot_Prepare n i) \<longrightarrow>
          (\<exists>b \<in> set (head_bs st). broker_id b = i \<and> uncommitted b = n \<and> 0 < n))"
  by (auto simp: amqp_local_phase2_def pre_prepare_check_def find_None_iff
      dest!: find_SomeD split: option.splits)

theorem pre_prepare_error_iff_witness:
  "amqp_local_phase2 demo default_gucs Xact_Pre_Prepare demo_buffered =
     Some (Inl (Cannot_Prepare 1 1), demo_buffered)"
proof -
  obtain r where r: "amqp_local_phase2 demo default_gucs Xact_Pre_Prepare demo_buffered = Some (r, demo_buffered)"
    "r = Inr () \<longleftrightarrow> \<not> (\<exists>b \<in> set (head_bs demo_buffered). 0 < uncommitted b)"
    "\<And>n i. r = Inl (Cannot_Prepare n i) \<Longrightarrow>
          \<exists>b \<in> set (head_bs demo_buffered). broker_id b = i \<and> uncommitted b = n \<and> 0 < n"
    using pre_prepare_error_iff [of demo default_gucs demo_buffered] by blast
  then obtain n i where "r = Inl (Cannot_Prepare n i)"
    by (cases r; cases "projl r") (auto simp: demo_buffered_def demo_bs_def)
  with r show ?thesis by (auto simp: demo_buffered_def demo_bs_def)
qed

section \<open>Process exit\<close>

lemma disconnect_graceful_trace:
  "conn b = Some c \<Longrightarrow> trace (snd (local_amqp_disconnect_bs E b True s)) =
     trace s @ [Call (Set_Rpc_Timeout c (0, 500000)), Call (Close_Connection c 200),
                Call (Destroy_Connection c)]"
  by (simp add: local_amqp_disconnect_bs_def trace_simps AMQP_GRACEFUL_CLOSE_MS_def
      AMQP_REPLY_SUCCESS_def)

text \<open>At process exit every open connection is closed gracefully, within its own half-second
  budget, and destroyed, and no broker is left connected.\<close>

theorem atexit_closes_all:
  assumes "pg_reachable E st"
  shows "\<exists>st' es. amqp_atexit E st = Some st' \<and> trace (bio st') = trace (bio st) @ es \<and>
    (\<forall>b \<in> set (head_bs st'). conn b = None) \<and>
    (\<forall>b \<in> set (head_bs st). \<forall>c. conn b = Some c \<longrightarrow>
       (\<exists>xs ys. es = xs @ [Call (Set_Rpc_Timeout c (0, 500000)), Call (Close_Connection c 200),
                           Call (Destroy_Connection c)] @ ys))"
proof -
  let ?f = "\<lambda>b s. Some (local_amqp_disconnect_bs E b True s)"
  note oks = reachable_oks [OF assms]
  have "for_each_bs ?f (head_bs st) (bio st) \<noteq> None" by (rule for_each_bs_returns) simp
  then obtain l s where run: "for_each_bs ?f (head_bs st) (bio st) = Some (l, s)" by auto
  obtain es where es: "trace s = trace (bio st) @ es"
    using exit_loop.loop_result [OF run oks] by (auto simp: grows_def)
  have "\<forall>b \<in> set l. conn b = None"
    using exit_loop.loop_result [OF run oks] by (auto simp: disconnected_def)
  moreover have "\<exists>xs ys. es = xs @ [Call (Set_Rpc_Timeout c (0, 500000)), Call (Close_Connection c 200),
                           Call (Destroy_Connection c)] @ ys"
    if b: "b \<in> set (head_bs st)" and c: "conn b = Some c" for b c
  proof -
    from exit_loop.loop_member [OF run oks b] obtain t t' where
      t: "snd (local_amqp_disconnect_bs E b True t) = t'" "grows is_teardown_event (bio st) t"
      "grows is_teardown_event t' s"
      by (metis option.inject prod.collapse prod.inject)
    obtain xs ys where "trace t = trace (bio st) @ xs" "trace s = trace t' @ ys"
      using t(2,3) by (auto simp: grows_def)
    then have "es = xs @ [Call (Set_Rpc_Timeout c (0, 500000)), Call (Close_Connection c 200),
                           Call (Destroy_Connection c)] @ ys"
      using disconnect_graceful_trace [OF c, of E t] es t(1) by simp
    then show ?thesis by blast
  qed
  ultimately show ?thesis using run es by (auto simp: amqp_atexit_def)
qed

theorem atexit_closes_all_witness:
  "\<exists>st' es xs ys. amqp_atexit demo demo_buffered = Some st' \<and>
     trace (bio st') = trace (bio demo_buffered) @ es \<and>
     (\<forall>b \<in> set (head_bs st'). conn b = None) \<and>
     es = xs @ [Call (Set_Rpc_Timeout 5 (0, 500000)), Call (Close_Connection 5 200),
                Call (Destroy_Connection 5)] @ ys"
  using atexit_closes_all [OF demo_buffered_reachable]
  by (fastforce simp: demo_buffered_def demo_bs_def)

end
