(* ===== verification/Pg_Calls.thy ===== *)
theory Pg_Calls
  imports Pg_Demo "HOL-Library.Sublist"
begin

text \<open>
  The properties of the SQL-callable functions of \<open>src/src/pg_amqp.c\<close> and of the connection
  management below them: what a publish sends and counts, when it reconnects, the backoff window,
  the handshake and the failover order, an explicit disconnect and a failed declaration.
\<close>

section \<open>What a publish hands to the library\<close>

fun is_accepted :: "event \<Rightarrow> bool" where
  "is_accepted (Sent _ rv) = (rv = 0)"
| "is_accepted _ = False"

lemma accepted_of_sent: "filter is_accepted es = filter is_accepted (filter is_sent es)"
  by (induction es) (auto elim: is_accepted.elims)

text \<open>
  The publishes of one call, in order: all of them are attempts at the one message of the call,
  and the library accepted one of them exactly when the call returns true.
\<close>

definition call_sent :: "publish_args \<Rightarrow> nat \<Rightarrow> bool \<Rightarrow> conn_handle option \<Rightarrow> event list \<Rightarrow> bool" where
  "call_sent a ch v co es \<longleftrightarrow>
     (\<forall>e \<in> set es. \<exists>c rv. e = Sent (Basic_Publish c ch (request_of a)) rv) \<and>
     filter is_accepted es = (if v then [Sent (Basic_Publish (the co) ch (request_of a)) 0] else []) \<and>
     (v \<longrightarrow> co \<noteq> None)"

lemma publish_attempt_sent:
  assumes att: "publish_attempt E a ch once_more b s = Some (r, b', s')" and ok: "bs_ok b"
  shows "\<exists>es. filter is_sent (trace s') = filter is_sent (trace s) @ es \<and>
           call_sent a ch (r = Return True) (conn b) es"
proof (cases "conn b")
  case None
  then have "s' = s" "r \<noteq> Return True"
    using publish_attempt_trace [OF att] att by (auto simp: publish_attempt_def)
  then show ?thesis by (intro exI [where x = "[]"]) (simp add: call_sent_def)
next
  case (Some c)
  then show ?thesis
    using publish_attempt_trace [OF att] by (fastforce simp: call_sent_def)
qed

lemma get_bs_sent:
  "filter is_sent (trace (bio (snd (local_amqp_get_bs E g i st)))) = filter is_sent (trace (bio st))"
  by (rule grows_filter [OF get_bs_connect connect_event_quiet])

lemma call_sent_append:
  "call_sent a ch False co es \<Longrightarrow> call_sent a ch v co' fs \<Longrightarrow> call_sent a ch v co' (es @ fs)"
  by (auto simp: call_sent_def)

lemma publish_last_sent:
  assumes ok: "brokers_ok (head_bs st)"
    and att: "publish_attempt E a ch once_more (fst (local_amqp_get_bs E g i st))
         (bio (snd (local_amqp_get_bs E g i st))) = Some (Return v, bs_of i st', s1)"
    and st': "st' = (snd (local_amqp_get_bs E g i st))
         \<lparr>head_bs := put_bs (bs_of i st') (head_bs (snd (local_amqp_get_bs E g i st))), bio := s1\<rparr>"
  shows "\<exists>es. filter is_sent (trace (bio st')) = filter is_sent (trace (bio st)) @ es \<and>
           call_sent a ch v (conn (bs_of i st')) es"
proof -
  have "conn (bs_of i st') = conn (fst (local_amqp_get_bs E g i st))"
    using publish_pass [OF ok att st'] by (simp add: attempt_post_def)
  moreover have "bio st' = s1" by (subst st') simp
  ultimately show ?thesis
    using publish_attempt_sent [OF att get_bs_ok(2) [OF ok]] by (simp add: get_bs_sent)
qed

lemma publish_redo_sent:
  assumes run: "publish_redo E g a ch i once_more st = Some (v, st')"
    and ok: "brokers_ok (head_bs st)"
  shows "\<exists>es. filter is_sent (trace (bio st')) = filter is_sent (trace (bio st)) @ es \<and>
           call_sent a ch v (conn (bs_of i st')) es"
proof (cases rule: publish_redo_cases [OF run ok])
  case (1 s1)
  with ok show ?thesis by (rule publish_last_sent)
next
  case (2 st2 s1)
  have "bio st2 = s1" by (subst 2(3)) simp
  with publish_attempt_sent [OF 2(2) get_bs_ok(2) [OF ok]]
  obtain es where es: "filter is_sent (trace (bio st2)) = filter is_sent (trace (bio st)) @ es"
    "call_sent a ch False (conn (fst (local_amqp_get_bs E g i st))) es"
    by (auto simp: get_bs_sent)
  have ok2: "brokers_ok (head_bs st2)" using publish_pass [OF ok 2(2,3)] by simp
  show ?thesis
  proof (cases rule: publish_redo_cases [OF 2(4) ok2])
    case (1 s)
    from publish_last_sent [OF ok2 this] obtain fs where
      "filter is_sent (trace (bio st')) = filter is_sent (trace (bio st2)) @ fs"
      "call_sent a ch v (conn (bs_of i st')) fs" by blast
    with es call_sent_append [OF es(2)] show ?thesis by (intro exI [where x = "es @ fs"]) simp
  qed simp
qed

lemma publish_opt_sent:
  assumes "pg_amqp_publish_opt E g a ch st = Some (v, st')" and "brokers_ok (head_bs st)"
    and "arg_broker_id a = Some i"
  shows "\<exists>es. filter is_sent (trace (bio st')) = filter is_sent (trace (bio st)) @ es \<and>
           call_sent a ch v (conn (bs_of i st')) es"
proof (cases "body_too_large g a")
  case None
  with assms publish_redo_sent show ?thesis by (simp add: pg_amqp_publish_opt_def)
next
  case (Some n)
  with assms(1,3) have "v = False"
    "bio st' = warn (W_Body_Too_Large n (amqp_max_body_bytes g)) (bio st)"
    by (auto simp: pg_amqp_publish_opt_def)
  then show ?thesis by (intro exI [where x = "[]"]) (simp add: trace_simps call_sent_def)
qed

section \<open>Publishing\<close>

text \<open>C10: A true result of \<open>amqp.publish\<close> means that the library accepted the message of the call
  exactly once, on channel 2 of the connection the broker state holds afterwards, and that exactly
  one more message is counted as buffered for that broker, in a 32-bit count that wraps around; a false
  result means that it accepted nothing and the count is what it was.  No other broker state changes.\<close>

theorem publish_accounting:
  assumes "pg_reachable E st" and "pg_amqp_publish E g a st = Some (v, st')"
    and "arg_broker_id a = Some i"
  shows "uncommitted (bs_of i st') =
      (if v then int32 (uncommitted (bs_of i st) + 1) else uncommitted (bs_of i st)) \<and>
    others_kept i st st' \<and>
    (\<exists>es. filter is_sent (trace (bio st')) = filter is_sent (trace (bio st)) @ es \<and>
       filter is_accepted es =
         (if v then [Sent (Basic_Publish (the (conn (bs_of i st'))) 2 (request_of a)) 0] else []) \<and>
       (v \<longrightarrow> conn (bs_of i st') \<noteq> None))"
proof -
  note ok = pg_reachable_brokers_ok [OF assms(1)]
  have run: "pg_amqp_publish_opt E g a 2 st = Some (v, st')"
    using assms(2) by (simp add: pg_amqp_publish_def)
  obtain es where "filter is_sent (trace (bio st')) = filter is_sent (trace (bio st)) @ es"
    "call_sent a 2 v (conn (bs_of i st')) es"
    using publish_opt_sent [OF run ok assms(3)] by blast
  then show ?thesis
    using publish_opt_post [OF run ok assms(3)]
    by (intro conjI exI [where x = es]) (simp_all add: publish_post_def call_sent_def)
qed

lemma demo_reach_init: "pg_reachable demo (pg_init demo_up)"
  by (rule reach_init)

theorem publish_accounting_witness:
  "uncommitted (bs_of 1 demo_buffered) = uncommitted (bs_of 1 (pg_init demo_up)) + 1 \<and>
   others_kept 1 (pg_init demo_up) demo_buffered \<and>
   (\<exists>es. filter is_sent (trace (bio demo_buffered)) =
           filter is_sent (trace (bio (pg_init demo_up))) @ es \<and>
         filter is_accepted es = [Sent (Basic_Publish 5 2 (request_of demo_args)) 0])"
proof -
  have u: "uncommitted (bs_of 1 (pg_init demo_up)) = 0"
    by (simp add: bs_of_def pg_init_def local_amqp_get_a_bs_def fresh_bs_def)
  have c: "conn (bs_of 1 demo_buffered) = Some 5"
    by (simp add: bs_of_def demo_buffered_def demo_bs_def local_amqp_get_a_bs_def)
  have one: "int32 1 = 1" by (simp add: is_int32_def)
  have i: "arg_broker_id demo_args = Some 1" by (simp add: demo_args_def)
  show ?thesis using publish_accounting [OF demo_reach_init demo_publish i] by (simp add: u c one)
qed

text \<open>C11: While messages are buffered for a broker, \<open>amqp.publish\<close> never reconnects to it, whatever
  the broker does: the connection of its broker state stays the same, and the call only polls,
  publishes on channel 2 of that connection, releases its read buffers, and logs; in particular it
  does not destroy it.\<close>

theorem publish_never_reconnects_over_buffer:
  assumes "pg_reachable E st" and "pg_amqp_publish E g a st = Some (v, st')"
    and "arg_broker_id a = Some i" and "0 < uncommitted (bs_of i st)"
  shows "\<exists>c. conn (bs_of i st) = Some c \<and> conn (bs_of i st') = Some c \<and>
           grows (\<lambda>e. is_publish_event c 2 e \<or> (\<exists>n m. e = Warn (W_Body_Too_Large n m)))
             (bio st) (bio st')"
proof -
  note ok = pg_reachable_brokers_ok [OF assms(1)]
  obtain c where c: "conn (bs_of i st) = Some c"
    using assms(4) bs_ok_no_conn [OF bs_of_ok [OF ok, of i]] by (cases "conn (bs_of i st)") auto
  have run: "pg_amqp_publish_opt E g a 2 st = Some (v, st')"
    using assms(2) by (simp add: pg_amqp_publish_def)
  have same: "conn (bs_of i st') = Some c"
    using publish_opt_post [OF run ok assms(3)] assms(4) c by (simp add: publish_post_def)
  have get: "fst (local_amqp_get_bs E g i st) = bs_of i st"
    "bio (snd (local_amqp_get_bs E g i st)) = bio st"
    using get_bs_connected [of i st E g] c by simp_all
  have "grows (\<lambda>e. is_publish_event c 2 e \<or> (\<exists>n m. e = Warn (W_Body_Too_Large n m)))
      (bio st) (bio st')"
  proof (cases "body_too_large g a")
    case None
    then have redo: "publish_redo E g a 2 i True st = Some (v, st')"
      using run assms(3) by (simp add: pg_amqp_publish_opt_def)
    show ?thesis
    proof (cases rule: publish_redo_cases [OF redo ok])
      case (1 s1)
      have "bio st' = s1" by (subst 1(2)) simp
      with publish_attempt_trace [OF 1(1)] get c show ?thesis
        by (auto simp: is_attempt_event_def intro: grows_mono)
    next
      case (2 st2 s1)
      then have "uncommitted (bs_of i st) = 0"
        using publish_pass [OF ok 2(2,3)] get by (simp add: attempt_post_def)
      with assms(4) show ?thesis by simp
    qed
  next
    case (Some n)
    then show ?thesis using run assms(3) by (auto simp: pg_amqp_publish_opt_def intro!: grows_steps)
  qed
  with c same show ?thesis by blast
qed

theorem publish_never_reconnects_over_buffer_witness:
  "\<exists>v st'. pg_amqp_publish demo default_gucs demo_args demo_broken = Some (v, st') \<and>
     conn (bs_of 1 st') = Some 5 \<and>
     grows (\<lambda>e. is_publish_event 5 2 e \<or> (\<exists>n m. e = Warn (W_Body_Too_Large n m)))
       (bio demo_broken) (bio st')"
proof -
  obtain v st' where "publish_redo demo default_gucs demo_args 2 1 True demo_broken = Some (v, st')"
    using publish_redo_returns [OF demo_polls_run_dry
        pg_reachable_brokers_ok [OF demo_broken_reachable]] by fastforce
  then have run: "pg_amqp_publish demo default_gucs demo_args demo_broken = Some (v, st')"
    by (simp add: pg_amqp_publish_def pg_amqp_publish_opt_def demo_args_def body_too_large_def
        default_gucs_def)
  have "arg_broker_id demo_args = Some 1" "0 < uncommitted (bs_of 1 demo_broken)"
    "conn (bs_of 1 demo_broken) = Some 5"
    by (simp_all add: demo_args_def bs_of_def demo_broken_def demo_buffered_def demo_bs_def
        local_amqp_get_a_bs_def)
  with publish_never_reconnects_over_buffer [OF demo_broken_reachable run] run show ?thesis by auto
qed

text \<open>C12: \<open>amqp.publish\<close> and \<open>amqp.autonomous_publish\<close> return: the polling loop ends because the
  broker has pushed only finitely many frames, and the \<open>redo\<close> label is jumped to at most once.\<close>

theorem publish_returns:
  assumes "pg_reachable E st" and "polls_run_dry E pending" and "ch \<in> {1, 2}"
  shows "\<exists>v st'. pg_amqp_publish_opt E g a ch st = Some (v, st')"
proof -
  have "\<exists>v st'. publish_redo E g a ch i True st = Some (v, st')" for i
    using publish_redo_returns [OF assms(2) pg_reachable_brokers_ok [OF assms(1)], of g a ch i]
    by fastforce
  then show ?thesis by (auto simp: pg_amqp_publish_opt_def split: option.split)
qed

theorem publish_returns_witness:
  "\<exists>v st'. pg_amqp_publish_opt demo default_gucs demo_args 1 demo_broken = Some (v, st')"
  by (rule publish_returns [OF demo_broken_reachable demo_polls_run_dry]) simp

text \<open>C13: With \<open>pg_amqp.max_body_bytes\<close> set, no call hands the library a body longer than the limit,
  on either channel, and every publish of the call carries the body that was passed to it.\<close>

theorem publish_respects_body_limit:
  assumes "pg_reachable E st" and "pg_amqp_publish_opt E g a ch st = Some (v, st')"
    and "0 < amqp_max_body_bytes g"
    and "filter is_sent (trace (bio st')) = filter is_sent (trace (bio st)) @ es"
    and "Sent (Basic_Publish c ch' q) rv \<in> set es"
  shows "int (length (body q)) \<le> amqp_max_body_bytes g \<and> ch' = ch \<and>
         body q = or_default [] (arg_body a)"
proof -
  note ok = pg_reachable_brokers_ok [OF assms(1)]
  obtain i where i: "arg_broker_id a = Some i"
    using assms(2,4,5) by (cases "arg_broker_id a") (auto simp: pg_amqp_publish_opt_def)
  obtain fs where fs: "filter is_sent (trace (bio st')) = filter is_sent (trace (bio st)) @ fs"
    "call_sent a ch v (conn (bs_of i st')) fs"
    using publish_opt_sent [OF assms(2) ok i] by blast
  with assms(4,5) have q: "q = request_of a" "ch' = ch" by (auto simp: call_sent_def)
  have body: "body (request_of a) = or_default [] (arg_body a)"
    by (simp add: request_of_def build_request_def case_prod_beta Let_def)
  have "body_too_large g a = None"
  proof (rule ccontr)
    assume "body_too_large g a \<noteq> None"
    then obtain n where "body_too_large g a = Some n" by blast
    then have "bio st' = warn (W_Body_Too_Large n (amqp_max_body_bytes g)) (bio st)"
      using assms(2) i by (auto simp: pg_amqp_publish_opt_def)
    with assms(4,5) show False by (simp add: trace_simps)
  qed
  then show ?thesis
    using q body assms(3)
    by (auto simp: body_too_large_def or_default_def not_less split: option.splits if_splits)
qed

definition demo_limit :: gucs where
  "demo_limit = default_gucs\<lparr>amqp_max_body_bytes := 2\<rparr>"

lemma demo_publish_limit:
  "pg_amqp_publish_opt demo demo_limit demo_args 2 (pg_init demo_up) = Some (True, demo_buffered)"
  by (simp add: run_demo demo_limit_def)

theorem publish_respects_body_limit_witness:
  "int (length (body demo_request)) \<le> amqp_max_body_bytes demo_limit \<and> (2::nat) = 2 \<and>
   body demo_request = or_default [] (arg_body demo_args)"
  by (rule publish_respects_body_limit [OF demo_reach_init demo_publish_limit,
        of "[Sent (Basic_Publish 5 2 demo_request) 0]" 5 2 _ 0])
     (simp_all add: demo_limit_def pg_init_def demo_buffered_def demo_connect_trace_def
       demo_publish_trace_def)

text \<open>C14: A broker that has signalled back-pressure is not published to: if the poll before a publish
  leaves the connection usable but blocked, the call returns false without handing anything to the
  library, the buffer and the connection stay, and the refusal is logged.\<close>

theorem publish_refuses_when_blocked:
  assumes "pg_reachable E st" and "arg_broker_id a = Some i" and "body_too_large g a = None"
    and "conn (bs_of i st) = Some c" and "ch = 1 \<or> \<not> inerror (bs_of i st)"
    and "local_amqp_drain_returns E (bs_of i st) (bio st) = Some (True, b1, s1)" and "blocked b1"
  shows "\<exists>st'. pg_amqp_publish_opt E g a ch st = Some (False, st') \<and>
    filter is_sent (trace (bio st')) = filter is_sent (trace (bio st)) \<and>
    Warn (W_Publish_Blocked i) \<in> set (trace (bio st')) \<and>
    bs_of i st' = (bs_of i st)\<lparr>blocked := True\<rparr>"
proof -
  note ok = pg_reachable_brokers_ok [OF assms(1)]
  have get: "fst (local_amqp_get_bs E g i st) = bs_of i st"
    "bio (snd (local_amqp_get_bs E g i st)) = bio st"
    using get_bs_connected [of i st E g] assms(4) by simp_all
  obtain w where "b1 = (bs_of i st)\<lparr>blocked := w\<rparr>" using drain_returns_effect [OF assms(6)] by blast
  with assms(7) have b1: "b1 = (bs_of i st)\<lparr>blocked := True\<rparr>" by simp
  let ?s = "warn (W_Publish_Blocked (broker_id b1)) s1"
  have att: "publish_attempt E a ch True (fst (local_amqp_get_bs E g i st))
      (bio (snd (local_amqp_get_bs E g i st))) = Some (Return False, b1, ?s)"
    unfolding get using assms(4-7) by (auto simp: publish_attempt_def)
  define st' where st': "st' = (snd (local_amqp_get_bs E g i st))
      \<lparr>head_bs := put_bs b1 (head_bs (snd (local_amqp_get_bs E g i st))), bio := ?s\<rparr>"
  have "pg_amqp_publish_opt E g a ch st = Some (False, st')"
    using publish_redo_step [OF att st'] assms(2,3) by (simp add: pg_amqp_publish_opt_def)
  moreover have "bs_of i st' = b1" using publish_pass [OF ok att st'] by simp
  moreover have "bio st' = ?s" by (simp add: st')
  ultimately show ?thesis
    using drain_sent [OF assms(6)] by (simp add: trace_simps b1)
qed

definition demo_blocked :: "demo_world backend" where
  "demo_blocked = demo_buffered\<lparr>bio := (bio demo_buffered)
     \<lparr>world := demo_world1\<lparr>inbox := [Method_Frame Connection_Blocked]\<rparr>\<rparr>\<rparr>"

lemma demo_blocked_reachable: "pg_reachable demo demo_blocked"
  unfolding demo_blocked_def by (rule reach_step [OF demo_buffered_reachable step_world])

theorem publish_refuses_when_blocked_witness:
  "\<exists>st'. pg_amqp_publish_opt demo default_gucs demo_args 2 demo_blocked = Some (False, st') \<and>
    filter is_sent (trace (bio st')) = filter is_sent (trace (bio demo_blocked)) \<and>
    Warn (W_Publish_Blocked 1) \<in> set (trace (bio st')) \<and>
    bs_of 1 st' = (bs_of 1 demo_blocked)\<lparr>blocked := True\<rparr>"
proof -
  obtain ok b1 s1 where d:
    "local_amqp_drain_returns demo (bs_of 1 demo_blocked) (bio demo_blocked) = Some (ok, b1, s1)"
    using drain_returns_terminates [OF demo_polls_run_dry] by (metis option.exhaust prod_cases3)
  then have "ok \<and> blocked b1"
    by (simp add: run_demo demo_blocked_def bs_of_def split: if_splits) auto
  with d have d': "local_amqp_drain_returns demo (bs_of 1 demo_blocked) (bio demo_blocked) =
      Some (True, b1, s1)" and "blocked b1" by simp_all
  then show ?thesis
    by (intro publish_refuses_when_blocked [OF demo_blocked_reachable _ _ _ _ d', where c = 5])
       (simp_all add: demo_args_def body_too_large_def default_gucs_def bs_of_def demo_blocked_def
         demo_buffered_def demo_bs_def local_amqp_get_a_bs_def)
qed

section \<open>The backoff window\<close>

lemma reconnect_jitter_range: "0 \<le> reconnect_jitter E \<and> reconnect_jitter E \<le> 2"
  using pid_mod_range [of 3 E]
  by (simp add: reconnect_jitter_def AMQP_RECONNECT_BACKOFF_BASE_SEC_def)

lemma backoff_window_value:
  assumes "0 < k"
  shows "backoff_window u k j = (if k = 1 then 4 else if k = 2 then 8 else if k = 3 then 16 else 30) + j"
proof -
  consider "k = 1" | "k = 2" | "k = 3" | "k = 4" | "k > 4" using assms by linarith
  then show ?thesis
    by cases (simp_all add: backoff_window_def shift_left32_def AMQP_RECONNECT_BACKOFF_BASE_SEC_def
        AMQP_RECONNECT_BACKOFF_CAP_SEC_def Let_def)
qed

text \<open>The first thing an attempt to connect does: look up the hosts, or open a connection.\<close>

definition first_attempt_call :: "brokerstate \<Rightarrow> mq_call" where
  "first_attempt_call b = (if hosts b = None then Spi_Connect else New_Connection)"

lemma load_hosts_first:
  "hosts b = None \<Longrightarrow>
     \<exists>es. trace (snd (snd (local_amqp_load_hosts E b s))) = trace s @ Call Spi_Connect # es"
proof -
  assume none: "hosts b = None"
  let ?q = "do_query (spi_connect E) Spi_Connect s"
  have q: "trace (snd ?q) = trace s @ [Call Spi_Connect]" by (simp add: trace_simps)
  have "grows (\<lambda>_. True) (snd ?q) (snd (snd (local_amqp_load_hosts E b s)))"
    unfolding local_amqp_load_hosts_def none Let_def case_prod_beta
    by (auto intro!: grows_steps grows_mono [OF load_rows_connect] split: option.split list.split)
  with q show ?thesis by (auto simp: grows_def)
qed

lemma connect_hosts_first:
  assumes "0 < n"
  shows "\<exists>es. trace (snd (snd (connect_hosts E g d n b s))) = trace s @ Call New_Connection # es"
proof -
  obtain m where n: "n = Suc m" using assms by (cases n) auto
  let ?q = "do_query (new_connection E) New_Connection s"
  have q: "trace (snd ?q) = trace s @ [Call New_Connection]" by (simp add: trace_simps)
  have "grows is_connect_event (snd ?q) (snd (snd (connect_hosts E g d n b s)))"
    unfolding n
    by (auto simp: Let_def case_prod_beta local_amqp_now_ms_def split: option.split
        intro!: grows_steps try_host_connect grows_disconnect_hard connect_hosts_connect)
  with q show ?thesis by (auto simp: grows_def)
qed

lemma trace_record_failure [simp]: "trace (snd (record_connect_failure E b s)) = trace s"
  by (simp add: record_connect_failure_def case_prod_beta trace_simps)

text \<open>Outside the window the attempt is made, and ends connected or with one more failure.\<close>

lemma connect_bs_attempt:
  assumes ok: "bs_ok b" and none: "conn b = None" and out: "\<not> fst (in_backoff E b s)"
  shows "(\<exists>es. trace (snd (connect_bs E g b s)) = trace s @ Call (first_attempt_call b) # es) \<and>
    (if conn (fst (connect_bs E g b s)) = None
     then consecutive_failures (fst (connect_bs E g b s)) = int32 (consecutive_failures b + 1) \<and>
          (\<exists>u. last_failed_connect (fst (connect_bs E g b s)) = fst (time_now E u))
     else consecutive_failures (fst (connect_bs E g b s)) = 0 \<and>
          last_failed_connect (fst (connect_bs E g b s)) = 0)"
proof -
  let ?w = "in_backoff E b s"
  let ?l = "local_amqp_load_hosts E b (snd ?w)"
  let ?b2 = "fst (snd ?l)"
  let ?d = "if amqp_connect_budget_ms g > 0
              then (fst (local_amqp_now_ms E (snd (snd ?l))) + amqp_connect_budget_ms g,
                    snd (local_amqp_now_ms E (snd (snd ?l))))
              else (0, snd (snd ?l))"
  let ?c = "connect_hosts E g (fst ?d) (nat (nhosts ?b2)) ?b2 (snd ?d)"
  have hok: "hosts_ok b" and core: "bs_core b" using ok by (simp_all add: bs_ok_def bs_core_def)
  have w: "trace (snd ?w) = trace s"
    by (simp add: in_backoff_def case_prod_beta Let_def trace_simps)
  have d: "trace (snd ?d) = trace (snd (snd ?l))"
    by (simp add: local_amqp_now_ms_def case_prod_beta Let_def trace_simps)
  note fr = load_hosts_frame [OF hok, of E "snd ?w"]
  have rec: "\<exists>u. last_failed_connect (fst (record_connect_failure E x y)) = fst (time_now E u)" for x y
    by (auto simp: record_connect_failure_def do_read_def case_prod_beta)
  show ?thesis
  proof (cases "fst ?l \<le> 0")
    case True
    then have eq: "connect_bs E g b s = record_connect_failure E ?b2 (snd (snd ?l))"
      using none out by (simp add: connect_bs_def Let_def case_prod_beta)
    have "hosts b = None"
      using True hok by (auto simp: local_amqp_load_hosts_def hosts_ok_def split: option.splits)
    then have "\<exists>es. trace (snd (snd ?l)) = trace s @ Call (first_attempt_call b) # es"
      using load_hosts_first [of b E "snd ?w"] w by (simp add: first_attempt_call_def)
    then show ?thesis
      using eq fr none rec [of ?b2 "snd (snd ?l)"]
      by (simp add: trace_record_failure)
  next
    case False
    then have eq: "connect_bs E g b s =
        (if fst ?c then (fst (snd ?c), snd (snd ?c))
         else record_connect_failure E (fst (snd ?c)) (snd (snd ?c)))"
      using none out by (simp add: connect_bs_def Let_def case_prod_beta)
    have tr: "trace (snd (connect_bs E g b s)) = trace (snd (snd ?c))"
      unfolding eq by (simp add: trace_record_failure)
    have res: "connect_result ?b2 (fst ?c) (fst (snd ?c))"
      using load_hosts_core [OF core] fr none False by (intro connect_hosts_result) simp_all
    have "\<exists>es. trace (snd (connect_bs E g b s)) = trace s @ Call (first_attempt_call b) # es"
    proof (cases "hosts b")
      case None
      from load_hosts_first [OF this, of E "snd ?w"] obtain es
        where "trace (snd (snd ?l)) = trace s @ Call Spi_Connect # es" using w by auto
      moreover obtain fs where "trace (snd (snd ?c)) = trace (snd ?d) @ fs"
        using connect_hosts_connect [OF grows_same] unfolding grows_def by blast
      ultimately show ?thesis using None tr d by (simp add: first_attempt_call_def)
    next
      case (Some hs)
      then have l: "?l = (nhosts b, b, snd ?w)" by (simp add: local_amqp_load_hosts_def)
      then have pos: "0 < nat (nhosts ?b2)" using False by simp
      have "trace (snd (snd ?l)) = trace s" using l w by simp
      then have "trace (snd ?d) = trace s" using d by (rule trans [rotated])
      with connect_hosts_first [OF pos, of E g "fst ?d" ?b2 "snd ?d"] tr Some show ?thesis
        by (simp only: first_attempt_call_def option.distinct if_False)
    qed
    with res eq fr rec show ?thesis by (auto simp: connect_result_def split: if_splits)
  qed
qed

text \<open>C15: After \<open>k\<close> failed attempts in a row a broker is left alone for 4, 8 or 16 seconds, for
  \<open>k\<close> = 1, 2, 3, and for 30 seconds from the fourth on, plus the process id (read as unsigned) modulo 3:
  inside that window \<open>local_amqp_get_bs\<close> reads the clock and changes nothing, without any outside call or
  log line.  Once the window is over it does make an attempt, which starts with the lookup of the
  hosts, or with a new connection when they are cached, and which ends either connected with the
  failure record cleared, or unconnected with one more failure counted and its time recorded.\<close>

theorem backoff_schedule:
  assumes "bs_ok b" and "conn b = None" and "last_failed_connect b \<noteq> 0"
    and "consecutive_failures b = k" and "0 < k" and "time_now E (world s) = (t, w)"
  shows "if t - last_failed_connect b <
            (if k = 1 then 4 else if k = 2 then 8 else if k = 3 then 16 else 30) +
              my_proc_pid E mod 2 ^ 32 mod 3
         then connect_bs E g b s = (b, s\<lparr>world := w\<rparr>)
         else \<exists>es b' s'. connect_bs E g b s = (b', s') \<and>
           trace s' = trace s @ Call (if hosts b = None then Spi_Connect else New_Connection) # es \<and>
           (if conn b' = None
            then consecutive_failures b' = int32 (k + 1) \<and>
                 (\<exists>u. last_failed_connect b' = fst (time_now E u))
            else consecutive_failures b' = 0 \<and> last_failed_connect b' = 0)"
proof -
  have win: "in_backoff E b s =
      (t - last_failed_connect b <
         (if k = 1 then 4 else if k = 2 then 8 else if k = 3 then 16 else 30) +
           my_proc_pid E mod 2 ^ 32 mod 3, s\<lparr>world := w\<rparr>)"
    using assms(3,6) by (simp add: in_backoff_def do_read_def assms(4) backoff_window_value [OF assms(5)]
        reconnect_jitter_def pid_mod_def AMQP_RECONNECT_BACKOFF_BASE_SEC_def)
  show ?thesis
  proof (cases "fst (in_backoff E b s)")
    case True
    then have "connect_bs E g b s = (b, s\<lparr>world := w\<rparr>)" using assms(2) win by (simp add: connect_bs_def)
    then show ?thesis using True unfolding win fst_conv by (simp only: if_True)
  next
    case False
    have "\<exists>es b' s'. connect_bs E g b s = (b', s') \<and>
           trace s' = trace s @ Call (if hosts b = None then Spi_Connect else New_Connection) # es \<and>
           (if conn b' = None
            then consecutive_failures b' = int32 (k + 1) \<and>
                 (\<exists>u. last_failed_connect b' = fst (time_now E u))
            else consecutive_failures b' = 0 \<and> last_failed_connect b' = 0)"
      using connect_bs_attempt [OF assms(1,2) False, of g]
      unfolding first_attempt_call_def assms(4) by (metis prod.collapse)
    then show ?thesis using False unfolding win fst_conv by (simp only: if_False)
  qed
qed

text \<open>Inside the window a publish on a disconnected broker returns false at once: it makes no
  call to the library, no lookup and no log line, and leaves the broker state as it is.\<close>

theorem publish_in_backoff_is_silent:
  assumes "pg_reachable E st" and "arg_broker_id a = Some i" and "body_too_large g a = None"
    and "conn (bs_of i st) = None" and "last_failed_connect (bs_of i st) \<noteq> 0"
    and "time_now E (world (bio st)) = (t, w)"
    and "t - last_failed_connect (bs_of i st) <
           backoff_window (undefined_shift E) (consecutive_failures (bs_of i st)) (reconnect_jitter E)"
  shows "\<exists>st'. pg_amqp_publish_opt E g a ch st = Some (False, st') \<and>
           trace (bio st') = trace (bio st) \<and> bs_of i st' = bs_of i st"
proof -
  note ok = pg_reachable_brokers_ok [OF assms(1)]
  let ?s = "(bio st)\<lparr>world := w\<rparr>"
  have "connect_bs E g (bs_of i st) (bio st) = (bs_of i st, ?s)"
    using assms(4-7) by (simp add: connect_bs_def in_backoff_def do_read_def)
  then have get: "fst (local_amqp_get_bs E g i st) = bs_of i st"
    "bio (snd (local_amqp_get_bs E g i st)) = ?s"
    by (simp_all add: local_amqp_get_bs_def bs_of_def case_prod_beta)
  have att: "publish_attempt E a ch True (fst (local_amqp_get_bs E g i st))
      (bio (snd (local_amqp_get_bs E g i st))) = Some (Return False, bs_of i st, ?s)"
    unfolding get using assms(4) by (simp add: publish_attempt_def)
  define st' where st': "st' = (snd (local_amqp_get_bs E g i st))
      \<lparr>head_bs := put_bs (bs_of i st) (head_bs (snd (local_amqp_get_bs E g i st))), bio := ?s\<rparr>"
  have "pg_amqp_publish_opt E g a ch st = Some (False, st')"
    using publish_redo_step [OF att st'] assms(2,3) by (simp add: pg_amqp_publish_opt_def)
  moreover have "bs_of i st' = bs_of i st" using publish_pass [OF ok att st'] by simp
  ultimately show ?thesis by (simp add: st')
qed

definition demo_down :: demo_world where
  "demo_down = \<lparr>next_handle = 5, inbox = [], clock = 100, broken = True\<rparr>"

definition demo_failed :: "demo_world backend" where
  "demo_failed = snd (the (pg_amqp_publish demo default_gucs demo_args (pg_init demo_down)))"

lemma demo_failed_step:
  "pg_amqp_publish demo default_gucs demo_args (pg_init demo_down) = Some (False, demo_failed)"
  by (simp add: run_demo demo_down_def demo_failed_def record_connect_failure_def
      local_amqp_disconnect_bs_def)

lemma demo_failed_reachable: "pg_reachable demo demo_failed"
  by (rule reach_step [OF reach_init step_publish [OF demo_failed_step]])

lemma demo_failed_state:
  "conn (bs_of 1 demo_failed) = None \<and> last_failed_connect (bs_of 1 demo_failed) = 100 \<and>
   consecutive_failures (bs_of 1 demo_failed) = 1 \<and> clock (world (bio demo_failed)) = 100"
  by (simp add: run_demo demo_down_def demo_failed_def record_connect_failure_def
      local_amqp_disconnect_bs_def bs_of_def)

theorem publish_in_backoff_is_silent_witness:
  "\<exists>st'. pg_amqp_publish_opt demo default_gucs demo_args 2 demo_failed = Some (False, st') \<and>
     trace (bio st') = trace (bio demo_failed) \<and> bs_of 1 st' = bs_of 1 demo_failed"
proof (rule publish_in_backoff_is_silent [OF demo_failed_reachable,
      where t = 100 and w = "world (bio demo_failed)"])
  have "0 \<le> reconnect_jitter demo" using reconnect_jitter_range by blast
  then show "100 - last_failed_connect (bs_of 1 demo_failed)
      < backoff_window (undefined_shift demo) (consecutive_failures (bs_of 1 demo_failed))
          (reconnect_jitter demo)"
    using demo_failed_state by (simp add: backoff_window_value)
qed (use demo_failed_state in
  \<open>simp_all add: demo_args_def body_too_large_def default_gucs_def demo_fields demo_time_def\<close>)

theorem backoff_schedule_witness:
  "if 104 - 100 < (4 + 4711 mod 2 ^ 32 mod 3 :: int)
   then connect_bs demo default_gucs (bs_of 1 demo_failed) \<lparr>world = demo_up\<lparr>clock := 104\<rparr>, trace = []\<rparr> =
     (bs_of 1 demo_failed, \<lparr>world = demo_up\<lparr>clock := 104\<rparr>, trace = []\<rparr>)
   else \<exists>es b' s'. connect_bs demo default_gucs (bs_of 1 demo_failed)
         \<lparr>world = demo_up\<lparr>clock := 104\<rparr>, trace = []\<rparr> = (b', s') \<and>
     trace s' = [] @ Call New_Connection # es \<and>
     (if conn b' = None
      then consecutive_failures b' = int32 2 \<and> (\<exists>u. last_failed_connect b' = fst (demo_time u))
      else consecutive_failures b' = 0 \<and> last_failed_connect b' = 0)"
proof -
  have ok: "bs_ok (bs_of 1 demo_failed)"
    by (rule bs_of_ok [OF pg_reachable_brokers_ok [OF demo_failed_reachable]])
  have hosts: "hosts (bs_of 1 demo_failed) \<noteq> None"
    by (simp add: run_demo demo_down_def demo_failed_def record_connect_failure_def
        local_amqp_disconnect_bs_def bs_of_def)
  show ?thesis
    using backoff_schedule [OF ok, of 1 demo "\<lparr>world = demo_up\<lparr>clock := 104\<rparr>, trace = []\<rparr>" 104
        "demo_up\<lparr>clock := 104\<rparr>" default_gucs] demo_failed_state hosts
    by (simp add: demo_fields demo_time_def)
qed

section \<open>Connecting\<close>

text \<open>A connection made from scratch: the failover loop ran and succeeded.\<close>

lemma connect_bs_fresh:
  fixes E :: "'w rabbitmq" and s :: "'w io"
  assumes ok: "bs_ok b" and none: "conn b = None" and c: "conn (fst (connect_bs E g b s)) = Some c"
  obtains d b2 and s2 :: "'w io" where "bs_core b2" "conn b2 = None" "hosts b2 \<noteq> None"
    "grows is_connect_event s s2"
    "fst (connect_hosts E g d (nat (nhosts b2)) b2 s2)"
    "connect_bs E g b s = snd (connect_hosts E g d (nat (nhosts b2)) b2 s2)"
proof -
  let ?w = "in_backoff E b s"
  let ?l = "local_amqp_load_hosts E b (snd ?w)"
  let ?b2 = "fst (snd ?l)"
  let ?d = "if amqp_connect_budget_ms g > 0
              then (fst (local_amqp_now_ms E (snd (snd ?l))) + amqp_connect_budget_ms g,
                    snd (local_amqp_now_ms E (snd (snd ?l))))
              else (0, snd (snd ?l))"
  let ?c = "connect_hosts E g (fst ?d) (nat (nhosts ?b2)) ?b2 (snd ?d)"
  have hok: "hosts_ok b" using ok by (simp add: bs_ok_def bs_core_def)
  have l: "conn ?b2 = None" "bs_core ?b2" "0 < fst ?l \<Longrightarrow> hosts ?b2 \<noteq> None"
    using load_hosts_frame [OF hok, of E "snd ?w"] load_hosts_core [of b E "snd ?w"] ok none
    by (auto simp: bs_ok_def)
  have no: "\<not> fst ?w" "0 < fst ?l"
    using c none l(1) by (auto simp: connect_bs_def Let_def case_prod_beta not_le split: if_splits)
  then have eq: "connect_bs E g b s =
      (if fst ?c then (fst (snd ?c), snd (snd ?c))
       else record_connect_failure E (fst (snd ?c)) (snd (snd ?c)))"
    using none by (simp add: connect_bs_def Let_def case_prod_beta)
  have "connect_result ?b2 (fst ?c) (fst (snd ?c))"
    using l no by (intro connect_hosts_result) simp_all
  then have suc: "fst ?c" using c eq by (auto simp: connect_result_def split: if_splits)
  have "grows is_connect_event s (snd ?w)"
    by (auto simp: in_backoff_def case_prod_beta Let_def intro!: grows_steps)
  then have "grows is_connect_event s (snd (snd ?l))" by (rule load_hosts_connect)
  then have "grows is_connect_event s (snd ?d)"
    by (auto simp: local_amqp_now_ms_def case_prod_beta Let_def intro!: grows_steps)
  then show thesis using that [of ?b2 "snd ?d" "fst ?d"] l no suc eq by simp
qed

text \<open>C16: A broker state without a connection only becomes connected by a complete handshake: the
  last four synchronous calls of the run are the login with the cached credentials of the host the
  index points to, the opening of channels 1 and 2, and \<open>tx.select\<close> on channel 2, each of them
  acknowledged; nothing is counted as buffered and the failure record is cleared.\<close>

theorem connect_completes_handshake:
  assumes "bs_ok b" and "conn b = None" and "connect_bs E g b s = (b', s')" and "conn b' = Some c"
  shows "(\<exists>h rpcs. hosts b' \<noteq> None \<and> h = the (hosts b') ! nat (idx b') \<and>
            filter is_rpc (trace s') = rpcs @
             [Rpc (Login c (vhost h) 0 131072 0 client_properties (user h) (pass h)) Response_Normal,
              Rpc (Channel_Open c 1) Response_Normal, Rpc (Channel_Open c 2) Response_Normal,
              Rpc (Tx_Select c 2) Response_Normal]) \<and>
         uncommitted b' = 0 \<and> consecutive_failures b' = 0 \<and> last_failed_connect b' = 0"
proof -
  have c: "conn (fst (connect_bs E g b s)) = Some c" using assms(3,4) by simp
  obtain d b2 s2 where b2: "bs_core b2" "conn b2 = None" "hosts b2 \<noteq> None"
    and suc: "fst (connect_hosts E g d (nat (nhosts b2)) b2 s2)"
    and eq: "connect_bs E g b s = snd (connect_hosts E g d (nat (nhosts b2)) b2 s2)"
    using connect_bs_fresh [OF assms(1,2) c] by metis
  let ?c = "connect_hosts E g d (nat (nhosts b2)) b2 s2"
  have b': "fst (snd ?c) = b'" "snd (snd ?c) = s'"
    unfolding eq [symmetric] by (simp_all add: assms(3))
  have "connect_result b2 True b'"
    using connect_hosts_result [OF b2, of E g d "nat (nhosts b2)" s2] suc b' by simp
  moreover from connect_hosts_handshake [OF suc] obtain c' rpcs where
    "conn b' = Some c'" "filter is_rpc (trace s') = rpcs @ handshake c' (next_host_of b')"
    unfolding b' by blast
  ultimately show ?thesis
    using assms(4) b2(3)
    by (auto simp: connect_result_def handshake_def login_call_def next_host_of_def)
qed

lemma demo_connect:
  "connect_bs demo default_gucs (fresh_bs 1) \<lparr>world = demo_up, trace = []\<rparr> =
     (demo_bs 0 False, \<lparr>world = demo_world1, trace = demo_connect_trace\<rparr>)"
  by (simp add: run_demo)

theorem connect_completes_handshake_witness:
  "\<exists>rpcs. filter is_rpc demo_connect_trace = rpcs @
     [Rpc (Login 5 ''/'' 0 131072 0 client_properties ''guest'' ''guest'') Response_Normal,
      Rpc (Channel_Open 5 1) Response_Normal, Rpc (Channel_Open 5 2) Response_Normal,
      Rpc (Tx_Select 5 2) Response_Normal]"
  using connect_completes_handshake [OF fresh_bs_ok _ demo_connect, of 5]
  by (auto simp: fresh_bs_def demo_bs_def demo_host_def)

section \<open>Failover\<close>

text \<open>The hosts a run opened a socket to.\<close>

fun opened_by :: "event \<Rightarrow> (string \<times> int) list" where
  "opened_by (Call (Socket_Open c h p t)) = [(h, p)]"
| "opened_by _ = []"

definition opened :: "event list \<Rightarrow> (string \<times> int) list" where
  "opened es = concat (map opened_by es)"

lemma opened_simps [simp]:
  "opened [] = []" "opened (es @ fs) = opened es @ opened fs" "opened (e # es) = opened_by e @ opened es"
  by (simp_all add: opened_def)

lemma opened_quiet:
  "grows P s t \<Longrightarrow> (\<And>e. P e \<Longrightarrow> opened_by e = []) \<Longrightarrow> opened (trace t) = opened (trace s)"
  by (auto simp: grows_def list_all_iff opened_def)

lemma opened_set_timeout [simp]:
  "opened (trace (local_amqp_set_timeout E b ms s)) = opened (trace s)"
  by (rule opened_quiet [OF set_timeout_grows]) (auto elim: is_timeout_event.elims)

lemma opened_set_keepalive [simp]:
  "opened (trace (local_amqp_set_keepalive E fd s)) = opened (trace s)"
  by (simp add: local_amqp_set_keepalive_def trace_simps)

lemma opened_ssl_configure [simp]: "opened (trace (ssl_configure E c h s)) = opened (trace s)"
  by (simp add: ssl_configure_def Let_def trace_simps split: option.split)

lemma opened_try_host:
  "\<exists>xs. opened (trace (snd (snd (try_host E g c h b s)))) = opened (trace s) @ xs \<and>
        xs \<in> {[], [(host h, port h)]}"
  by (simp add: try_host_def Let_def case_prod_beta local_amqp_open_socket_def
      local_amqp_login_def trace_simps)

lemma opened_disconnect_hard [simp]:
  "opened (trace (snd (local_amqp_disconnect_bs E b False s))) = opened (trace s)"
  by (simp add: disconnect_hard_trace split: option.split)

text \<open>The \<open>j\<close>-th host after the one the index points to.\<close>

definition rotation_host :: "brokerstate \<Rightarrow> nat \<Rightarrow> string \<times> int" where
  "rotation_host b j =
     (let h = the (hosts b) ! nat ((idx b + 1 + int j) mod nhosts b) in (host h, port h))"

lemma rotation_host_next:
  "hosts b' = hosts b \<Longrightarrow> nhosts b' = nhosts b \<Longrightarrow> idx b' = (idx b + 1) mod nhosts b \<Longrightarrow>
     rotation_host b' j = rotation_host b (Suc j)"
proof -
  assume b': "hosts b' = hosts b" "nhosts b' = nhosts b" "idx b' = (idx b + 1) mod nhosts b"
  have "((idx b + 1) mod nhosts b + (1 + int j)) mod nhosts b =
      (idx b + 1 + (1 + int j)) mod nhosts b" by (rule mod_add_left_eq)
  then show ?thesis by (simp add: rotation_host_def Let_def b' algebra_simps)
qed

lemma subseq_one: "xs \<in> {[], [x]} \<Longrightarrow> subseq ys zs \<Longrightarrow> subseq (xs @ ys) (x # zs)"
  by auto

lemma connect_hosts_opened:
  "\<exists>xs. opened (trace (snd (snd (connect_hosts E g d n b s)))) = opened (trace s) @ xs \<and>
        subseq xs (map (rotation_host b) [0..<n])"
proof (induction n arbitrary: b s)
  case (Suc n)
  let ?b1 = "b\<lparr>idx := (idx b + 1) mod nhosts b\<rparr>"
  let ?q = "do_query (new_connection E) New_Connection s"
  have zero: "map (rotation_host b) [0..<Suc n] =
      rotation_host b 0 # map (\<lambda>j. rotation_host b (Suc j)) [0..<n]"
    by (simp add: upt_conv_Cons map_Suc_upt [symmetric] comp_def del: upt_Suc)
  show ?case
  proof (cases "fst ?q")
    case None
    then show ?thesis
      by (intro exI [where x = "[]"]) (simp add: Let_def case_prod_beta trace_simps del: upt_Suc)
  next
    case (Some c)
    let ?h = "the (hosts ?b1) ! nat (idx ?b1)"
    let ?t = "try_host E g c ?h (?b1\<lparr>conn := Some c\<rparr>) (snd ?q)"
    let ?d = "local_amqp_disconnect_bs E (fst (snd ?t)) False (snd (snd ?t))"
    obtain xs where xs: "opened (trace (snd (snd ?t))) = opened (trace s) @ xs"
      "xs \<in> {[], [rotation_host b 0]}"
      using opened_try_host [of E g c ?h "?b1\<lparr>conn := Some c\<rparr>" "snd ?q"]
      by (auto simp: rotation_host_def Let_def trace_simps)
    have only: "subseq xs (map (rotation_host b) [0..<Suc n])"
      unfolding zero using subseq_one [OF xs(2), of "[]"] by simp
    have "rotation_host (fst ?d) = (\<lambda>j. rotation_host b (Suc j))"
      by (rule ext, rule rotation_host_next) (simp_all add: try_host_simps)
    then have more: "\<exists>ys. opened (trace (snd (snd (connect_hosts E g d n (fst ?d) t)))) =
        opened (trace t) @ ys \<and> subseq (xs @ ys) (map (rotation_host b) [0..<Suc n])" for t
      using Suc.IH [of "fst ?d" t] subseq_one [OF xs(2)] unfolding zero by metis
    have now: "opened (trace (snd (local_amqp_now_ms E t))) = opened (trace t)" for t
      by (simp add: local_amqp_now_ms_def case_prod_beta Let_def trace_simps)
    show ?thesis
    proof (cases "fst ?t")
      case True
      with Some have "snd (snd (connect_hosts E g d (Suc n) b s)) = snd (snd ?t)"
        by (simp add: Let_def case_prod_beta)
      with xs(1) only show ?thesis by metis
    next
      case False
      let ?e = "if d = 0 then (False, snd ?d)
                else (d \<le> fst (local_amqp_now_ms E (snd ?d)), snd (local_amqp_now_ms E (snd ?d)))"
      let ?u = "if Suc n > 1 then warn (W_Next_Host (host ?h) (port ?h)) (snd ?e) else snd ?e"
      have e: "opened (trace (snd ?e)) = opened (trace s) @ xs" using xs(1) by (simp add: now)
      have run: "snd (snd (connect_hosts E g d (Suc n) b s)) =
          (if fst ?e then warn (W_Budget_Exhausted (amqp_connect_budget_ms g) (broker_id b)) (snd ?e)
           else snd (snd (connect_hosts E g d n (fst ?d) ?u)))"
        using Some False by (simp add: Let_def case_prod_beta)
      show ?thesis
      proof (cases "fst ?e")
        case True
        with run e only show ?thesis
          by (intro exI [where x = xs]) (simp only: if_True trace_simps, simp)
      next
        case no: False
        obtain ys where "opened (trace (snd (snd (connect_hosts E g d n (fst ?d) ?u)))) =
            opened (trace ?u) @ ys" "subseq (xs @ ys) (map (rotation_host b) [0..<Suc n])"
          using more by blast
        moreover have "opened (trace ?u) = opened (trace s) @ xs"
          using e by (simp add: trace_simps)
        ultimately show ?thesis
          unfolding run if_not_P [OF no] by (intro exI [where x = "xs @ ys"]) simp
      qed
    qed
  qed
qed simp

text \<open>C17: One failover walk tries each cached host at most once, in the cyclic order that starts
  after the host the index points to: the sockets it opens are a subsequence of that rotation.\<close>

theorem failover_order:
  assumes "hosts_ok b" and "hosts b = Some hs"
  shows "\<exists>xs. opened (trace (snd (snd (connect_hosts E g d (nat (nhosts b)) b s)))) =
            opened (trace s) @ xs \<and>
          subseq xs (map (\<lambda>j. let h = hs ! nat ((idx b + 1 + int j) mod int (length hs))
                             in (host h, port h)) [0..<length hs])"
proof -
  have n: "nhosts b = int (length hs)" using assms by (simp add: hosts_ok_def)
  then have "rotation_host b = (\<lambda>j. let h = hs ! nat ((idx b + 1 + int j) mod int (length hs))
                             in (host h, port h))"
    by (simp add: rotation_host_def assms(2) fun_eq_iff)
  with connect_hosts_opened [of E g d "nat (nhosts b)" b s] n show ?thesis by simp
qed

theorem failover_order_witness:
  "\<exists>xs. opened (trace (snd (snd (connect_hosts demo default_gucs 0 2 (demo_bs 0 False)
          (bio (pg_init demo_down)))))) = opened [] @ xs \<and>
        subseq xs [(''mq2'', 5672), (''mq1'', 5672)]"
proof -
  have "hosts_ok (demo_bs 0 False)" "hosts (demo_bs 0 False) = Some [demo_host ''mq1'', demo_host ''mq2'']"
    by (simp_all add: hosts_ok_def demo_bs_def demo_host_def)
  from failover_order [OF this, of demo default_gucs 0 "bio (pg_init demo_down)"] show ?thesis
    by (simp add: demo_bs_def demo_host_def pg_init_def numeral_2_eq_2 upt_conv_Cons)
qed

section \<open>Disconnecting\<close>

text \<open>\<open>amqp.disconnect\<close> forgets everything about the broker: whatever its state was, buffered
  messages, error flag, failure record, cached hosts and all, the broker state afterwards is that of
  a broker never used, and no other broker state changes.\<close>

theorem disconnect_resets:
  assumes "pg_reachable E st"
  shows "bs_of i (pg_amqp_disconnect E (Some i) st) = fresh_bs i \<and>
         others_kept i st (pg_amqp_disconnect E (Some i) st)"
proof -
  note ok = pg_reachable_brokers_ok [OF assms]
  let ?st1 = "st\<lparr>head_bs := snd (local_amqp_get_a_bs i (head_bs st))\<rparr>"
  let ?d = "local_amqp_disconnect_bs E (bs_of i st) True (bio st)"
  let ?b = "local_amqp_free_hosts (fst ?d\<lparr>inerror := False, idx := 0, consecutive_failures := 0,
    last_failed_connect := 0\<rparr>)"
  have dok: "bs_ok (fst ?d)" by (rule disconnect_bs_ok [OF bs_of_ok [OF ok]])
  have "bs_core (fst ?d)" and "conn (fst ?d) = None" and "broker_id (fst ?d) = i"
    using dok by (simp_all add: bs_ok_def)
  then have b: "?b = fresh_bs i"
    by (cases "fst ?d")
       (auto simp: local_amqp_free_hosts_def fresh_bs_def bs_core_def hosts_ok_def split: option.splits)
  have eq: "pg_amqp_disconnect E (Some i) st =
      ?st1\<lparr>head_bs := put_bs (fresh_bs i) (head_bs ?st1), bio := snd ?d\<rparr>"
    using b by (simp add: pg_amqp_disconnect_def local_amqp_disconnect_def bs_of_def case_prod_beta Let_def)
  have id: "broker_id (fresh_bs i) = i" by (simp add: fresh_bs_def)
  have mem: "i \<in> broker_id ` set (head_bs ?st1)"
    using get_a_bs_mem [of i "head_bs st"] get_a_bs_id [of i "head_bs st"] by force
  have "bs_of i (?st1\<lparr>head_bs := put_bs (fresh_bs i) (head_bs ?st1), bio := snd ?d\<rparr>) = fresh_bs i"
    by (rule bs_of_put [OF id mem])
  moreover have "others_kept i st (?st1\<lparr>head_bs := put_bs (fresh_bs i) (head_bs ?st1), bio := snd ?d\<rparr>)"
    using others_kept_get_a_bs others_kept_put [OF id] others_kept_trans by blast
  ultimately show ?thesis by (simp add: eq)
qed

theorem disconnect_resets_witness:
  "bs_of 1 (pg_amqp_disconnect demo (Some 1) demo_poisoned) = fresh_bs 1 \<and>
   others_kept 1 demo_poisoned (pg_amqp_disconnect demo (Some 1) demo_poisoned)"
  by (rule disconnect_resets [OF demo_poisoned_reachable])

section \<open>Calls on channel 1 and the buffer of channel 2\<close>

text \<open>The two channels share one connection, so a failed declaration destroys the buffered
  messages too: the call makes the declaration and destroys the connection, the count of buffered
  messages becomes 0, and nothing is logged about them.\<close>

theorem failed_declare_drops_buffer:
  assumes "pg_reachable E st" and "decl_broker_id a = Some i" and "conn (bs_of i st) = Some c"
    and "reply_type (fst (rpc_call E (Exchange_Declare c 1 (declare_request a)) (world (bio st)))) = rt"
    and "rt \<noteq> Response_Normal"
  shows "\<exists>st'. pg_amqp_exchange_declare E g a st = (False, st') \<and>
    trace (bio st') = trace (bio st) @ [Rpc (Exchange_Declare c 1 (declare_request a)) rt,
                                        Call (Destroy_Connection c)] \<and>
    uncommitted (bs_of i st') = 0 \<and> conn (bs_of i st') = None"
proof -
  note ok = pg_reachable_brokers_ok [OF assms(1)]
  let ?g = "local_amqp_get_bs E g i st"
  have get: "fst ?g = bs_of i st" "bio (snd ?g) = bio st"
    using get_bs_connected [of i st E g] assms(3) by simp_all
  let ?r = "do_rpc E (Exchange_Declare c 1 (declare_request a)) (bio st)"
  let ?d = "local_amqp_disconnect_bs E (bs_of i st) False (snd ?r)"
  let ?st' = "(snd ?g)\<lparr>head_bs := put_bs (fst ?d) (head_bs (snd ?g)), bio := snd ?d\<rparr>"
  have rt: "reply_type (fst ?r) = rt" using assms(4) by (simp add: do_rpc_def case_prod_beta)
  have "pg_amqp_exchange_declare E g a st = (False, ?st')"
    using assms(2,3,5) get rt by (simp add: pg_amqp_exchange_declare_def case_prod_beta)
  moreover have "bs_of i ?st' = fst ?d"
  proof (rule bs_of_put)
    show "i \<in> broker_id ` set (head_bs (snd ?g))" using get_bs_ok(3,4) [OF ok, of E g i] by force
  qed simp
  moreover have "uncommitted (fst ?d) = 0" by (rule disconnect_bs_uncommitted [OF bs_of_ok [OF ok]])
  ultimately show ?thesis using assms(3) rt by (simp add: disconnect_hard_trace trace_simps)
qed

theorem failed_declare_drops_buffer_witness:
  "uncommitted (bs_of 1 demo_broken) = 1 \<and>
   (\<exists>st'. pg_amqp_exchange_declare demo default_gucs demo_declare demo_broken = (False, st') \<and>
    trace (bio st') = trace (bio demo_broken) @
      [Rpc (Exchange_Declare 5 1 (declare_request demo_declare)) Response_Library_Exception,
       Call (Destroy_Connection 5)] \<and>
    uncommitted (bs_of 1 st') = 0 \<and> conn (bs_of 1 st') = None)"
proof
  show "uncommitted (bs_of 1 demo_broken) = 1"
    by (simp add: bs_of_def demo_broken_def demo_buffered_def demo_bs_def local_amqp_get_a_bs_def)
  show "\<exists>st'. pg_amqp_exchange_declare demo default_gucs demo_declare demo_broken = (False, st') \<and>
    trace (bio st') = trace (bio demo_broken) @
      [Rpc (Exchange_Declare 5 1 (declare_request demo_declare)) Response_Library_Exception,
       Call (Destroy_Connection 5)] \<and>
    uncommitted (bs_of 1 st') = 0 \<and> conn (bs_of 1 st') = None"
    by (rule failed_declare_drops_buffer [OF demo_broken_reachable])
       (simp_all add: demo_declare_def bs_of_def demo_broken_def demo_buffered_def demo_bs_def
         local_amqp_get_a_bs_def demo_fields demo_rpc_def)
qed

end
