(* ===== verification/Pg_Init.thy ===== *)
theory Pg_Init
  imports Pg_Steps
begin

text \<open>
  \<open>_PG_init\<close> of \<open>src/src/pg_amqp.c\<close>: the settings that the module defines, with their ranges, and the
  callbacks that it registers.  PostgreSQL sets a variable to its boot value when it is defined and
  refuses values outside its range later.
\<close>

datatype guc_unit = GUC_UNIT_MS | GUC_UNIT_BYTE

datatype guc_target =
    Connect_Timeout | Handshake_Timeout | Operation_Timeout | Commit_Timeout | Max_Body | Connect_Budget

record guc_variable =
  guc_name :: string
  target :: guc_target
  boot_val :: int
  min_val :: int
  max_val :: int
  unit_of :: guc_unit

definition INT_MAX :: int where "INT_MAX = 2147483647"

definition custom_int :: "string \<Rightarrow> guc_target \<Rightarrow> int \<Rightarrow> int \<Rightarrow> guc_unit \<Rightarrow> guc_variable" where
  "custom_int name t boot low u =
     \<lparr>guc_name = name, target = t, boot_val = boot, min_val = low, max_val = INT_MAX, unit_of = u\<rparr>"

definition PG_init_variables :: "guc_variable list" where
  "PG_init_variables =
     [custom_int ''pg_amqp.connect_timeout_ms'' Connect_Timeout 2000 1 GUC_UNIT_MS,
      custom_int ''pg_amqp.handshake_timeout_ms'' Handshake_Timeout 2000 1 GUC_UNIT_MS,
      custom_int ''pg_amqp.operation_timeout_ms'' Operation_Timeout 30000 1 GUC_UNIT_MS,
      custom_int ''pg_amqp.commit_timeout_ms'' Commit_Timeout 2000 1 GUC_UNIT_MS,
      custom_int ''pg_amqp.max_body_bytes'' Max_Body 0 0 GUC_UNIT_BYTE,
      custom_int ''pg_amqp.connect_budget_ms'' Connect_Budget 0 0 GUC_UNIT_MS]"

datatype registration = Register_Xact_Callback | Register_SubXact_Callback | Before_Shmem_Exit

definition PG_init_callbacks :: "registration list" where
  "PG_init_callbacks = [Register_Xact_Callback, Register_SubXact_Callback, Before_Shmem_Exit]"

fun put_guc :: "guc_target \<Rightarrow> int \<Rightarrow> gucs \<Rightarrow> gucs" where
  "put_guc Connect_Timeout v g = g\<lparr>amqp_connect_timeout_ms := v\<rparr>"
| "put_guc Handshake_Timeout v g = g\<lparr>amqp_handshake_timeout_ms := v\<rparr>"
| "put_guc Operation_Timeout v g = g\<lparr>amqp_operation_timeout_ms := v\<rparr>"
| "put_guc Commit_Timeout v g = g\<lparr>amqp_commit_timeout_ms := v\<rparr>"
| "put_guc Max_Body v g = g\<lparr>amqp_max_body_bytes := v\<rparr>"
| "put_guc Connect_Budget v g = g\<lparr>amqp_connect_budget_ms := v\<rparr>"

fun get_guc :: "guc_target \<Rightarrow> gucs \<Rightarrow> int" where
  "get_guc Connect_Timeout g = amqp_connect_timeout_ms g"
| "get_guc Handshake_Timeout g = amqp_handshake_timeout_ms g"
| "get_guc Operation_Timeout g = amqp_operation_timeout_ms g"
| "get_guc Commit_Timeout g = amqp_commit_timeout_ms g"
| "get_guc Max_Body g = amqp_max_body_bytes g"
| "get_guc Connect_Budget g = amqp_connect_budget_ms g"

definition define_variables :: "gucs \<Rightarrow> gucs" where
  "define_variables g = fold (\<lambda>v. put_guc (target v) (boot_val v)) PG_init_variables g"

definition set_variable :: "string \<Rightarrow> int \<Rightarrow> gucs \<Rightarrow> gucs option" where
  "set_variable name n g =
     (case find (\<lambda>v. guc_name v = name) PG_init_variables of
        None \<Rightarrow> None
      | Some v \<Rightarrow> if min_val v \<le> n \<and> n \<le> max_val v then Some (put_guc (target v) n g) else None)"

section \<open>Settings stay in range\<close>

definition gucs_ok :: "gucs \<Rightarrow> bool" where
  "gucs_ok g \<longleftrightarrow> list_all (\<lambda>v. min_val v \<le> get_guc (target v) g \<and> get_guc (target v) g \<le> max_val v) PG_init_variables"

lemma define_variables_default: "define_variables g = default_gucs"
  by (simp add: define_variables_def PG_init_variables_def custom_int_def default_gucs_def)

lemma default_gucs_ok: "gucs_ok default_gucs"
  by (simp add: gucs_ok_def PG_init_variables_def custom_int_def default_gucs_def INT_MAX_def)

lemma get_put_guc: "get_guc t (put_guc t' n g) = (if t = t' then n else get_guc t g)"
  by (cases t; cases t') simp_all

lemma targets_distinct:
  assumes "v \<in> set PG_init_variables" and "w \<in> set PG_init_variables" and "target v = target w"
  shows "v = w"
proof -
  have "distinct (map target PG_init_variables)"
    unfolding PG_init_variables_def custom_int_def by (simp only: list.map guc_variable.simps) simp
  with assms show ?thesis by (auto simp: distinct_map dest: inj_onD)
qed

lemma set_variable_ok:
  assumes "gucs_ok g" and "set_variable name n g = Some g'"
  shows "gucs_ok g'"
proof -
  from assms(2) obtain v where v: "find (\<lambda>v. guc_name v = name) PG_init_variables = Some v"
      "min_val v \<le> n" "n \<le> max_val v" "g' = put_guc (target v) n g"
    by (auto simp: set_variable_def split: option.splits if_splits)
  then have "v \<in> set PG_init_variables" by (auto simp: find_Some_iff)
  with assms(1) v(2-4) show ?thesis
    by (auto simp: gucs_ok_def list_all_iff get_put_guc dest: targets_distinct)
qed

text \<open>
  A timeout of zero would wait without an end: no settings that PostgreSQL accepts, in any order, make
  one of the phases of a connection wait without a bound.
\<close>

fun set_variables :: "(string \<times> int) list \<Rightarrow> gucs \<Rightarrow> gucs option" where
  "set_variables [] g = Some g"
| "set_variables ((name, n) # changes) g = Option.bind (set_variable name n g) (set_variables changes)"

lemma set_variables_ok: "gucs_ok g \<Longrightarrow> set_variables changes g = Some g' \<Longrightarrow> gucs_ok g'"
  by (induction changes g rule: set_variables.induct) (auto simp: bind_eq_Some_conv dest: set_variable_ok)

lemma gucs_ok_timeouts:
  "gucs_ok g \<Longrightarrow> 0 < amqp_connect_timeout_ms g \<and> 0 < amqp_handshake_timeout_ms g \<and>
    0 < amqp_operation_timeout_ms g \<and> 0 < amqp_commit_timeout_ms g"
  by (simp add: gucs_ok_def PG_init_variables_def custom_int_def)

theorem settings_bound_waiting:
  assumes "set_variables changes (define_variables g) = Some g'"
  shows "0 < amqp_connect_timeout_ms g' \<and> 0 < amqp_handshake_timeout_ms g' \<and>
    0 < amqp_operation_timeout_ms g' \<and> 0 < amqp_commit_timeout_ms g'"
  using assms set_variables_ok [OF default_gucs_ok] gucs_ok_timeouts
  unfolding define_variables_default by blast

end
