(* ===== verification/Wire.thy ===== *)
theory Wire
  imports Prelude
begin

text \<open>
  The byte-level macros of \<open>src/src/librabbitmq/amqp_private.h\<close> (\<open>CHECK_LIMIT\<close>, \<open>D_8\<close> ..
  \<open>D_BYTES\<close>, \<open>E_8\<close> .. \<open>E_BYTES\<close>) on an \<open>amqp_bytes_t\<close>, and the two little languages the
  generated code is written in: a decoder reads a buffer at a moving offset, an encoder writes
  one.  An error return is a value of a sum type, and so is undefined behaviour of C: reading or
  writing past the allocated bytes is \<open>Undefined Out_Of_Bounds\<close>.
\<close>

section \<open>Errors\<close>

datatype undefined_behaviour =
    Out_Of_Bounds | Null_Pointer | Shift_Too_Wide | Type_Confusion | Use_After_Free

text \<open>\<open>Os_Error\<close> is an \<open>errno\<close> of a system call; \<open>Aborted\<close> is a failed \<open>assert\<close> or \<open>amqp_assert\<close>.\<close>

datatype c_error =
    EFAULT | EINVAL | ENOENT | ENOMEM | EPROTOTYPE | EIO | ETIMEDOUT
  | Os_Error nat
  | Aborted
  | Undefined undefined_behaviour

section \<open>Buffers\<close>

text \<open>
  \<open>amqp_bytes_t\<close>: the length field, a \<open>size_t\<close> below \<open>2 ^ 64\<close>, and the bytes that are really
  there.  The two agree in a buffer that is \<open>honest\<close>; the code computes length fields by
  subtraction, so they need not.
\<close>

record cbuf =
  buf_len :: nat
  buf_bytes :: "byte list"

definition honest :: "cbuf \<Rightarrow> bool" where
  "honest b \<longleftrightarrow> buf_len b = length (buf_bytes b) \<and> buf_len b < 2 ^ 31"

definition CHECK_LIMIT :: "cbuf \<Rightarrow> nat \<Rightarrow> nat \<Rightarrow> bool" where
  "CHECK_LIMIT b off l \<longleftrightarrow> (off + l) mod 2 ^ 64 \<le> buf_len b"

section \<open>Big-endian integers\<close>

fun be_bytes :: "nat \<Rightarrow> nat \<Rightarrow> byte list" where
  "be_bytes 0 n = []"
| "be_bytes (Suc k) n = be_bytes k (n div 256) @ [word_of_nat n]"

definition be_nat :: "byte list \<Rightarrow> nat" where
  "be_nat bs = foldl (\<lambda>n b. 256 * n + unat b) 0 bs"

lemma length_be_bytes [simp]: "length (be_bytes k n) = k"
  by (induction k arbitrary: n) simp_all

lemma be_nat_snoc [simp]: "be_nat (bs @ [b]) = 256 * be_nat bs + unat b"
  by (simp add: be_nat_def)

lemma be_nat_be_bytes: "be_nat (be_bytes k n) = n mod 256 ^ k"
proof (induction k arbitrary: n)
  case (Suc k)
  have "unat (word_of_nat n :: byte) = n mod 256" by (simp add: unat_of_nat)
  with Suc show ?case by (simp add: mod_mult2_eq)
qed (simp add: be_nat_def)

lemma unat_bound: "unat (v :: 'a::len word) < 2 ^ LENGTH('a)"
  by (rule unsigned_less)

lemma be_nat_one [simp]: "be_nat [v] = unat v"
  by (simp add: be_nat_def)

lemma be_nat_less: "be_nat bs < 256 ^ length bs"
proof (induction bs rule: rev_induct)
  case (snoc b bs)
  have "unat b < 256" using unat_bound [of b] by simp
  with snoc show ?case by simp
qed (simp add: be_nat_def)

section \<open>Reading\<close>

definition D_BYTES :: "cbuf \<Rightarrow> nat \<Rightarrow> nat \<Rightarrow> c_error + byte list" where
  "D_BYTES b off l =
     (if \<not> CHECK_LIMIT b off l then Inl EFAULT
      else if off + l \<le> length (buf_bytes b) then Inr (take l (drop off (buf_bytes b)))
      else Inl (Undefined Out_Of_Bounds))"

definition D_8 :: "cbuf \<Rightarrow> nat \<Rightarrow> c_error + byte" where
  "D_8 b off = map_sum id (\<lambda>bs. word_of_nat (be_nat bs)) (D_BYTES b off 1)"

definition D_16 :: "cbuf \<Rightarrow> nat \<Rightarrow> c_error + u16" where
  "D_16 b off = map_sum id (\<lambda>bs. word_of_nat (be_nat bs)) (D_BYTES b off 2)"

definition D_32 :: "cbuf \<Rightarrow> nat \<Rightarrow> c_error + u32" where
  "D_32 b off = map_sum id (\<lambda>bs. word_of_nat (be_nat bs)) (D_BYTES b off 4)"

definition D_64 :: "cbuf \<Rightarrow> nat \<Rightarrow> c_error + u64" where
  "D_64 b off =
     (case D_32 b off of
        Inl e \<Rightarrow> Inl e
      | Inr hi \<Rightarrow>
          (case D_32 b (off + 4) of
             Inl e \<Rightarrow> Inl e
           | Inr lo \<Rightarrow> Inr (or (push_bit 32 (ucast hi)) (ucast lo))))"

section \<open>Writing\<close>

definition splice :: "byte list \<Rightarrow> nat \<Rightarrow> byte list \<Rightarrow> byte list" where
  "splice bs off ws = take off bs @ ws @ drop (off + length ws) bs"

definition E_BYTES :: "cbuf \<Rightarrow> nat \<Rightarrow> byte list \<Rightarrow> c_error + cbuf" where
  "E_BYTES b off ws =
     (if \<not> CHECK_LIMIT b off (length ws) then Inl EFAULT
      else if off + length ws \<le> length (buf_bytes b)
      then Inr (b\<lparr>buf_bytes := splice (buf_bytes b) off ws\<rparr>)
      else Inl (Undefined Out_Of_Bounds))"

definition E_8 :: "cbuf \<Rightarrow> nat \<Rightarrow> byte \<Rightarrow> c_error + cbuf" where
  "E_8 b off v = E_BYTES b off (be_bytes 1 (unat v))"

definition E_16 :: "cbuf \<Rightarrow> nat \<Rightarrow> u16 \<Rightarrow> c_error + cbuf" where
  "E_16 b off v = E_BYTES b off (be_bytes 2 (unat v))"

definition E_32 :: "cbuf \<Rightarrow> nat \<Rightarrow> u32 \<Rightarrow> c_error + cbuf" where
  "E_32 b off v = E_BYTES b off (be_bytes 4 (unat v))"

definition E_64 :: "cbuf \<Rightarrow> nat \<Rightarrow> u64 \<Rightarrow> c_error + cbuf" where
  "E_64 b off v =
     (case E_32 b off (ucast (drop_bit 32 v)) of
        Inl e \<Rightarrow> Inl e
      | Inr b1 \<Rightarrow> E_32 b1 (off + 4) (ucast v))"

section \<open>Decoders\<close>

text \<open>A decoder reads the buffer from an offset and returns a value with the new offset.\<close>

type_synonym 'a dec = "cbuf \<Rightarrow> nat \<Rightarrow> c_error + ('a \<times> nat)"

definition dret :: "'a \<Rightarrow> 'a dec" where
  "dret v b off = Inr (v, off)"

definition dfail :: "c_error \<Rightarrow> 'a dec" where
  "dfail e b off = Inl e"

definition dbind :: "'a dec \<Rightarrow> ('a \<Rightarrow> 'b dec) \<Rightarrow> 'b dec" where
  "dbind m f b off = (case m b off of Inl e \<Rightarrow> Inl e | Inr (v, off') \<Rightarrow> f v b off')"

lemma dbind_cong [fundef_cong]:
  "m b off = m' b' off' \<Longrightarrow> b = b' \<Longrightarrow> off = off' \<Longrightarrow>
     (\<And>v p. m' b' off' = Inr (v, p) \<Longrightarrow> f v b' p = f' v b' p) \<Longrightarrow>
     dbind m f b off = dbind m' f' b' off'"
  by (auto simp: dbind_def split: sum.split)

lemma dbind_Inr:
  "dbind m f b off = Inr r \<longleftrightarrow> (\<exists>v p. m b off = Inr (v, p) \<and> f v b p = Inr r)"
  by (auto simp: dbind_def split: sum.split)

text \<open>A macro followed by the matching \<open>offset += k\<close>.\<close>

definition advance :: "nat \<Rightarrow> c_error + 'a \<Rightarrow> nat \<Rightarrow> c_error + ('a \<times> nat)" where
  "advance k r off = map_sum id (\<lambda>v. (v, off + k)) r"

definition get_8 :: "byte dec" where "get_8 b off = advance 1 (D_8 b off) off"
definition get_16 :: "u16 dec" where "get_16 b off = advance 2 (D_16 b off) off"
definition get_32 :: "u32 dec" where "get_32 b off = advance 4 (D_32 b off) off"
definition get_64 :: "u64 dec" where "get_64 b off = advance 8 (D_64 b off) off"

definition get_bytes :: "nat \<Rightarrow> byte list dec" where
  "get_bytes l b off = advance l (D_BYTES b off l) off"

text \<open>\<open>x.len = D_8(..); offset++; x.bytes = D_BYTES(..); offset += x.len\<close>, and the same with \<open>D_32\<close>.\<close>

definition get_shortstr :: "byte list dec" where
  "get_shortstr = dbind get_8 (\<lambda>l. get_bytes (unat l))"

definition get_longstr :: "byte list dec" where
  "get_longstr = dbind get_32 (\<lambda>l. get_bytes (unat l))"

text \<open>The bits packed into one byte, lowest first.\<close>

definition get_bits :: "nat \<Rightarrow> bool list dec" where
  "get_bits n = dbind get_8 (\<lambda>bits. dret (map (bit bits) [0..<n]))"

section \<open>Encoders\<close>

text \<open>
  An encoder writes the buffer at an offset and returns both.  A buffer that was written before an
  error return holds no valid frame and is overwritten by the next one, so an error drops it.
\<close>

type_synonym enc = "cbuf \<times> nat \<Rightarrow> c_error + (cbuf \<times> nat)"

fun enc_all :: "enc list \<Rightarrow> enc" where
  "enc_all [] s = Inr s"
| "enc_all (e # es) s = (case e s of Inl x \<Rightarrow> Inl x | Inr s' \<Rightarrow> enc_all es s')"

definition put_at :: "(cbuf \<Rightarrow> nat \<Rightarrow> c_error + cbuf) \<Rightarrow> nat \<Rightarrow> enc" where
  "put_at w k s = map_sum id (\<lambda>b. (b, snd s + k)) (w (fst s) (snd s))"

definition put_8 :: "byte \<Rightarrow> enc" where "put_8 v = put_at (\<lambda>b off. E_8 b off v) 1"
definition put_16 :: "u16 \<Rightarrow> enc" where "put_16 v = put_at (\<lambda>b off. E_16 b off v) 2"
definition put_32 :: "u32 \<Rightarrow> enc" where "put_32 v = put_at (\<lambda>b off. E_32 b off v) 4"
definition put_64 :: "u64 \<Rightarrow> enc" where "put_64 v = put_at (\<lambda>b off. E_64 b off v) 8"

definition put_bytes :: "byte list \<Rightarrow> enc" where
  "put_bytes ws = put_at (\<lambda>b off. E_BYTES b off ws) (length ws)"

text \<open>The length byte is the length truncated to eight bits; all the bytes follow it.\<close>

definition put_shortstr :: "byte list \<Rightarrow> enc" where
  "put_shortstr ws = enc_all [put_8 (word_of_nat (length ws)), put_bytes ws]"

definition put_longstr :: "byte list \<Rightarrow> enc" where
  "put_longstr ws = enc_all [put_32 (word_of_nat (length ws)), put_bytes ws]"

fun pack_bits :: "bool list \<Rightarrow> nat" where
  "pack_bits [] = 0"
| "pack_bits (v # vs) = of_bool v + 2 * pack_bits vs"

definition put_bits :: "bool list \<Rightarrow> enc" where
  "put_bits vs = put_8 (word_of_nat (pack_bits vs))"

section \<open>What an encoder emits and a decoder parses\<close>

text \<open>
  \<open>emits e ws\<close>: on an honest buffer the encoder writes exactly \<open>ws\<close> and advances over it, or
  returns \<open>-EFAULT\<close> when it does not fit.  \<open>parses d ws v\<close>: wherever \<open>ws\<close> stands in an honest
  buffer, the decoder returns \<open>v\<close> and advances over it.
\<close>

definition emits :: "enc \<Rightarrow> byte list \<Rightarrow> bool" where
  "emits e ws \<longleftrightarrow>
     (\<forall>b off. honest b \<longrightarrow> off \<le> buf_len b \<longrightarrow>
        e (b, off) =
          (if off + length ws \<le> buf_len b
           then Inr (b\<lparr>buf_bytes := splice (buf_bytes b) off ws\<rparr>, off + length ws)
           else Inl EFAULT))"

definition parses :: "'a dec \<Rightarrow> byte list \<Rightarrow> 'a \<Rightarrow> bool" where
  "parses d ws v \<longleftrightarrow>
     (\<forall>b pre post. honest b \<longrightarrow> buf_bytes b = pre @ ws @ post \<longrightarrow>
        d b (length pre) = Inr (v, length pre + length ws))"

lemma length_splice [simp]:
  "off + length ws \<le> length bs \<Longrightarrow> length (splice bs off ws) = length bs"
  by (simp add: splice_def)

lemma honest_splice [simp]:
  "honest b \<Longrightarrow> off + length ws \<le> buf_len b \<Longrightarrow>
     honest (b\<lparr>buf_bytes := splice (buf_bytes b) off ws\<rparr>)"
  by (simp add: honest_def)

lemma splice_splice:
  "off + length ws + length vs \<le> length bs \<Longrightarrow>
     splice (splice bs off ws) (off + length ws) vs = splice bs off (ws @ vs)"
  by (simp add: splice_def ac_simps)

lemma CHECK_LIMIT_honest:
  "honest b \<Longrightarrow> off \<le> buf_len b \<Longrightarrow> l < 2 ^ 33 \<Longrightarrow> CHECK_LIMIT b off l \<longleftrightarrow> off + l \<le> buf_len b"
  by (simp add: CHECK_LIMIT_def honest_def)

lemma emits_nil [simp]: "emits (enc_all []) []"
  by (simp add: emits_def honest_def splice_def)

lemma emits_Cons:
  assumes "emits e ws" and "emits (enc_all es) vs"
  shows "emits (enc_all (e # es)) (ws @ vs)"
  unfolding emits_def
proof (intro allI impI)
  fix b off
  assume b: "honest b" and off: "off \<le> buf_len b"
  show "enc_all (e # es) (b, off) =
      (if off + length (ws @ vs) \<le> buf_len b
       then Inr (b\<lparr>buf_bytes := splice (buf_bytes b) off (ws @ vs)\<rparr>, off + length (ws @ vs))
       else Inl EFAULT)"
  proof (cases "off + length ws \<le> buf_len b")
    case False
    with assms(1) b off show ?thesis by (simp add: emits_def)
  next
    case True
    let ?b = "b\<lparr>buf_bytes := splice (buf_bytes b) off ws\<rparr>"
    have "e (b, off) = Inr (?b, off + length ws)" using assms(1) b off True by (simp add: emits_def)
    moreover have "honest ?b" using b True by (rule honest_splice)
    ultimately show ?thesis
      using assms(2) b True by (auto simp: emits_def splice_splice honest_def ac_simps)
  qed
qed

lemma emits_put_at:
  assumes "\<And>b off. w b off = E_BYTES b off ws" and "length ws < 2 ^ 33" and "k = length ws"
  shows "emits (put_at w k) ws"
  using assms
  by (auto simp: emits_def put_at_def E_BYTES_def CHECK_LIMIT_honest honest_def)

lemma emits_bytes: "length ws < 2 ^ 33 \<Longrightarrow> emits (put_bytes ws) ws"
  unfolding put_bytes_def by (rule emits_put_at) simp_all

lemma emits_8: "emits (put_8 v) [v]"
  unfolding put_8_def by (rule emits_put_at) (simp_all add: E_8_def)

lemma emits_16: "emits (put_16 v) (be_bytes 2 (unat v))"
  unfolding put_16_def by (rule emits_put_at) (simp_all add: E_16_def)

lemma emits_32: "emits (put_32 v) (be_bytes 4 (unat v))"
  unfolding put_32_def by (rule emits_put_at) (simp_all add: E_32_def)

lemma put_64_split:
  "put_64 v = enc_all [put_32 (ucast (drop_bit 32 v)), put_32 (ucast v)]"
  by (rule ext) (auto simp: put_64_def put_32_def put_at_def E_64_def ac_simps split: sum.split)

lemma emits_64:
  "emits (put_64 v) (be_bytes 4 (unat (ucast (drop_bit 32 v) :: u32)) @ be_bytes 4 (unat (ucast v :: u32)))"
  unfolding put_64_split
  using emits_Cons [OF emits_32 emits_Cons [OF emits_32 emits_nil],
      of "ucast (drop_bit 32 v)" "ucast v"] by simp

section \<open>Parsing lemmas\<close>

lemma parses_dret: "parses (dret v) [] v"
  by (simp add: parses_def dret_def)

lemma parses_bind:
  assumes "parses d ws v" and "parses (f v) vs r"
  shows "parses (dbind d f) (ws @ vs) r"
  unfolding parses_def
proof (intro allI impI)
  fix b pre post
  assume b: "honest b" and eq: "buf_bytes b = pre @ (ws @ vs) @ post"
  have "d b (length pre) = Inr (v, length pre + length ws)"
    using assms(1) b eq by (simp add: parses_def)
  moreover have "f v b (length (pre @ ws)) = Inr (r, length (pre @ ws) + length vs)"
    using assms(2) b eq unfolding parses_def by (metis append_assoc)
  ultimately show "dbind d f b (length pre) = Inr (r, length pre + length (ws @ vs))"
    by (simp add: dbind_def)
qed

lemma parses_bind_nil: "parses d ws v \<Longrightarrow> f v = dret r \<Longrightarrow> parses (dbind d f) ws r"
  using parses_bind [of d ws v f "[]" r] parses_dret [of r] by simp

lemma D_BYTES_mid:
  "honest b \<Longrightarrow> buf_bytes b = pre @ ws @ post \<Longrightarrow> length ws < 2 ^ 33 \<Longrightarrow>
     D_BYTES b (length pre) (length ws) = Inr ws"
  using CHECK_LIMIT_honest [of b "length pre" "length ws"]
  by (simp add: D_BYTES_def) (auto simp: honest_def)

lemma parses_bytes:
  assumes "length ws < 2 ^ 33"
  shows "parses (get_bytes (length ws)) ws ws"
  using assms by (simp add: parses_def get_bytes_def advance_def D_BYTES_mid)

lemma parses_fixed:
  assumes "\<And>b off. d b off = advance k (map_sum id f (D_BYTES b off k)) off"
    and "length ws = k" and "k < 2 ^ 33" and "f ws = v"
  shows "parses d ws v"
  using assms D_BYTES_mid [where ws = ws] by (auto simp: parses_def advance_def)

lemma parses_8: "parses get_8 [v] v"
  by (rule parses_fixed [where k = 1 and f = "\<lambda>bs. word_of_nat (be_nat bs)"])
     (simp_all add: get_8_def D_8_def be_nat_be_bytes)

lemma parses_16: "parses get_16 (be_bytes 2 (unat v)) v"
proof (rule parses_fixed [where k = 2 and f = "\<lambda>bs. word_of_nat (be_nat bs)"])
  have "unat v mod 256 ^ 2 = unat v" using unat_bound [of v] by simp
  then show "word_of_nat (be_nat (be_bytes 2 (unat v))) = v" by (simp add: be_nat_be_bytes)
qed (simp_all add: get_16_def D_16_def)

lemma parses_32: "parses get_32 (be_bytes 4 (unat v)) v"
proof (rule parses_fixed [where k = 4 and f = "\<lambda>bs. word_of_nat (be_nat bs)"])
  have "unat v mod 256 ^ 4 = unat v" using unat_bound [of v] by simp
  then show "word_of_nat (be_nat (be_bytes 4 (unat v))) = v" by (simp add: be_nat_be_bytes)
qed (simp_all add: get_32_def D_32_def)

lemma parses_64:
  "parses get_64 (be_bytes 4 (unat (ucast (drop_bit 32 v) :: u32)) @ be_bytes 4 (unat (ucast v :: u32))) v"
  unfolding parses_def
proof (intro allI impI)
  fix b pre post
  let ?hi = "ucast (drop_bit 32 v) :: u32" and ?lo = "ucast v :: u32"
  let ?h = "be_bytes 4 (unat ?hi)" and ?l = "be_bytes 4 (unat ?lo)"
  assume b: "honest b" and eq: "buf_bytes b = pre @ (?h @ ?l) @ post"
  have hi: "get_32 b (length pre) = Inr (?hi, length pre + 4)"
    using parses_32 [of ?hi] b eq by (simp add: parses_def)
  have lo: "get_32 b (length (pre @ ?h)) = Inr (?lo, length (pre @ ?h) + 4)"
    using parses_32 [of ?lo] b eq unfolding parses_def by (metis append_assoc length_be_bytes)
  have D: "D_32 b off = Inr w" if "get_32 b off = Inr (w, p)" for off w p
    using that by (cases "D_32 b off") (auto simp: get_32_def advance_def)
  have "or (push_bit 32 (ucast ?hi)) (ucast ?lo) = v"
    by (rule bit_word_eqI) (auto simp: bit_simps)
  then show "get_64 b (length pre) = Inr (v, length pre + length (?h @ ?l))"
    using D [OF hi] D [OF lo] by (simp add: get_64_def D_64_def advance_def)
qed

lemma bit_pack_bits: "bit (pack_bits vs) i \<longleftrightarrow> i < length vs \<and> vs ! i"
proof (induction vs arbitrary: i)
  case (Cons v vs)
  then show ?case by (cases i) (auto simp: bit_0 bit_Suc)
qed simp

lemma bit_byte_of_nat: "bit (word_of_nat k :: byte) i \<longleftrightarrow> i < 8 \<and> bit k i"
proof -
  have "bit (word_of_nat k :: byte) i = bit (unat (word_of_nat k :: byte)) i"
    by (simp add: bit_unsigned_iff)
  also have "unat (word_of_nat k :: byte) = take_bit 8 k"
    by (simp add: unat_of_nat take_bit_eq_mod)
  finally show ?thesis by (simp add: bit_take_bit_iff)
qed

lemma parses_bits:
  assumes "length vs = n" and "n \<le> 8"
  shows "parses (get_bits n) [word_of_nat (pack_bits vs)] vs"
  unfolding get_bits_def
proof (rule parses_bind_nil [OF parses_8])
  have "map (bit (word_of_nat (pack_bits vs) :: byte)) [0..<n] = vs"
    using assms by (intro nth_equalityI) (auto simp: bit_byte_of_nat bit_pack_bits)
  then show "dret (map (bit (word_of_nat (pack_bits vs) :: byte)) [0..<n]) = dret vs" by simp
qed

section \<open>Decoding never leaves the buffer\<close>

text \<open>
  \<open>reads_safely d\<close>: on an honest buffer, whatever its bytes, the decoder shows no undefined
  behaviour, and where it succeeds its new offset is inside the buffer and not before the old one.
\<close>

definition safe_result :: "cbuf \<Rightarrow> nat \<Rightarrow> c_error + ('a \<times> nat) \<Rightarrow> bool" where
  "safe_result b off r \<longleftrightarrow>
     (case r of
        Inl e \<Rightarrow> (\<forall>u. e \<noteq> Undefined u)
      | Inr (v, p) \<Rightarrow> off \<le> p \<and> p \<le> buf_len b)"

definition reads_safely :: "'a dec \<Rightarrow> bool" where
  "reads_safely d \<longleftrightarrow>
     (\<forall>b off. honest b \<longrightarrow> off \<le> buf_len b \<longrightarrow> safe_result b off (d b off))"

named_theorems safe_intros

lemma safe_bind_result:
  assumes "safe_result b off (m b off)"
    and "\<And>v p. m b off = Inr (v, p) \<Longrightarrow> off \<le> p \<Longrightarrow> p \<le> buf_len b \<Longrightarrow> safe_result b p (f v b p)"
  shows "safe_result b off (dbind m f b off)"
proof (cases "m b off")
  case (Inr r)
  obtain v p where "r = (v, p)" by fastforce
  with Inr assms show ?thesis
    by (fastforce simp: safe_result_def dbind_def split: sum.splits)
qed (use assms in \<open>simp add: safe_result_def dbind_def\<close>)

lemma safe_bind [safe_intros]:
  "reads_safely m \<Longrightarrow> (\<And>v. reads_safely (f v)) \<Longrightarrow> reads_safely (dbind m f)"
  unfolding reads_safely_def by (blast intro: safe_bind_result)

lemma safe_dret [safe_intros]: "reads_safely (dret v)"
  by (simp add: reads_safely_def safe_result_def dret_def)

lemma safe_dfail [safe_intros]: "(\<And>u. e \<noteq> Undefined u) \<Longrightarrow> reads_safely (dfail e)"
  by (simp add: reads_safely_def safe_result_def dfail_def)

lemma safe_if [safe_intros]:
  "reads_safely d1 \<Longrightarrow> reads_safely d2 \<Longrightarrow> reads_safely (if c then d1 else d2)"
  by simp

lemma safe_fixed:
  assumes "\<And>b off. d b off = advance k (map_sum id f (D_BYTES b off k)) off" and "k < 2 ^ 33"
  shows "reads_safely d"
  using assms
  by (auto simp: reads_safely_def safe_result_def advance_def D_BYTES_def CHECK_LIMIT_honest honest_def)

lemma safe_get_8 [safe_intros]: "reads_safely get_8"
  by (rule safe_fixed [where k = 1]) (auto simp: get_8_def D_8_def)

lemma safe_get_16 [safe_intros]: "reads_safely get_16"
  by (rule safe_fixed [where k = 2]) (auto simp: get_16_def D_16_def)

lemma safe_get_32 [safe_intros]: "reads_safely get_32"
  by (rule safe_fixed [where k = 4]) (auto simp: get_32_def D_32_def)

lemma safe_get_bytes: "l < 2 ^ 33 \<Longrightarrow> reads_safely (get_bytes l)"
  by (rule safe_fixed [where k = l and f = id]) (simp_all add: get_bytes_def sum.map_id)

lemma get_64_split:
  "get_64 = dbind get_32 (\<lambda>hi. dbind get_32 (\<lambda>lo. dret (or (push_bit 32 (ucast hi)) (ucast lo))))"
  by (intro ext)
     (simp add: get_64_def D_64_def get_32_def dbind_def dret_def advance_def split: sum.split)

lemma safe_get_64 [safe_intros]: "reads_safely get_64"
  unfolding get_64_split by (intro safe_intros)

lemma safe_shortstr [safe_intros]: "reads_safely get_shortstr"
proof -
  have "unat (l :: byte) < 2 ^ 33" for l using unat_bound [of l] by simp
  then show ?thesis unfolding get_shortstr_def by (intro safe_intros safe_get_bytes)
qed

lemma safe_longstr [safe_intros]: "reads_safely get_longstr"
proof -
  have "unat (l :: u32) < 2 ^ 33" for l using unat_bound [of l] by simp
  then show ?thesis unfolding get_longstr_def by (intro safe_intros safe_get_bytes)
qed

lemma safe_get_bits [safe_intros]: "reads_safely (get_bits n)"
  unfolding get_bits_def by (intro safe_intros)

section \<open>The contract of a field\<close>

text \<open>
  What every field of a method or property struct relies on: its encoder emits the bytes its
  decoder parses back, as long as the value is one the field can carry.
\<close>

locale field_codec =
  fixes put :: "'a \<Rightarrow> enc"
    and get :: "'a dec"
    and wire :: "'a \<Rightarrow> byte list"
    and valid :: "'a \<Rightarrow> bool"
  assumes put_emits: "valid v \<Longrightarrow> emits (put v) (wire v)"
    and get_parses: "valid v \<Longrightarrow> parses get (wire v) v"
begin

lemma put_then_get:
  assumes "valid v" and "honest b" and "off + length (wire v) \<le> buf_len b"
  obtains b' where "put v (b, off) = Inr (b', off + length (wire v))" and "honest b'"
    and "get b' off = Inr (v, off + length (wire v))" and "buf_len b' = buf_len b"
    and "take off (buf_bytes b') = take off (buf_bytes b)"
proof -
  let ?b = "b\<lparr>buf_bytes := splice (buf_bytes b) off (wire v)\<rparr>"
  have "put v (b, off) = Inr (?b, off + length (wire v))"
    using put_emits [OF assms(1)] assms(2,3) by (simp add: emits_def)
  moreover have "get ?b off = Inr (v, off + length (wire v))"
  proof -
    have off: "length (take off (buf_bytes b)) = off" using assms(2,3) by (simp add: honest_def)
    have "buf_bytes ?b = take off (buf_bytes b) @ wire v @ drop (off + length (wire v)) (buf_bytes b)"
      by (simp add: splice_def)
    with get_parses [OF assms(1)] honest_splice [OF assms(2,3)] off show ?thesis
      unfolding parses_def by metis
  qed
  moreover have "honest ?b" using assms(2,3) by (rule honest_splice)
  ultimately show thesis using that assms(2,3) by (simp add: splice_def honest_def)
qed

lemma put_too_long:
  "valid v \<Longrightarrow> honest b \<Longrightarrow> off \<le> buf_len b \<Longrightarrow> buf_len b < off + length (wire v) \<Longrightarrow>
     put v (b, off) = Inl EFAULT"
  using put_emits [of v] by (simp add: emits_def)

end

section \<open>Strings\<close>

definition wire_8 :: "byte \<Rightarrow> byte list" where "wire_8 v = [v]"
definition wire_16 :: "u16 \<Rightarrow> byte list" where "wire_16 v = be_bytes 2 (unat v)"
definition wire_32 :: "u32 \<Rightarrow> byte list" where "wire_32 v = be_bytes 4 (unat v)"

definition wire_64 :: "u64 \<Rightarrow> byte list" where
  "wire_64 v = wire_32 (ucast (drop_bit 32 v)) @ wire_32 (ucast v)"

definition wire_shortstr :: "byte list \<Rightarrow> byte list" where
  "wire_shortstr ws = wire_8 (word_of_nat (length ws)) @ ws"

definition wire_longstr :: "byte list \<Rightarrow> byte list" where
  "wire_longstr ws = wire_32 (word_of_nat (length ws)) @ ws"

definition wire_bits :: "bool list \<Rightarrow> byte list" where
  "wire_bits vs = wire_8 (word_of_nat (pack_bits vs))"

definition shortstr :: "byte list \<Rightarrow> bool" where "shortstr ws \<longleftrightarrow> length ws < 2 ^ 8"
definition longstr :: "byte list \<Rightarrow> bool" where "longstr ws \<longleftrightarrow> length ws < 2 ^ 32"

lemma emits_shortstr: "shortstr ws \<Longrightarrow> emits (put_shortstr ws) (wire_shortstr ws)"
  using emits_Cons [OF emits_8 emits_Cons [OF emits_bytes emits_nil], of ws]
  by (simp add: put_shortstr_def wire_shortstr_def wire_8_def shortstr_def)

lemma emits_longstr: "longstr ws \<Longrightarrow> emits (put_longstr ws) (wire_longstr ws)"
  using emits_Cons [OF emits_32 emits_Cons [OF emits_bytes emits_nil], of ws]
  by (simp add: put_longstr_def wire_longstr_def wire_32_def longstr_def)

lemma parses_shortstr:
  assumes "shortstr ws"
  shows "parses get_shortstr (wire_shortstr ws) ws"
proof -
  have "unat (word_of_nat (length ws) :: byte) = length ws"
    using assms by (simp add: shortstr_def unat_of_nat)
  with parses_bytes [of ws] assms show ?thesis
    unfolding get_shortstr_def wire_shortstr_def wire_8_def
    by (intro parses_bind [OF parses_8]) (simp add: shortstr_def)
qed

lemma parses_longstr:
  assumes "longstr ws"
  shows "parses get_longstr (wire_longstr ws) ws"
proof -
  have "unat (word_of_nat (length ws) :: u32) = length ws"
    using assms by (simp add: longstr_def unat_of_nat)
  with parses_bytes [of ws] assms show ?thesis
    unfolding get_longstr_def wire_longstr_def wire_32_def
    by (intro parses_bind [OF parses_32]) (simp add: longstr_def)
qed

section \<open>The contract, discharged for the basic fields\<close>

interpretation octet: field_codec put_8 get_8 wire_8 "\<lambda>_. True"
  by unfold_locales (simp_all add: wire_8_def emits_8 parses_8)

interpretation short_int: field_codec put_16 get_16 wire_16 "\<lambda>_. True"
  by unfold_locales (simp_all add: wire_16_def emits_16 parses_16)

interpretation long_int: field_codec put_32 get_32 wire_32 "\<lambda>_. True"
  by unfold_locales (simp_all add: wire_32_def emits_32 parses_32)

interpretation longlong_int: field_codec put_64 get_64 wire_64 "\<lambda>_. True"
  by unfold_locales (simp_all add: wire_64_def wire_32_def emits_64 parses_64)

interpretation short_string: field_codec put_shortstr get_shortstr wire_shortstr shortstr
  by unfold_locales (simp_all add: emits_shortstr parses_shortstr)

interpretation long_string: field_codec put_longstr get_longstr wire_longstr longstr
  by unfold_locales (simp_all add: emits_longstr parses_longstr)

interpretation bit_field: field_codec put_bits "get_bits n" wire_bits "\<lambda>vs. length vs = n \<and> n \<le> 8"
  for n
  by unfold_locales
     (auto simp: put_bits_def wire_bits_def wire_8_def emits_8 intro: parses_bits)

end
