(* ===== verification/Table.thy ===== *)
theory Table
  imports Wire
begin

text \<open>
  Field tables, \<open>src/src/librabbitmq/amqp_table.c\<close>: \<open>amqp_decode_table\<close>,
  \<open>amqp_encode_table\<close> and \<open>amqp_table_entry_cmp\<close>.  The decoder calls itself for nested tables;
  its termination is proved from the bytes it consumes.
\<close>

section \<open>The data\<close>

text \<open>
  \<open>amqp_table_entry_t\<close>: the union is a constructor per \<open>kind\<close>; \<open>Val_Unknown\<close> is an entry with any
  other \<open>kind\<close>.  \<open>Val_D\<close> holds the \<open>int decimals\<close> and the \<open>uint32_t value\<close> of a decimal.
\<close>

datatype table_value =
    Val_S "byte list"
  | Val_I u32
  | Val_D u32 u32
  | Val_T u64
  | Val_F "(byte list \<times> table_value) list"
  | Val_Unknown byte

type_synonym table = "(byte list \<times> table_value) list"

definition kind_S :: byte where "kind_S = 83"
definition kind_I :: byte where "kind_I = 73"
definition kind_D :: byte where "kind_D = 68"
definition kind_T :: byte where "kind_T = 84"
definition kind_F :: byte where "kind_F = 70"

lemmas kind_defs = kind_S_def kind_I_def kind_D_def kind_T_def kind_F_def

section \<open>Memory\<close>

text \<open>
  Whether \<open>malloc\<close>/\<open>realloc\<close> and \<open>amqp_pool_alloc\<close> succeed for a given number of bytes is up to
  the environment.  The results of \<open>amqp_pool_alloc\<close> are used unchecked, so a failure there is
  undefined behaviour (except for the empty array: copying nothing to NULL).  A block of a pool
  page that was used before holds what was left there: \<open>stale\<close>, of which nothing is known.
\<close>

record memory =
  malloc_ok :: "nat \<Rightarrow> bool"
  pool_ok :: "nat \<Rightarrow> bool"
  stale :: "nat \<Rightarrow> byte list"

definition enough_memory :: "memory \<Rightarrow> bool" where
  "enough_memory mem \<longleftrightarrow> (\<forall>n. malloc_ok mem n \<and> pool_ok mem n)"

definition c_malloc :: "memory \<Rightarrow> nat \<Rightarrow> unit dec" where
  "c_malloc mem n = (if malloc_ok mem n then dret () else dfail ENOMEM)"

definition pool_alloc :: "memory \<Rightarrow> nat \<Rightarrow> unit dec" where
  "pool_alloc mem n =
     (if n = 0 \<or> pool_ok mem n then dret () else dfail (Undefined Null_Pointer))"

text \<open>\<open>sizeof(amqp_table_entry_t)\<close> on the supported 64-bit platforms.\<close>

definition sizeof_entry :: nat where "sizeof_entry = 40"

definition INITIAL_TABLE_SIZE :: nat where "INITIAL_TABLE_SIZE = 16"

section \<open>amqp_decode_table\<close>

text \<open>\<open>limit = offset + tablesize\<close>: the sum is computed in 32 bits and stored in an \<open>int\<close>.\<close>

definition table_limit :: "nat \<Rightarrow> u32 \<Rightarrow> int" where
  "table_limit off tablesize = sint (word_of_nat off + tablesize)"

text \<open>The array of entries is doubled when it is full.\<close>

definition grow_entries :: "memory \<Rightarrow> nat \<Rightarrow> nat \<Rightarrow> nat dec" where
  "grow_entries mem num_entries allocated =
     (if num_entries \<ge> allocated
      then dbind (c_malloc mem (allocated * 2 * sizeof_entry)) (\<lambda>_. dret (allocated * 2))
      else dret allocated)"

definition get_scalar :: "byte \<Rightarrow> table_value dec" where
  "get_scalar kind =
     (if kind = kind_S then dbind get_longstr (\<lambda>s. dret (Val_S s))
      else if kind = kind_I then dbind get_32 (\<lambda>v. dret (Val_I v))
      else if kind = kind_D then
        dbind get_8 (\<lambda>d. dbind get_32 (\<lambda>v. dret (Val_D (ucast d) v)))
      else if kind = kind_T then dbind get_64 (\<lambda>v. dret (Val_T v))
      else dfail EINVAL)"

text \<open>
  The frame around the loop: the size, the first allocation, the limit, and the copy of the
  entries into the pool; \<open>loop\<close> is the \<open>while\<close> loop, given its limit.
\<close>

definition table_frame :: "memory \<Rightarrow> (int \<Rightarrow> table dec) \<Rightarrow> table dec" where
  "table_frame mem loop =
     dbind get_32 (\<lambda>tablesize.
     dbind (c_malloc mem (INITIAL_TABLE_SIZE * sizeof_entry)) (\<lambda>_ b off.
       dbind (loop (table_limit off tablesize)) (\<lambda>es.
       dbind (pool_alloc mem (length es * sizeof_entry)) (\<lambda>_. dret es)) b off))"

lemma c_malloc_Inr: "c_malloc mem n b off = Inr r \<longleftrightarrow> malloc_ok mem n \<and> r = ((), off)"
  by (auto simp: c_malloc_def dret_def dfail_def)

lemma pool_alloc_Inr:
  "pool_alloc mem n b off = Inr r \<longleftrightarrow> (n = 0 \<or> pool_ok mem n) \<and> r = ((), off)"
  by (auto simp: pool_alloc_def dret_def dfail_def)

lemma advance_Inr: "advance k r off = Inr (v, p) \<longleftrightarrow> r = Inr v \<and> p = off + k"
  by (cases r) (auto simp: advance_def)

lemma table_frame_cong [fundef_cong]:
  assumes "mem = mem'" and "b = b'" and "off = off'"
    and "\<And>lim. off + 4 \<le> length (buf_bytes b) \<Longrightarrow> loop lim b (off + 4) = loop' lim b (off + 4)"
  shows "table_frame mem loop b off = table_frame mem' loop' b' off'"
proof -
  have "off + 4 \<le> length (buf_bytes b)" if "get_32 b off = Inr (v, p)" for v p
    using that
    by (auto simp: get_32_def advance_Inr D_32_def D_BYTES_def split: if_splits)
  moreover have "p = off + 4" if "get_32 b off = Inr (v, p)" for v p
    using that by (simp add: get_32_def advance_Inr)
  ultimately show ?thesis
    unfolding table_frame_def assms(1-3) [symmetric]
    by (intro dbind_cong refl) (auto simp: c_malloc_Inr intro!: dbind_cong assms(4))
qed

text \<open>The loop, from the entry number \<open>num_entries\<close> on.\<close>

function (domintros) decode_entries ::
  "memory \<Rightarrow> int \<Rightarrow> nat \<Rightarrow> nat \<Rightarrow> table dec"
where
  "decode_entries mem limit num_entries allocated b off =
     (if int off < limit
      then
        dbind get_8 (\<lambda>keylen.
        dbind (grow_entries mem num_entries allocated) (\<lambda>allocated'.
        dbind (get_bytes (unat keylen)) (\<lambda>key.
        dbind get_8 (\<lambda>kind.
        dbind (\<lambda>b p.
                 if kind = kind_F
                 then dbind (table_frame mem
                               (\<lambda>lim. decode_entries mem lim 0 INITIAL_TABLE_SIZE))
                        (\<lambda>t. dret (Val_F t)) b p
                 else get_scalar kind b p) (\<lambda>v.
        dbind (decode_entries mem limit (num_entries + 1) allocated') (\<lambda>es.
        dret ((key, v) # es))))))) b off
      else Inr ([], off))"
  by pat_completeness auto


subsection \<open>Termination\<close>

lemma D_BYTES_Inr: "D_BYTES b off l = Inr bs \<Longrightarrow> off + l \<le> length (buf_bytes b)"
  by (auto simp: D_BYTES_def split: if_splits)

lemma map_sum_Inr: "map_sum id f r = Inr v \<longleftrightarrow> (\<exists>x. r = Inr x \<and> v = f x)"
  by (cases r) auto

lemma get_8_Inr: "get_8 b off = Inr (v, p) \<Longrightarrow> p = off + 1 \<and> off < length (buf_bytes b)"
  by (auto simp: get_8_def advance_Inr D_8_def map_sum_Inr dest!: D_BYTES_Inr)

lemma get_32_Inr: "get_32 b off = Inr (v, p) \<Longrightarrow> p = off + 4 \<and> off + 4 \<le> length (buf_bytes b)"
  by (auto simp: get_32_def advance_Inr D_32_def map_sum_Inr dest!: D_BYTES_Inr)

lemma get_bytes_Inr:
  "get_bytes l b off = Inr (v, p) \<Longrightarrow> p = off + l \<and> off + l \<le> length (buf_bytes b)"
  by (auto simp: get_bytes_def advance_Inr dest!: D_BYTES_Inr)

lemma grow_entries_Inr: "grow_entries mem n k b off = Inr (v, p) \<Longrightarrow> p = off"
  by (auto simp: grow_entries_def dret_def dbind_Inr c_malloc_Inr split: if_splits)

lemma get_scalar_grows: "get_scalar kind b off = Inr (v, p) \<Longrightarrow> off \<le> p"
  by (auto simp: get_scalar_def get_longstr_def dbind_Inr dret_def dfail_def get_64_def advance_Inr
      dest!: get_32_Inr get_bytes_Inr get_8_Inr split: if_splits)

lemma table_frame_grows:
  assumes "table_frame mem loop b off = Inr (es, p)"
    and "\<And>lim. off + 4 \<le> length (buf_bytes b) \<Longrightarrow> loop lim b (off + 4) = Inr (es, p) \<Longrightarrow> off + 4 \<le> p"
  shows "off \<le> p"
  using assms
  by (fastforce simp: table_frame_def dbind_Inr c_malloc_Inr pool_alloc_Inr dret_def
      dest!: get_32_Inr)

lemma decode_entries_grows:
  "decode_entries_dom (mem, lim, n, k, b, off) \<Longrightarrow>
     decode_entries mem lim n k b off = Inr (es, p) \<Longrightarrow> off \<le> p"
proof (induction arbitrary: es p rule: decode_entries.pinduct)
  case (1 mem lim n k b off)
  show ?case
  proof (cases "int off < lim")
    case False
    with 1 show ?thesis by (simp add: decode_entries.psimps)
  next
    case True
    with 1(1,4) obtain kl p1 k' p2 key p3 kind p4 v p5 es' where
      r: "get_8 b off = Inr (kl, p1)" "grow_entries mem n k b p1 = Inr (k', p2)"
        "get_bytes (unat kl) b p2 = Inr (key, p3)" "get_8 b p3 = Inr (kind, p4)"
        "(if kind = kind_F
          then dbind (table_frame mem (\<lambda>lim. decode_entries mem lim 0 INITIAL_TABLE_SIZE))
                 (\<lambda>t. dret (Val_F t)) b p4
          else get_scalar kind b p4) = Inr (v, p5)"
        "decode_entries mem lim (n + 1) k' b p5 = Inr (es', p)"
      by (auto simp: decode_entries.psimps dbind_Inr dret_def)
    have "p4 \<le> p5"
    proof (cases "kind = kind_F")
      case True
      with r(5) obtain t where "table_frame mem
          (\<lambda>lim. decode_entries mem lim 0 INITIAL_TABLE_SIZE) b p4 = Inr (t, p5)"
        by (auto simp: dbind_Inr dret_def)
      then show ?thesis
        by (rule table_frame_grows)
           (rule 1(2) [OF \<open>int off < lim\<close> r(1-4) True])
    next
      case False
      with r(5) get_scalar_grows show ?thesis by simp
    qed
    moreover have "p5 \<le> p" by (rule 1(3) [OF True r(1-6)])
    ultimately show ?thesis
      using r(1-4) by (auto dest!: get_8_Inr grow_entries_Inr get_bytes_Inr)
  qed
qed

termination decode_entries
proof (relation "measure (\<lambda>(mem, lim, n, k, b, off). length (buf_bytes b) - off)", goal_cases)
  case 1
  show ?case by simp
next
  case (2 mem lim n k b off v p va pa vb pb vc pc x)
  then show ?case by (auto dest!: get_8_Inr grow_entries_Inr get_bytes_Inr)
next
  case (3 mem lim n k b off v p va pa vb pb vc pc vd pd)
  have "pc \<le> pd"
  proof (cases "vc = kind_F")
    case True
    with 3(6) obtain t where "table_frame mem
        (\<lambda>lim. decode_entries mem lim 0 INITIAL_TABLE_SIZE) b pc = Inr (t, pd)"
      by (auto simp: dbind_Inr dret_def)
    then show ?thesis
      by (rule table_frame_grows) (rule decode_entries_grows [OF 3(7) [OF True]])
  next
    case False
    with 3(6) get_scalar_grows show ?thesis by simp
  qed
  with 3(2-5) show ?case by (auto dest!: get_8_Inr grow_entries_Inr get_bytes_Inr)
qed

declare decode_entries.simps [simp del]

definition amqp_decode_table :: "memory \<Rightarrow> table dec" where
  "amqp_decode_table mem =
     table_frame mem (\<lambda>lim. decode_entries mem lim 0 INITIAL_TABLE_SIZE)"

section \<open>amqp_encode_table\<close>

text \<open>
  The space of the size is skipped, the entries are written, and the size is written into that
  space: \<open>offset - *offsetptr - 4\<close>.
\<close>

definition put_frame :: "enc \<Rightarrow> enc" where
  "put_frame entries s =
     (case entries (fst s, snd s + 4) of
        Inl e \<Rightarrow> Inl e
      | Inr (b, off) \<Rightarrow>
          (case E_32 b (snd s) (word_of_nat (off - snd s - 4)) of
             Inl e \<Rightarrow> Inl e
           | Inr b' \<Rightarrow> Inr (b', off)))"

fun put_value :: "table_value \<Rightarrow> enc" and put_entries :: "table \<Rightarrow> enc" where
  "put_value (Val_S s) = enc_all [put_8 kind_S, put_longstr s]"
| "put_value (Val_I v) = enc_all [put_8 kind_I, put_32 v]"
| "put_value (Val_D d v) = enc_all [put_8 kind_D, put_8 (ucast d), put_32 v]"
| "put_value (Val_T v) = enc_all [put_8 kind_T, put_64 v]"
| "put_value (Val_F t) = enc_all [put_8 kind_F, put_frame (put_entries t)]"
| "put_value (Val_Unknown k) = enc_all [put_8 k, \<lambda>_. Inl EINVAL]"
| "put_entries [] = enc_all []"
| "put_entries ((key, v) # es) =
     enc_all [put_8 (word_of_nat (length key)), put_bytes key, put_value v, put_entries es]"

definition amqp_encode_table :: "table \<Rightarrow> enc" where
  "amqp_encode_table t = put_frame (put_entries t)"

section \<open>amqp_table_entry_cmp\<close>

text \<open>
  \<open>memcmp\<close> on the common prefix (bytes compared as unsigned), then the difference of the lengths;
  only the sign of the result means anything.  Key lengths are below \<open>2 ^ 31\<close>, so the \<open>int\<close>
  arithmetic is exact.
\<close>

fun memcmp :: "byte list \<Rightarrow> byte list \<Rightarrow> int" where
  "memcmp (x # xs) (y # ys) = (if x = y then memcmp xs ys else uint x - uint y)"
| "memcmp _ _ = 0"

definition amqp_table_entry_cmp ::
  "byte list \<times> table_value \<Rightarrow> byte list \<times> table_value \<Rightarrow> int" where
  "amqp_table_entry_cmp e1 e2 =
     (let k1 = fst e1; k2 = fst e2;
          minlen = (if length k2 < length k1 then length k2 else length k1);
          d = memcmp (take minlen k1) (take minlen k2)
      in if d \<noteq> 0 then d else int (length k1) - int (length k2))"

section \<open>The bytes of a table\<close>

fun wire_value :: "table_value \<Rightarrow> byte list" and wire_entries :: "table \<Rightarrow> byte list" where
  "wire_value (Val_S s) = wire_longstr s"
| "wire_value (Val_I v) = wire_32 v"
| "wire_value (Val_D d v) = wire_8 (ucast d) @ wire_32 v"
| "wire_value (Val_T v) = wire_64 v"
| "wire_value (Val_F t) = wire_32 (word_of_nat (length (wire_entries t))) @ wire_entries t"
| "wire_value (Val_Unknown k) = []"
| "wire_entries [] = []"
| "wire_entries ((key, v) # es) =
     wire_8 (word_of_nat (length key)) @ key @
     (case v of Val_S _ \<Rightarrow> [kind_S] | Val_I _ \<Rightarrow> [kind_I] | Val_D _ _ \<Rightarrow> [kind_D]
        | Val_T _ \<Rightarrow> [kind_T] | Val_F _ \<Rightarrow> [kind_F] | Val_Unknown k \<Rightarrow> [k]) @
     wire_value v @ wire_entries es"

fun valid_value :: "table_value \<Rightarrow> bool" and valid_entries :: "table \<Rightarrow> bool" where
  "valid_value (Val_S s) = longstr s"
| "valid_value (Val_I v) = True"
| "valid_value (Val_D d v) = (unat d < 256)"
| "valid_value (Val_T v) = True"
| "valid_value (Val_F t) = valid_entries t"
| "valid_value (Val_Unknown k) = False"
| "valid_entries [] = True"
| "valid_entries ((key, v) # es) = (shortstr key \<and> valid_value v \<and> valid_entries es)"

definition wire_table :: "table \<Rightarrow> byte list" where
  "wire_table t = wire_32 (word_of_nat (length (wire_entries t))) @ wire_entries t"

fun kind_of :: "table_value \<Rightarrow> byte" where
  "kind_of (Val_S _) = kind_S"
| "kind_of (Val_I _) = kind_I"
| "kind_of (Val_D _ _) = kind_D"
| "kind_of (Val_T _) = kind_T"
| "kind_of (Val_F _) = kind_F"
| "kind_of (Val_Unknown k) = k"

lemma wire_entry:
  "wire_entries ((key, v) # es) =
     wire_8 (word_of_nat (length key)) @ key @ [kind_of v] @ wire_value v @ wire_entries es"
  by (cases v) simp_all

declare wire_entries.simps(2) [simp del]

section \<open>Encoding emits those bytes\<close>

lemma put_8_fails: "honest b \<Longrightarrow> buf_len b < off + 1 \<Longrightarrow> off \<le> buf_len b + 4 \<Longrightarrow> put_8 v (b, off) = Inl EFAULT"
  by (simp add: put_8_def put_at_def E_8_def E_BYTES_def CHECK_LIMIT_def honest_def)

lemma splice_front:
  "length ws = k \<Longrightarrow> off + k + length vs \<le> length bs \<Longrightarrow>
     splice (splice bs (off + k) vs) off ws = splice bs off (ws @ vs)"
  by (simp add: splice_def drop_take take_drop min_def ac_simps)

lemma length_wire [simp]:
  "length (wire_8 x) = 1" "length (wire_16 y) = 2" "length (wire_32 z) = 4" "length (wire_64 w) = 8"
  by (simp_all add: wire_8_def wire_16_def wire_32_def wire_64_def)

lemma put_entries_start:
  "put_entries t = enc_all [] \<and> wire_entries t = [] \<or> (\<exists>v es. put_entries t = enc_all (put_8 v # es))"
proof (cases t)
  case (Cons e es)
  then show ?thesis by (cases e) (auto simp only: put_entries.simps)
qed simp

lemma emits_frame:
  assumes em: "emits entries ws" and start: "entries = enc_all [] \<and> ws = [] \<or> (\<exists>v es. entries = enc_all (put_8 v # es))"
  shows "emits (put_frame entries) (wire_32 (word_of_nat (length ws)) @ ws)"
  unfolding emits_def
proof (intro allI impI)
  fix b off
  assume b: "honest b" and off: "off \<le> buf_len b"
  let ?size = "wire_32 (word_of_nat (length ws))"
  have len: "length ?size = 4" by (simp add: wire_32_def)
  show "put_frame entries (b, off) =
      (if off + length (?size @ ws) \<le> buf_len b
       then Inr (b\<lparr>buf_bytes := splice (buf_bytes b) off (?size @ ws)\<rparr>, off + length (?size @ ws))
       else Inl EFAULT)"
  proof (cases "off + 4 \<le> buf_len b")
    case no_room: False
    show ?thesis
    proof (cases "\<exists>v es. entries = enc_all (put_8 v # es)")
      case True
      then obtain v es where "entries = enc_all (put_8 v # es)" by blast
      with put_8_fails [OF b, of "off + 4"] no_room off show ?thesis
        by (simp add: put_frame_def len)
    next
      case False
      with start have "entries = enc_all []" "ws = []" by blast+
      with b no_room off show ?thesis
        by (simp add: put_frame_def E_32_def E_BYTES_def CHECK_LIMIT_honest len)
    qed
  next
    case room: True
    show ?thesis
    proof (cases "off + 4 + length ws \<le> buf_len b")
      case False
      with em b room show ?thesis by (simp add: put_frame_def emits_def len)
    next
      case True
      let ?b = "b\<lparr>buf_bytes := splice (buf_bytes b) (off + 4) ws\<rparr>"
      have "entries (b, off + 4) = Inr (?b, off + 4 + length ws)"
        using em b room True by (simp add: emits_def)
      moreover have "honest ?b" using b True by (rule honest_splice)
      moreover have "splice (splice (buf_bytes b) (off + 4) ws) off ?size =
          splice (buf_bytes b) off (?size @ ws)"
        using b True len by (intro splice_front) (simp_all add: honest_def)
      ultimately show ?thesis
        using b True off
        by (simp add: put_frame_def E_32_def E_BYTES_def CHECK_LIMIT_honest len wire_32_def honest_def)
    qed
  qed
qed

lemma emits_tagged: "emits e ws \<Longrightarrow> emits (enc_all [put_8 k, e]) (k # ws)"
  using emits_Cons [OF emits_8 [of k] emits_Cons [of e ws "[]" "[]"]] emits_nil
  by (simp only: append_Cons append_Nil append_Nil2)

lemma emits_value_entries:
  "valid_value v \<Longrightarrow> emits (put_value v) (kind_of v # wire_value v)"
  "valid_entries es \<Longrightarrow> emits (put_entries es) (wire_entries es)"
proof (induction v and es rule: put_value_put_entries.induct)
  case (5 t)
  have "emits (put_frame (put_entries t)) (wire_32 (word_of_nat (length (wire_entries t))) @ wire_entries t)"
    by (rule emits_frame [OF _ put_entries_start]) (use 5 in simp)
  then show ?case
    unfolding put_value.simps kind_of.simps wire_value.simps by (rule emits_tagged)
next
  case (8 key v es)
  then have "emits (put_value v) (kind_of v # wire_value v)" "emits (put_entries es) (wire_entries es)"
    "length key < 2 ^ 33" by (simp_all add: shortstr_def)
  from emits_Cons [OF emits_8 [of "word_of_nat (length key)"] emits_Cons [OF emits_bytes [OF this(3)]
      emits_Cons [OF this(1) emits_Cons [OF this(2) emits_nil]]]]
  show ?case
    by (simp only: put_entries.simps wire_entry wire_8_def append_Cons append_Nil append_Nil2)
next
  case (1 s)
  then show ?case
    unfolding put_value.simps kind_of.simps wire_value.simps
    by (intro emits_tagged emits_longstr) simp
next
  case (2 v)
  show ?case
    unfolding put_value.simps kind_of.simps wire_value.simps wire_32_def
    by (rule emits_tagged [OF emits_32])
next
  case (3 d v)
  have "emits (enc_all [put_8 (ucast d), put_32 v]) (wire_8 (ucast d) @ wire_32 v)"
    using emits_tagged [OF emits_32, of "ucast d" v] by (simp only: wire_8_def wire_32_def append_Cons append_Nil)
  from emits_Cons [OF emits_8 [of kind_D] this] show ?case
    by (simp only: put_value.simps kind_of.simps wire_value.simps append_Cons append_Nil)
next
  case (4 v)
  show ?case
    unfolding put_value.simps kind_of.simps wire_value.simps wire_64_def wire_32_def
    by (rule emits_tagged [OF emits_64])
next
  case (6 k)
  then show ?case by simp
next
  case 7
  show ?case unfolding put_entries.simps wire_entries.simps by (rule emits_nil)
qed

lemma emits_table: "valid_entries t \<Longrightarrow> emits (amqp_encode_table t) (wire_table t)"
  unfolding amqp_encode_table_def wire_table_def
  by (intro emits_frame emits_value_entries(2) put_entries_start)

section \<open>Decoding parses them\<close>

lemma parses_malloc: "enough_memory mem \<Longrightarrow> parses (c_malloc mem n) [] ()"
  by (simp add: parses_def c_malloc_def enough_memory_def dret_def)

lemma parses_pool: "enough_memory mem \<Longrightarrow> parses (pool_alloc mem n) [] ()"
  by (simp add: parses_def pool_alloc_def enough_memory_def dret_def)

lemma grow_ok: "enough_memory mem \<Longrightarrow> \<exists>k'. grow_entries mem n k b off = Inr (k', off)"
  by (simp add: grow_entries_def dbind_def c_malloc_def enough_memory_def dret_def)

lemma table_limit_exact: "off + n < 2 ^ 31 \<Longrightarrow> table_limit off (word_of_nat n) = int (off + n)"
proof -
  assume a: "off + n < 2 ^ 31"
  have "m < 2 ^ 31 \<Longrightarrow> unat (word_of_nat m :: u32) = m" for m by (simp add: unat_of_nat)
  from this [OF a] have u: "uint (word_of_nat (off + n) :: u32) = int (off + n)" by (simp only: uint_nat)
  have "table_limit off (word_of_nat n) = sint (word_of_nat (off + n) :: u32)"
    by (simp add: table_limit_def)
  also have "\<dots> = signed_take_bit 31 (int (off + n))" unfolding sint_uint u by simp
  also have "\<dots> = int (off + n)" using a by (intro signed_take_bit_int_eq_self) simp_all
  finally show ?thesis .
qed

lemma dbind_step: "m b off = Inr (v, p) \<Longrightarrow> dbind m f b off = f v b p"
  by (simp add: dbind_def)

lemma parses_at:
  "parses d ws v \<Longrightarrow> honest b \<Longrightarrow> buf_bytes b = pre @ ws @ post \<Longrightarrow> length pre = off \<Longrightarrow>
     d b off = Inr (v, off + length ws)"
  by (auto simp: parses_def)

definition entries_parse :: "memory \<Rightarrow> table \<Rightarrow> bool" where
  "entries_parse mem t \<longleftrightarrow>
     (\<forall>n k b pre post. honest b \<longrightarrow> buf_bytes b = pre @ wire_entries t @ post \<longrightarrow>
        decode_entries mem (int (length pre + length (wire_entries t))) n k b (length pre) =
          Inr (t, length pre + length (wire_entries t)))"

lemma parses_frame:
  assumes mem: "enough_memory mem" and t: "entries_parse mem t"
  shows "parses (amqp_decode_table mem) (wire_table t) t"
  unfolding parses_def
proof (intro allI impI)
  fix b pre post
  assume b: "honest b" and eq: "buf_bytes b = pre @ wire_table t @ post"
  let ?n = "length (wire_entries t)" and ?w = "wire_32 (word_of_nat (length (wire_entries t)))"
  have size: "get_32 b (length pre) = Inr (word_of_nat ?n, length pre + 4)"
    using parses_32 [of "word_of_nat ?n"] b eq
    by (simp add: parses_def wire_table_def wire_32_def)
  have eq': "buf_bytes b = (pre @ ?w) @ wire_entries t @ post" using eq by (simp add: wire_table_def)
  have "length (pre @ ?w) + ?n < 2 ^ 31" using b eq' by (simp add: honest_def)
  then have lim: "table_limit (length (pre @ ?w)) (word_of_nat ?n) = int (length (pre @ ?w) + ?n)"
    by (rule table_limit_exact)
  have loop: "decode_entries mem (int (length (pre @ ?w) + ?n)) 0 INITIAL_TABLE_SIZE b (length (pre @ ?w))
      = Inr (t, length (pre @ ?w) + ?n)"
    using t b eq' unfolding entries_parse_def by blast
  show "amqp_decode_table mem b (length pre) = Inr (t, length pre + length (wire_table t))"
    using mem size lim loop
    by (simp add: amqp_decode_table_def table_frame_def dbind_def c_malloc_def pool_alloc_def
        enough_memory_def dret_def wire_table_def)
qed

lemma parses_value_entries:
  assumes mem: "enough_memory mem"
  shows "valid_value v \<Longrightarrow>
      parses (\<lambda>b p. if kind_of v = kind_F
                 then dbind (table_frame mem (\<lambda>lim. decode_entries mem lim 0 INITIAL_TABLE_SIZE))
                        (\<lambda>t. dret (Val_F t)) b p
                 else get_scalar (kind_of v) b p) (wire_value v) v"
    and "valid_entries es \<Longrightarrow> entries_parse mem es"
proof (induction v and es rule: put_value_put_entries.induct)
  case (1 s)
  then have "parses (get_scalar kind_S) (wire_longstr s) (Val_S s)"
    by (simp add: get_scalar_def) (intro parses_bind_nil [OF parses_longstr]; simp)
  then show ?case by (simp add: kind_defs)
next
  case (2 v)
  have "parses (get_scalar kind_I) (wire_32 v) (Val_I v)"
    by (simp add: get_scalar_def kind_defs wire_32_def) (intro parses_bind_nil [OF parses_32]; simp)
  then show ?case by (simp add: kind_defs)
next
  case (3 d v)
  have d: "(ucast (ucast d :: byte) :: u32) = d"
  proof -
    have "unat (ucast (ucast d :: byte) :: u32) = unat d"
      using 3 by (simp add: unsigned_ucast_eq take_bit_eq_mod unat_mod_distrib)
    then show ?thesis by (rule word_unat_eq_iff [THEN iffD2])
  qed
  have "parses (dbind get_8 (\<lambda>d. dbind get_32 (\<lambda>v. dret (Val_D (ucast d) v)))) ([ucast d] @ be_bytes 4 (unat v)) (Val_D d v)"
    by (rule parses_bind [OF parses_8], rule parses_bind_nil [OF parses_32]) (simp add: d)
  then show ?case by (simp add: kind_defs get_scalar_def wire_8_def wire_32_def)
next
  case (4 v)
  have "parses (get_scalar kind_T) (wire_64 v) (Val_T v)"
    by (simp add: get_scalar_def kind_defs wire_64_def wire_32_def)
       (intro parses_bind_nil [OF parses_64]; simp)
  then show ?case by (simp add: kind_defs)
next
  case (5 t)
  then have "parses (amqp_decode_table mem) (wire_table t) t" by (intro parses_frame mem) simp
  from parses_bind_nil [OF this, of "\<lambda>t. dret (Val_F t)" "Val_F t"]
  show ?case by (simp add: amqp_decode_table_def wire_table_def)
next
  case 7
  show ?case by (simp add: entries_parse_def decode_entries.simps)
next
  case (8 key v es)
  let ?key = "wire_8 (word_of_nat (length key))"
  show ?case
    unfolding entries_parse_def
  proof (intro allI impI)
    fix n k b pre post
    assume b: "honest b" and eq: "buf_bytes b = pre @ wire_entries ((key, v) # es) @ post"
    let ?lim = "int (length pre + length (wire_entries ((key, v) # es)))"
    have kl: "unat (word_of_nat (length key) :: byte) = length key"
      using 8 by (simp add: shortstr_def unat_of_nat)
    obtain k' where grow: "grow_entries mem n k b (length pre + 1) = Inr (k', length pre + 1)"
      using grow_ok [OF mem] by blast
    have r1: "get_8 b (length pre) = Inr (word_of_nat (length key), length pre + 1)"
      using parses_at [OF parses_8 b, of pre "word_of_nat (length key)"] eq
      by (simp add: wire_entry wire_8_def)
    have r2: "get_bytes (length key) b (length pre + 1) = Inr (key, length pre + 1 + length key)"
      by (rule parses_at [OF parses_bytes b, where pre = "pre @ ?key"])
         (use eq 8(3) in \<open>simp_all add: wire_entry shortstr_def\<close>)
    have r3: "get_8 b (length pre + 1 + length key) = Inr (kind_of v, length pre + 1 + length key + 1)"
      using parses_at [OF parses_8 b, where pre = "pre @ ?key @ key"] eq by (simp add: wire_entry)
    let ?p = "length pre + 1 + length key + 1"
    have "parses (\<lambda>b p. if kind_of v = kind_F
                 then dbind (table_frame mem (\<lambda>lim. decode_entries mem lim 0 INITIAL_TABLE_SIZE))
                        (\<lambda>t. dret (Val_F t)) b p
                 else get_scalar (kind_of v) b p) (wire_value v) v"
      using 8(1,3) by simp
    then have r4: "(if kind_of v = kind_F
                 then dbind (table_frame mem (\<lambda>lim. decode_entries mem lim 0 INITIAL_TABLE_SIZE))
                        (\<lambda>t. dret (Val_F t)) b ?p
                 else get_scalar (kind_of v) b ?p) = Inr (v, ?p + length (wire_value v))"
      by (rule parses_at [OF _ b, where pre = "pre @ ?key @ key @ [kind_of v]"])
         (use eq in \<open>simp_all add: wire_entry\<close>)
    have r5: "decode_entries mem (int (length (pre @ ?key @ key @ [kind_of v] @ wire_value v) +
          length (wire_entries es))) (n + 1) k' b (length (pre @ ?key @ key @ [kind_of v] @ wire_value v)) =
        Inr (es, length (pre @ ?key @ key @ [kind_of v] @ wire_value v) + length (wire_entries es))"
      using 8(2) 8(3) b eq unfolding entries_parse_def wire_entry
      by (metis append_assoc valid_entries.simps(2))
    have len: "length (pre @ ?key @ key @ [kind_of v] @ wire_value v) = ?p + length (wire_value v)"
      "length pre + length (wire_entries ((key, v) # es)) =
         ?p + length (wire_value v) + length (wire_entries es)"
      by (simp_all add: wire_entry)
    have lim: "?lim = int (length (pre @ ?key @ key @ [kind_of v] @ wire_value v) +
        length (wire_entries es))" by (simp add: wire_entry)
    have r5': "decode_entries mem ?lim (n + 1) k' b (?p + length (wire_value v)) =
        Inr (es, ?p + length (wire_value v) + length (wire_entries es))"
      unfolding lim using r5 by (simp only: len(1))
    show "decode_entries mem ?lim n k b (length pre) =
        Inr ((key, v) # es, length pre + length (wire_entries ((key, v) # es)))"
      unfolding len(2) [symmetric]
      by (subst decode_entries.simps)
         (simp only: dbind_step [of get_8, OF r1] dbind_step [of "grow_entries mem n k", OF grow] kl
           dbind_step [of "get_bytes (length key)", OF r2] dbind_step [of get_8, OF r3],
          simp only: dbind_def [of "\<lambda>b p. if kind_of v = kind_F then _ b p else _ b p"] r4 sum.case
            prod.case dbind_step [of "decode_entries mem ?lim (n + 1) k'", OF r5'],
          simp add: dret_def len(2) wire_entry)
  qed
qed simp_all

interpretation field_table: field_codec amqp_encode_table "amqp_decode_table mem" wire_table
  "\<lambda>t. enough_memory mem \<and> valid_entries t" for mem
  by unfold_locales (auto intro: emits_table parses_frame parses_value_entries(2))

section \<open>Decoding never leaves the buffer\<close>

lemma safe_malloc [safe_intros]: "reads_safely (c_malloc mem n)"
  unfolding c_malloc_def by (intro safe_intros) simp

lemma safe_pool:
  "(\<And>n. pool_ok mem n) \<Longrightarrow> reads_safely (pool_alloc mem n)"
  by (simp add: pool_alloc_def safe_dret)

lemma safe_grow [safe_intros]: "reads_safely (grow_entries mem n k)"
  unfolding grow_entries_def by (intro safe_intros)

lemma safe_scalar [safe_intros]: "reads_safely (get_scalar kind)"
  unfolding get_scalar_def by (intro safe_intros) simp

lemma safe_at: "reads_safely d \<Longrightarrow> honest b \<Longrightarrow> off \<le> buf_len b \<Longrightarrow> safe_result b off (d b off)"
  by (simp add: reads_safely_def)

lemma safe_frame_result:
  assumes pool: "\<And>n. pool_ok mem n" and b: "honest b" "off \<le> buf_len b"
    and loop: "\<And>lim. off + 4 \<le> buf_len b \<Longrightarrow> safe_result b (off + 4) (loop lim b (off + 4))"
  shows "safe_result b off (table_frame mem loop b off)"
  unfolding table_frame_def
proof (rule safe_bind_result)
  show "safe_result b off (get_32 b off)" by (rule safe_at [OF safe_get_32 b])
  fix size p
  assume "get_32 b off = Inr (size, p)" and p: "p \<le> buf_len b"
  then have "p = off + 4" using get_32_Inr by blast
  with loop p have l: "safe_result b p (loop lim b p)" for lim by simp
  have rest: "safe_result b p (dbind (loop lim)
      (\<lambda>es. dbind (pool_alloc mem (length es * sizeof_entry)) (\<lambda>_. dret es)) b p)" for lim
    by (rule safe_bind_result [of b p "loop lim", OF l])
       (auto intro!: safe_at b safe_bind safe_dret safe_pool pool)
  show "safe_result b p (dbind (c_malloc mem (INITIAL_TABLE_SIZE * sizeof_entry)) (\<lambda>_ b off.
       dbind (loop (table_limit off size))
         (\<lambda>es. dbind (pool_alloc mem (length es * sizeof_entry)) (\<lambda>_. dret es)) b off) b p)"
  proof (rule safe_bind_result)
    show "safe_result b p (c_malloc mem (INITIAL_TABLE_SIZE * sizeof_entry) b p)"
      by (rule safe_at [OF safe_malloc b(1) p])
  qed (auto simp: c_malloc_Inr intro: rest)
qed

lemma safe_entries:
  assumes "\<And>n. pool_ok mem n" and "honest b" and "off \<le> buf_len b"
  shows "safe_result b off (decode_entries mem lim n k b off)"
  using assms
proof (induction mem lim n k b off rule: decode_entries.induct)
  case (1 mem lim n k b off)
  show ?case
  proof (cases "int off < lim")
    case False
    with 1 show ?thesis by (simp add: decode_entries.simps safe_result_def)
  next
    case lim: True
    have at: "safe_result b p (d b p)" if "reads_safely d" "p \<le> buf_len b" for d p
      using that 1(4) by (rule_tac safe_at)
    have byte: "unat (v :: byte) < 2 ^ 33" for v using unat_bound [of v] by simp
    have val: "safe_result b p (if kind = kind_F
          then dbind (table_frame mem (\<lambda>lim. decode_entries mem lim 0 INITIAL_TABLE_SIZE))
                 (\<lambda>t. dret (Val_F t)) b p
          else get_scalar kind b p)"
      if r: "get_8 b off = Inr (kl, p1)" "grow_entries mem n k b p1 = Inr (k', p2)"
        "get_bytes (unat kl) b p2 = Inr (key, p3)" "get_8 b p3 = Inr (kind, p)" and p: "p \<le> buf_len b"
      for kl p1 k' p2 key p3 kind p
    proof (cases "kind = kind_F")
      case True
      have "safe_result b p (table_frame mem (\<lambda>lim. decode_entries mem lim 0 INITIAL_TABLE_SIZE) b p)"
        by (rule safe_frame_result [OF 1(3,4) p], rule 1(1) [OF lim r True])
           (use 1(3,4) in \<open>auto simp: honest_def\<close>)
      with True show ?thesis
        by (simp, intro safe_bind_result) (auto intro: at safe_dret)
    next
      case False
      with at [OF safe_scalar p] show ?thesis by simp
    qed
    show ?thesis
      unfolding decode_entries.simps [of mem lim n k b off] if_P [OF lim]
      by (rule safe_bind_result, rule at [OF safe_get_8 1(5)],
          rule safe_bind_result, rule at [OF safe_grow], assumption,
          rule safe_bind_result, rule at [OF safe_get_bytes [OF byte]], assumption,
          rule safe_bind_result, rule at [OF safe_get_8], assumption,
          rule safe_bind_result, rule val, assumption+,
          rule safe_bind_result, rule 1(2) [OF lim], assumption+, rule 1(3), rule 1(4), assumption,
          rule at [OF safe_dret], assumption)
  qed
qed

lemma safe_decode_table:
  assumes "\<And>n. pool_ok mem n"
  shows "reads_safely (amqp_decode_table mem)"
  unfolding reads_safely_def amqp_decode_table_def
  using assms by (intro allI impI safe_frame_result safe_entries)

end
