(* ===== verification/Codec.thy ===== *)
theory Codec
  imports Table
begin

text \<open>
  What the per-class theories of \<open>amqp_framing.c\<close> share: the rules that compose the contracts of
  the fields into the contract of a whole struct, the property fields that are present only when
  their flag is set, and the flag words in front of them.
\<close>

section \<open>Structs as sequences of fields\<close>

named_theorems emit_intros
named_theorems parse_intros

lemma emits_seq [emit_intros]:
  "emits e ws \<Longrightarrow> emits (enc_all es) (concat wss) \<Longrightarrow> emits (enc_all (e # es)) (concat (ws # wss))"
  using emits_Cons [of e ws es "concat wss"] by simp

lemma emits_empty [emit_intros]: "emits (enc_all []) (concat [])"
  using emits_nil by simp

lemma emits_fields [emit_intros]:
  "emits (put_8 a) (wire_8 a)" "emits (put_16 b) (wire_16 b)" "emits (put_32 c) (wire_32 c)"
  "emits (put_64 d) (wire_64 d)"
  "shortstr s \<Longrightarrow> emits (put_shortstr s) (wire_shortstr s)"
  "longstr s \<Longrightarrow> emits (put_longstr s) (wire_longstr s)"
  "valid_entries t \<Longrightarrow> emits (amqp_encode_table t) (wire_table t)"
  by (auto intro: octet.put_emits short_int.put_emits long_int.put_emits longlong_int.put_emits
      short_string.put_emits long_string.put_emits emits_table)

lemma emits_bits [emit_intros]: "emits (put_bits vs) (wire_bits vs)"
  by (simp add: put_bits_def wire_bits_def emits_fields)

lemma parses_seq:
  "parses d ws v \<Longrightarrow> parses (f v) (concat wss) r \<Longrightarrow> parses (dbind d f) (concat (ws # wss)) r"
  using parses_bind [of d ws v f "concat wss" r] by simp

lemma parses_end [parse_intros]: "r = r' \<Longrightarrow> parses (dret r) (concat []) r'"
  by (simp add: parses_dret)

lemma parses_alloc [parse_intros]:
  "enough_memory mem \<Longrightarrow> parses (f ()) ws r \<Longrightarrow> parses (dbind (pool_alloc mem n) f) ws r"
  using parses_bind [OF parses_pool, of mem f ws r n] by simp

lemma parses_fields [parse_intros]:
  "parses (f8 a) (concat wss) r \<Longrightarrow> parses (dbind get_8 f8) (concat (wire_8 a # wss)) r"
  "parses (f16 b) (concat wss) r \<Longrightarrow> parses (dbind get_16 f16) (concat (wire_16 b # wss)) r"
  "parses (f32 c) (concat wss) r \<Longrightarrow> parses (dbind get_32 f32) (concat (wire_32 c # wss)) r"
  "parses (f64 d) (concat wss) r \<Longrightarrow> parses (dbind get_64 f64) (concat (wire_64 d # wss)) r"
  by (rule parses_seq, rule octet.get_parses short_int.get_parses long_int.get_parses
        longlong_int.get_parses, simp, assumption)+

lemma parses_strings [parse_intros]:
  "shortstr s \<Longrightarrow> parses (f s) (concat wss) r \<Longrightarrow>
     parses (dbind get_shortstr f) (concat (wire_shortstr s # wss)) r"
  "longstr s \<Longrightarrow> parses (f s) (concat wss) r \<Longrightarrow>
     parses (dbind get_longstr f) (concat (wire_longstr s # wss)) r"
  by (rule parses_seq, rule short_string.get_parses long_string.get_parses, assumption, assumption)+

lemma parses_table_field [parse_intros]:
  "enough_memory mem \<Longrightarrow> valid_entries t \<Longrightarrow> parses (f t) (concat wss) r \<Longrightarrow>
     parses (dbind (amqp_decode_table mem) f) (concat (wire_table t # wss)) r"
  by (rule parses_seq, rule field_table.get_parses, simp, assumption)

lemma parses_bit_field [parse_intros]:
  "length vs = n \<Longrightarrow> n \<le> 8 \<Longrightarrow> parses (f vs) (concat wss) r \<Longrightarrow>
     parses (dbind (get_bits n) f) (concat (wire_bits vs # wss)) r"
  by (rule parses_seq, rule bit_field.get_parses, simp, assumption)

section \<open>Optional property fields\<close>

text \<open>
  \<open>if (flags & (1 << n)) { .. }\<close>.  A property whose flag is clear is left unset by the decoder:
  the memory of the pool holds whatever it held.  The model has the zero value there.
\<close>

definition get_if :: "u32 \<Rightarrow> nat \<Rightarrow> 'a dec \<Rightarrow> 'a \<Rightarrow> 'a dec" where
  "get_if flags n d unset = (if bit flags n then d else dret unset)"

definition put_if :: "u32 \<Rightarrow> nat \<Rightarrow> enc \<Rightarrow> enc" where
  "put_if flags n e = (if bit flags n then e else enc_all [])"

definition wire_if :: "u32 \<Rightarrow> nat \<Rightarrow> byte list \<Rightarrow> byte list" where
  "wire_if flags n ws = (if bit flags n then ws else [])"

lemma emits_if [emit_intros]:
  "(bit flags n \<Longrightarrow> emits e ws) \<Longrightarrow> emits (put_if flags n e) (wire_if flags n ws)"
  using emits_nil by (simp add: put_if_def wire_if_def)

lemma parses_if:
  assumes "bit flags n \<Longrightarrow> parses d ws v" and "\<not> bit flags n \<Longrightarrow> v = unset"
    and "parses (f v) (concat wss) r"
  shows "parses (dbind (get_if flags n d unset) f) (concat (wire_if flags n ws # wss)) r"
proof (rule parses_seq)
  show "parses (get_if flags n d unset) (wire_if flags n ws) v"
    using assms(1,2) by (simp add: get_if_def wire_if_def parses_dret)
qed (rule assms(3))

lemma parses_leaf:
  "parses get_8 (wire_8 a) a" "parses get_16 (wire_16 b) b" "parses get_32 (wire_32 c) c"
  "parses get_64 (wire_64 d) d"
  "shortstr s \<Longrightarrow> parses get_shortstr (wire_shortstr s) s"
  "longstr s \<Longrightarrow> parses get_longstr (wire_longstr s) s"
  "enough_memory mem \<Longrightarrow> valid_entries t \<Longrightarrow> parses (amqp_decode_table mem) (wire_table t) t"
  by (auto intro: octet.get_parses short_int.get_parses long_int.get_parses longlong_int.get_parses
      short_string.get_parses long_string.get_parses field_table.get_parses)

text \<open>The same with the condition on the field as the \<open>valid_..\<close> definitions state it.\<close>

lemma parses_optional:
  "(if bit flags n then shortstr s else s = []) \<Longrightarrow> parses (fs s) (concat wss) r \<Longrightarrow>
     parses (dbind (get_if flags n get_shortstr []) fs) (concat (wire_if flags n (wire_shortstr s) # wss)) r"
  "enough_memory mem \<Longrightarrow> (if bit flags n then valid_entries t else t = []) \<Longrightarrow>
     parses (ft t) (concat wss) r \<Longrightarrow>
     parses (dbind (get_if flags n (amqp_decode_table mem) []) ft)
       (concat (wire_if flags n (wire_table t) # wss)) r"
  "bit flags n \<or> a = 0 \<Longrightarrow> parses (fa a) (concat wss) r \<Longrightarrow>
     parses (dbind (get_if flags n get_8 0) fa) (concat (wire_if flags n (wire_8 a) # wss)) r"
  "bit flags n \<or> d = 0 \<Longrightarrow> parses (fd d) (concat wss) r \<Longrightarrow>
     parses (dbind (get_if flags n get_64 0) fd) (concat (wire_if flags n (wire_64 d) # wss)) r"
  by (rule parses_if; auto intro: parses_leaf split: if_splits)+

lemma safe_if_field [safe_intros]: "reads_safely d \<Longrightarrow> reads_safely (get_if flags n d unset)"
  by (simp add: get_if_def safe_dret)

section \<open>The flag words\<close>

text \<open>
  The loop in front of \<open>amqp_decode_properties\<close>.  Shifting the third word by 32 bits or more is
  undefined in C.
\<close>

function decode_flags :: "nat \<Rightarrow> u32 \<Rightarrow> u32 dec" where
  "decode_flags flagword_index flags b off =
     dbind get_16 (\<lambda>partial_flags b off.
       if 32 \<le> flagword_index * 16 then Inl (Undefined Shift_Too_Wide)
       else
         let flags' = or flags (push_bit (flagword_index * 16) (ucast partial_flags))
         in if bit partial_flags 0 then decode_flags (flagword_index + 1) flags' b off
            else dret flags' b off) b off"
  by pat_completeness auto
termination
  by (relation "measure (\<lambda>(i, flags, b, off). 3 - i)") auto

declare decode_flags.simps [simp del]

text \<open>The loop in front of \<open>amqp_encode_properties\<close>.\<close>

function put_flags :: "u32 \<Rightarrow> enc" where
  "put_flags remaining_flags =
     (let remainder = drop_bit 16 remaining_flags;
          low = (ucast (and remaining_flags 0xFFFE) :: u16);
          partial_flags = (if remainder \<noteq> 0 then or low 1 else low)
      in enc_all [put_16 partial_flags, if remainder \<noteq> 0 then put_flags remainder else enc_all []])"
  by pat_completeness auto
termination
proof (relation "measure unat", goal_cases)
  case (2 r)
  then have "r \<noteq> 0" by auto
  then have "0 < unat r" by (simp add: unat_gt_0)
  then have "unat r div 2 ^ 16 < unat r" by simp
  then show ?case by (simp add: 2 drop_bit_eq_div unat_div_distrib)
qed simp

declare put_flags.simps [simp del]

text \<open>The flags the code defines fit one word and leave its continuation bit clear.\<close>

definition valid_flags :: "u32 \<Rightarrow> bool" where
  "valid_flags flags \<longleftrightarrow> (\<forall>n. bit flags n \<longrightarrow> 0 < n \<and> n < 16)"

definition wire_flags :: "u32 \<Rightarrow> byte list" where
  "wire_flags flags = wire_16 (ucast flags)"

lemma emits_flags [emit_intros]:
  assumes "valid_flags flags"
  shows "emits (put_flags flags) (wire_flags flags)"
proof -
  have high: "drop_bit 16 flags = 0"
    by (rule bit_word_eqI) (use assms in \<open>auto simp: valid_flags_def bit_drop_bit_eq\<close>)
  have mask: "(0xFFFE :: u32) = push_bit 1 (mask 15)"
    by (simp add: mask_eq_exp_minus_1 push_bit_eq_mult)
  have mask_bits: "bit (0xFFFE :: u32) n \<longleftrightarrow> 0 < n \<and> n < 16" for n
    unfolding mask bit_push_bit_iff bit_mask_iff by auto
  have low: "(ucast (and flags 0xFFFE) :: u16) = ucast flags"
  proof (rule bit_word_eqI)
    fix n assume "n < LENGTH(16)"
    then show "bit (ucast (and flags 0xFFFE) :: u16) n = bit (ucast flags :: u16) n"
      using assms
      by (simp only: bit_ucast_iff bit_and_iff mask_bits) (auto simp: valid_flags_def)
  qed
  have "put_flags flags = enc_all [put_16 (ucast flags), enc_all []]"
    by (subst put_flags.simps) (simp add: high low Let_def)
  then show ?thesis
    using emits_Cons [OF emits_16 emits_Cons [OF emits_nil emits_nil], of "ucast flags"]
    by (simp only: wire_flags_def wire_16_def append_Nil2)
qed

lemma parses_flags:
  assumes "valid_flags flags"
  shows "parses (decode_flags 0 0) (wire_flags flags) flags"
proof -
  have b0: "\<not> bit (ucast flags :: u16) 0" using assms by (auto simp: valid_flags_def bit_simps)
  have "(ucast (ucast flags :: u16) :: u32) = flags"
    by (rule bit_word_eqI) (use assms in \<open>auto simp: valid_flags_def bit_simps\<close>)
  then have "parses (dbind get_16 (\<lambda>partial_flags b off.
       if 32 \<le> (0::nat) * 16 then Inl (Undefined Shift_Too_Wide)
       else
         let flags' = or 0 (push_bit (0 * 16) (ucast partial_flags))
         in if bit partial_flags 0 then decode_flags (0 + 1) flags' b off
            else dret flags' b off)) (wire_16 (ucast flags)) flags"
    by (intro parses_bind_nil [OF parses_leaf(2)]) (simp add: b0)
  then show ?thesis
    unfolding parses_def wire_flags_def by (subst decode_flags.simps)
qed

lemma parses_flag_words [parse_intros]:
  "valid_flags flags \<Longrightarrow> parses (f flags) (concat wss) r \<Longrightarrow>
     parses (dbind (decode_flags 0 0) f) (concat (wire_flags flags # wss)) r"
  by (rule parses_seq [OF parses_flags])

end
