(* ===== verification/Framing_Connection.thy ===== *)
theory Framing_Connection
  imports Codec
begin

text \<open>
  Method structs of \<open>src/src/librabbitmq/amqp_framing.h\<close> and their cases of
  \<open>amqp_decode_method\<close> and \<open>amqp_encode_method\<close> in \<open>amqp_framing.c\<close>: classes connection, channel, access.  One
  decoder and one encoder per method, field by field in the order of the code, and for the class
  the bytes of each method, the proof that the encoder emits them, that the decoder parses them
  back, and that the decoder stays inside any buffer.
\<close>

section \<open>Class connection\<close>

definition AMQP_CONNECTION_START_METHOD :: u32 where "AMQP_CONNECTION_START_METHOD = 0x000A000A"
definition AMQP_CONNECTION_START_OK_METHOD :: u32 where "AMQP_CONNECTION_START_OK_METHOD = 0x000A000B"
definition AMQP_CONNECTION_SECURE_METHOD :: u32 where "AMQP_CONNECTION_SECURE_METHOD = 0x000A0014"
definition AMQP_CONNECTION_SECURE_OK_METHOD :: u32 where "AMQP_CONNECTION_SECURE_OK_METHOD = 0x000A0015"
definition AMQP_CONNECTION_TUNE_METHOD :: u32 where "AMQP_CONNECTION_TUNE_METHOD = 0x000A001E"
definition AMQP_CONNECTION_TUNE_OK_METHOD :: u32 where "AMQP_CONNECTION_TUNE_OK_METHOD = 0x000A001F"
definition AMQP_CONNECTION_OPEN_METHOD :: u32 where "AMQP_CONNECTION_OPEN_METHOD = 0x000A0028"
definition AMQP_CONNECTION_OPEN_OK_METHOD :: u32 where "AMQP_CONNECTION_OPEN_OK_METHOD = 0x000A0029"
definition AMQP_CONNECTION_REDIRECT_METHOD :: u32 where "AMQP_CONNECTION_REDIRECT_METHOD = 0x000A0032"
definition AMQP_CONNECTION_CLOSE_METHOD :: u32 where "AMQP_CONNECTION_CLOSE_METHOD = 0x000A003C"
definition AMQP_CONNECTION_CLOSE_OK_METHOD :: u32 where "AMQP_CONNECTION_CLOSE_OK_METHOD = 0x000A003D"

lemmas connection_ids =
  AMQP_CONNECTION_START_METHOD_def AMQP_CONNECTION_START_OK_METHOD_def
  AMQP_CONNECTION_SECURE_METHOD_def AMQP_CONNECTION_SECURE_OK_METHOD_def
  AMQP_CONNECTION_TUNE_METHOD_def AMQP_CONNECTION_TUNE_OK_METHOD_def
  AMQP_CONNECTION_OPEN_METHOD_def AMQP_CONNECTION_OPEN_OK_METHOD_def
  AMQP_CONNECTION_REDIRECT_METHOD_def AMQP_CONNECTION_CLOSE_METHOD_def
  AMQP_CONNECTION_CLOSE_OK_METHOD_def

datatype connection_method =
    AMQP_Connection_Start byte byte table "byte list" "byte list"
  | AMQP_Connection_Start_Ok table "byte list" "byte list" "byte list"
  | AMQP_Connection_Secure "byte list"
  | AMQP_Connection_Secure_Ok "byte list"
  | AMQP_Connection_Tune u16 u32 u16
  | AMQP_Connection_Tune_Ok u16 u32 u16
  | AMQP_Connection_Open "byte list" "byte list" bool
  | AMQP_Connection_Open_Ok "byte list"
  | AMQP_Connection_Redirect "byte list" "byte list"
  | AMQP_Connection_Close u16 "byte list" u16 u16
  | AMQP_Connection_Close_Ok

definition dec_connection_start :: "memory \<Rightarrow> connection_method dec" where
  "dec_connection_start mem =
     dbind (pool_alloc mem 56) (\<lambda>_.
     dbind get_8 (\<lambda>version_major.
     dbind get_8 (\<lambda>version_minor.
     dbind (amqp_decode_table mem) (\<lambda>server_properties.
     dbind get_longstr (\<lambda>mechanisms.
     dbind get_longstr (\<lambda>locales.
     dret (AMQP_Connection_Start version_major version_minor server_properties mechanisms locales)))))))"

definition enc_connection_start :: "byte \<Rightarrow> byte \<Rightarrow> table \<Rightarrow> byte list \<Rightarrow> byte list \<Rightarrow> enc" where
  "enc_connection_start version_major version_minor server_properties mechanisms locales =
     enc_all [put_8 version_major, put_8 version_minor, amqp_encode_table server_properties,
       put_longstr mechanisms, put_longstr locales]"

definition dec_connection_start_ok :: "memory \<Rightarrow> connection_method dec" where
  "dec_connection_start_ok mem =
     dbind (pool_alloc mem 64) (\<lambda>_.
     dbind (amqp_decode_table mem) (\<lambda>client_properties.
     dbind get_shortstr (\<lambda>mechanism.
     dbind get_longstr (\<lambda>response.
     dbind get_shortstr (\<lambda>locale_name.
     dret (AMQP_Connection_Start_Ok client_properties mechanism response locale_name))))))"

definition enc_connection_start_ok :: "table \<Rightarrow> byte list \<Rightarrow> byte list \<Rightarrow> byte list \<Rightarrow> enc" where
  "enc_connection_start_ok client_properties mechanism response locale_name =
     enc_all [amqp_encode_table client_properties, put_shortstr mechanism, put_longstr response,
       put_shortstr locale_name]"

definition dec_connection_secure :: "memory \<Rightarrow> connection_method dec" where
  "dec_connection_secure mem =
     dbind (pool_alloc mem 16) (\<lambda>_.
     dbind get_longstr (\<lambda>challenge.
     dret (AMQP_Connection_Secure challenge)))"

definition enc_connection_secure :: "byte list \<Rightarrow> enc" where
  "enc_connection_secure challenge =
     enc_all [put_longstr challenge]"

definition dec_connection_secure_ok :: "memory \<Rightarrow> connection_method dec" where
  "dec_connection_secure_ok mem =
     dbind (pool_alloc mem 16) (\<lambda>_.
     dbind get_longstr (\<lambda>response.
     dret (AMQP_Connection_Secure_Ok response)))"

definition enc_connection_secure_ok :: "byte list \<Rightarrow> enc" where
  "enc_connection_secure_ok response =
     enc_all [put_longstr response]"

definition dec_connection_tune :: "memory \<Rightarrow> connection_method dec" where
  "dec_connection_tune mem =
     dbind (pool_alloc mem 12) (\<lambda>_.
     dbind get_16 (\<lambda>channel_max.
     dbind get_32 (\<lambda>frame_max.
     dbind get_16 (\<lambda>heartbeat.
     dret (AMQP_Connection_Tune channel_max frame_max heartbeat)))))"

definition enc_connection_tune :: "u16 \<Rightarrow> u32 \<Rightarrow> u16 \<Rightarrow> enc" where
  "enc_connection_tune channel_max frame_max heartbeat =
     enc_all [put_16 channel_max, put_32 frame_max, put_16 heartbeat]"

definition dec_connection_tune_ok :: "memory \<Rightarrow> connection_method dec" where
  "dec_connection_tune_ok mem =
     dbind (pool_alloc mem 12) (\<lambda>_.
     dbind get_16 (\<lambda>channel_max.
     dbind get_32 (\<lambda>frame_max.
     dbind get_16 (\<lambda>heartbeat.
     dret (AMQP_Connection_Tune_Ok channel_max frame_max heartbeat)))))"

definition enc_connection_tune_ok :: "u16 \<Rightarrow> u32 \<Rightarrow> u16 \<Rightarrow> enc" where
  "enc_connection_tune_ok channel_max frame_max heartbeat =
     enc_all [put_16 channel_max, put_32 frame_max, put_16 heartbeat]"

definition dec_connection_open :: "memory \<Rightarrow> connection_method dec" where
  "dec_connection_open mem =
     dbind (pool_alloc mem 40) (\<lambda>_.
     dbind get_shortstr (\<lambda>virtual_host.
     dbind get_shortstr (\<lambda>capabilities.
     dbind (get_bits 1) (\<lambda>bits.
     dret (AMQP_Connection_Open virtual_host capabilities (bits ! 0))))))"

definition enc_connection_open :: "byte list \<Rightarrow> byte list \<Rightarrow> bool \<Rightarrow> enc" where
  "enc_connection_open virtual_host capabilities insist =
     enc_all [put_shortstr virtual_host, put_shortstr capabilities, put_bits [insist]]"

definition dec_connection_open_ok :: "memory \<Rightarrow> connection_method dec" where
  "dec_connection_open_ok mem =
     dbind (pool_alloc mem 16) (\<lambda>_.
     dbind get_shortstr (\<lambda>known_hosts.
     dret (AMQP_Connection_Open_Ok known_hosts)))"

definition enc_connection_open_ok :: "byte list \<Rightarrow> enc" where
  "enc_connection_open_ok known_hosts =
     enc_all [put_shortstr known_hosts]"

definition dec_connection_redirect :: "memory \<Rightarrow> connection_method dec" where
  "dec_connection_redirect mem =
     dbind (pool_alloc mem 32) (\<lambda>_.
     dbind get_shortstr (\<lambda>host.
     dbind get_shortstr (\<lambda>known_hosts.
     dret (AMQP_Connection_Redirect host known_hosts))))"

definition enc_connection_redirect :: "byte list \<Rightarrow> byte list \<Rightarrow> enc" where
  "enc_connection_redirect host known_hosts =
     enc_all [put_shortstr host, put_shortstr known_hosts]"

definition dec_connection_close :: "memory \<Rightarrow> connection_method dec" where
  "dec_connection_close mem =
     dbind (pool_alloc mem 32) (\<lambda>_.
     dbind get_16 (\<lambda>reply_code.
     dbind get_shortstr (\<lambda>reply_text.
     dbind get_16 (\<lambda>class_id.
     dbind get_16 (\<lambda>method_id.
     dret (AMQP_Connection_Close reply_code reply_text class_id method_id))))))"

definition enc_connection_close :: "u16 \<Rightarrow> byte list \<Rightarrow> u16 \<Rightarrow> u16 \<Rightarrow> enc" where
  "enc_connection_close reply_code reply_text class_id method_id =
     enc_all [put_16 reply_code, put_shortstr reply_text, put_16 class_id, put_16 method_id]"

definition dec_connection_close_ok :: "memory \<Rightarrow> connection_method dec" where
  "dec_connection_close_ok mem =
     dbind (pool_alloc mem 4) (\<lambda>_.
     dret AMQP_Connection_Close_Ok)"

definition enc_connection_close_ok :: "enc" where
  "enc_connection_close_ok =
     enc_all []"

text \<open>The \<open>switch\<close> of \<open>amqp_encode_method\<close> over this class.\<close>

fun encode_connection :: "connection_method \<Rightarrow> enc" where
  "encode_connection (AMQP_Connection_Start version_major version_minor server_properties mechanisms locales) =
     enc_connection_start version_major version_minor server_properties mechanisms locales"
| "encode_connection (AMQP_Connection_Start_Ok client_properties mechanism response locale_name) =
     enc_connection_start_ok client_properties mechanism response locale_name"
| "encode_connection (AMQP_Connection_Secure challenge) = enc_connection_secure challenge"
| "encode_connection (AMQP_Connection_Secure_Ok response) = enc_connection_secure_ok response"
| "encode_connection (AMQP_Connection_Tune channel_max frame_max heartbeat) =
     enc_connection_tune channel_max frame_max heartbeat"
| "encode_connection (AMQP_Connection_Tune_Ok channel_max frame_max heartbeat) =
     enc_connection_tune_ok channel_max frame_max heartbeat"
| "encode_connection (AMQP_Connection_Open virtual_host capabilities insist) =
     enc_connection_open virtual_host capabilities insist"
| "encode_connection (AMQP_Connection_Open_Ok known_hosts) = enc_connection_open_ok known_hosts"
| "encode_connection (AMQP_Connection_Redirect host known_hosts) =
     enc_connection_redirect host known_hosts"
| "encode_connection (AMQP_Connection_Close reply_code reply_text class_id method_id) =
     enc_connection_close reply_code reply_text class_id method_id"
| "encode_connection AMQP_Connection_Close_Ok = enc_connection_close_ok"

fun id_connection :: "connection_method \<Rightarrow> u32" where
  "id_connection (AMQP_Connection_Start _ _ _ _ _) = AMQP_CONNECTION_START_METHOD"
| "id_connection (AMQP_Connection_Start_Ok _ _ _ _) = AMQP_CONNECTION_START_OK_METHOD"
| "id_connection (AMQP_Connection_Secure _) = AMQP_CONNECTION_SECURE_METHOD"
| "id_connection (AMQP_Connection_Secure_Ok _) = AMQP_CONNECTION_SECURE_OK_METHOD"
| "id_connection (AMQP_Connection_Tune _ _ _) = AMQP_CONNECTION_TUNE_METHOD"
| "id_connection (AMQP_Connection_Tune_Ok _ _ _) = AMQP_CONNECTION_TUNE_OK_METHOD"
| "id_connection (AMQP_Connection_Open _ _ _) = AMQP_CONNECTION_OPEN_METHOD"
| "id_connection (AMQP_Connection_Open_Ok _) = AMQP_CONNECTION_OPEN_OK_METHOD"
| "id_connection (AMQP_Connection_Redirect _ _) = AMQP_CONNECTION_REDIRECT_METHOD"
| "id_connection (AMQP_Connection_Close _ _ _ _) = AMQP_CONNECTION_CLOSE_METHOD"
| "id_connection AMQP_Connection_Close_Ok = AMQP_CONNECTION_CLOSE_OK_METHOD"

text \<open>The \<open>switch\<close> of \<open>amqp_decode_method\<close> over this class.\<close>

definition decoders_connection :: "memory \<Rightarrow> (u32 \<times> connection_method dec) list" where
  "decoders_connection mem =
     [(AMQP_CONNECTION_START_METHOD, dec_connection_start mem),
      (AMQP_CONNECTION_START_OK_METHOD, dec_connection_start_ok mem),
      (AMQP_CONNECTION_SECURE_METHOD, dec_connection_secure mem),
      (AMQP_CONNECTION_SECURE_OK_METHOD, dec_connection_secure_ok mem),
      (AMQP_CONNECTION_TUNE_METHOD, dec_connection_tune mem),
      (AMQP_CONNECTION_TUNE_OK_METHOD, dec_connection_tune_ok mem),
      (AMQP_CONNECTION_OPEN_METHOD, dec_connection_open mem),
      (AMQP_CONNECTION_OPEN_OK_METHOD, dec_connection_open_ok mem),
      (AMQP_CONNECTION_REDIRECT_METHOD, dec_connection_redirect mem),
      (AMQP_CONNECTION_CLOSE_METHOD, dec_connection_close mem),
      (AMQP_CONNECTION_CLOSE_OK_METHOD, dec_connection_close_ok mem)]"

text \<open>The fields fit their length prefixes.\<close>

fun valid_connection :: "connection_method \<Rightarrow> bool" where
  "valid_connection (AMQP_Connection_Start _ _ server_properties mechanisms locales) =
     (valid_entries server_properties \<and> longstr mechanisms \<and> longstr locales)"
| "valid_connection (AMQP_Connection_Start_Ok client_properties mechanism response locale_name) =
     (valid_entries client_properties \<and> shortstr mechanism \<and> longstr response
     \<and> shortstr locale_name)"
| "valid_connection (AMQP_Connection_Secure challenge) = (longstr challenge)"
| "valid_connection (AMQP_Connection_Secure_Ok response) = (longstr response)"
| "valid_connection (AMQP_Connection_Tune _ _ _) = True"
| "valid_connection (AMQP_Connection_Tune_Ok _ _ _) = True"
| "valid_connection (AMQP_Connection_Open virtual_host capabilities _) =
     (shortstr virtual_host \<and> shortstr capabilities)"
| "valid_connection (AMQP_Connection_Open_Ok known_hosts) = (shortstr known_hosts)"
| "valid_connection (AMQP_Connection_Redirect host known_hosts) =
     (shortstr host \<and> shortstr known_hosts)"
| "valid_connection (AMQP_Connection_Close _ reply_text _ _) = (shortstr reply_text)"
| "valid_connection AMQP_Connection_Close_Ok = True"

fun wire_connection :: "connection_method \<Rightarrow> byte list" where
  "wire_connection (AMQP_Connection_Start version_major version_minor server_properties mechanisms locales) =
     concat
     [wire_8 version_major, wire_8 version_minor, wire_table server_properties, wire_longstr mechanisms, wire_longstr locales]"
| "wire_connection (AMQP_Connection_Start_Ok client_properties mechanism response locale_name) =
     concat
     [wire_table client_properties, wire_shortstr mechanism, wire_longstr response, wire_shortstr locale_name]"
| "wire_connection (AMQP_Connection_Secure challenge) = concat [wire_longstr challenge]"
| "wire_connection (AMQP_Connection_Secure_Ok response) = concat [wire_longstr response]"
| "wire_connection (AMQP_Connection_Tune channel_max frame_max heartbeat) =
     concat [wire_16 channel_max, wire_32 frame_max, wire_16 heartbeat]"
| "wire_connection (AMQP_Connection_Tune_Ok channel_max frame_max heartbeat) =
     concat [wire_16 channel_max, wire_32 frame_max, wire_16 heartbeat]"
| "wire_connection (AMQP_Connection_Open virtual_host capabilities insist) =
     concat [wire_shortstr virtual_host, wire_shortstr capabilities, wire_bits [insist]]"
| "wire_connection (AMQP_Connection_Open_Ok known_hosts) = concat [wire_shortstr known_hosts]"
| "wire_connection (AMQP_Connection_Redirect host known_hosts) =
     concat [wire_shortstr host, wire_shortstr known_hosts]"
| "wire_connection (AMQP_Connection_Close reply_code reply_text class_id method_id) =
     concat
     [wire_16 reply_code, wire_shortstr reply_text, wire_16 class_id, wire_16 method_id]"
| "wire_connection AMQP_Connection_Close_Ok = concat []"

declare wire_connection.simps [simp del]

lemma emits_connection: "valid_connection m \<Longrightarrow> emits (encode_connection m) (wire_connection m)"
  by (cases m;
      simp only: encode_connection.simps wire_connection.simps valid_connection.simps
        enc_connection_start_def enc_connection_start_ok_def enc_connection_secure_def
        enc_connection_secure_ok_def enc_connection_tune_def enc_connection_tune_ok_def
        enc_connection_open_def enc_connection_open_ok_def enc_connection_redirect_def
        enc_connection_close_def enc_connection_close_ok_def;
      intro emit_intros; simp)

lemma parses_connection:
  assumes "enough_memory mem" and "valid_connection m"
  shows "\<exists>d. map_of (decoders_connection mem) (id_connection m) = Some d \<and> parses d (wire_connection m) m"
  using assms
  by (cases m;
      simp add: decoders_connection_def connection_ids;
      unfold wire_connection.simps
        dec_connection_start_def dec_connection_start_ok_def dec_connection_secure_def
        dec_connection_secure_ok_def dec_connection_tune_def dec_connection_tune_ok_def
        dec_connection_open_def dec_connection_open_ok_def dec_connection_redirect_def
        dec_connection_close_def dec_connection_close_ok_def;
      intro parse_intros; simp)

lemma safe_connection:
  assumes "\<And>n. pool_ok mem n" and "map_of (decoders_connection mem) i = Some d"
  shows "reads_safely d"
proof -
  have "(i, d) \<in> set (decoders_connection mem)" using assms(2) by (rule map_of_SomeD)
  then show ?thesis
    unfolding decoders_connection_def list.set insert_iff prod.inject empty_iff
    by (elim disjE conjE FalseE; hypsubst;
        unfold
          dec_connection_start_def dec_connection_start_ok_def dec_connection_secure_def
          dec_connection_secure_ok_def dec_connection_tune_def dec_connection_tune_ok_def
          dec_connection_open_def dec_connection_open_ok_def dec_connection_redirect_def
          dec_connection_close_def dec_connection_close_ok_def;
        intro safe_intros safe_pool safe_decode_table assms(1))
qed

section \<open>Class channel\<close>

definition AMQP_CHANNEL_OPEN_METHOD :: u32 where "AMQP_CHANNEL_OPEN_METHOD = 0x0014000A"
definition AMQP_CHANNEL_OPEN_OK_METHOD :: u32 where "AMQP_CHANNEL_OPEN_OK_METHOD = 0x0014000B"
definition AMQP_CHANNEL_FLOW_METHOD :: u32 where "AMQP_CHANNEL_FLOW_METHOD = 0x00140014"
definition AMQP_CHANNEL_FLOW_OK_METHOD :: u32 where "AMQP_CHANNEL_FLOW_OK_METHOD = 0x00140015"
definition AMQP_CHANNEL_ALERT_METHOD :: u32 where "AMQP_CHANNEL_ALERT_METHOD = 0x0014001E"
definition AMQP_CHANNEL_CLOSE_METHOD :: u32 where "AMQP_CHANNEL_CLOSE_METHOD = 0x00140028"
definition AMQP_CHANNEL_CLOSE_OK_METHOD :: u32 where "AMQP_CHANNEL_CLOSE_OK_METHOD = 0x00140029"

lemmas channel_ids =
  AMQP_CHANNEL_OPEN_METHOD_def AMQP_CHANNEL_OPEN_OK_METHOD_def AMQP_CHANNEL_FLOW_METHOD_def
  AMQP_CHANNEL_FLOW_OK_METHOD_def AMQP_CHANNEL_ALERT_METHOD_def
  AMQP_CHANNEL_CLOSE_METHOD_def AMQP_CHANNEL_CLOSE_OK_METHOD_def

datatype channel_method =
    AMQP_Channel_Open "byte list"
  | AMQP_Channel_Open_Ok
  | AMQP_Channel_Flow bool
  | AMQP_Channel_Flow_Ok bool
  | AMQP_Channel_Alert u16 "byte list" table
  | AMQP_Channel_Close u16 "byte list" u16 u16
  | AMQP_Channel_Close_Ok

definition dec_channel_open :: "memory \<Rightarrow> channel_method dec" where
  "dec_channel_open mem =
     dbind (pool_alloc mem 16) (\<lambda>_.
     dbind get_shortstr (\<lambda>out_of_band.
     dret (AMQP_Channel_Open out_of_band)))"

definition enc_channel_open :: "byte list \<Rightarrow> enc" where
  "enc_channel_open out_of_band =
     enc_all [put_shortstr out_of_band]"

definition dec_channel_open_ok :: "memory \<Rightarrow> channel_method dec" where
  "dec_channel_open_ok mem =
     dbind (pool_alloc mem 4) (\<lambda>_.
     dret AMQP_Channel_Open_Ok)"

definition enc_channel_open_ok :: "enc" where
  "enc_channel_open_ok =
     enc_all []"

definition dec_channel_flow :: "memory \<Rightarrow> channel_method dec" where
  "dec_channel_flow mem =
     dbind (pool_alloc mem 4) (\<lambda>_.
     dbind (get_bits 1) (\<lambda>bits.
     dret (AMQP_Channel_Flow (bits ! 0))))"

definition enc_channel_flow :: "bool \<Rightarrow> enc" where
  "enc_channel_flow active =
     enc_all [put_bits [active]]"

definition dec_channel_flow_ok :: "memory \<Rightarrow> channel_method dec" where
  "dec_channel_flow_ok mem =
     dbind (pool_alloc mem 4) (\<lambda>_.
     dbind (get_bits 1) (\<lambda>bits.
     dret (AMQP_Channel_Flow_Ok (bits ! 0))))"

definition enc_channel_flow_ok :: "bool \<Rightarrow> enc" where
  "enc_channel_flow_ok active =
     enc_all [put_bits [active]]"

definition dec_channel_alert :: "memory \<Rightarrow> channel_method dec" where
  "dec_channel_alert mem =
     dbind (pool_alloc mem 40) (\<lambda>_.
     dbind get_16 (\<lambda>reply_code.
     dbind get_shortstr (\<lambda>reply_text.
     dbind (amqp_decode_table mem) (\<lambda>details.
     dret (AMQP_Channel_Alert reply_code reply_text details)))))"

definition enc_channel_alert :: "u16 \<Rightarrow> byte list \<Rightarrow> table \<Rightarrow> enc" where
  "enc_channel_alert reply_code reply_text details =
     enc_all [put_16 reply_code, put_shortstr reply_text, amqp_encode_table details]"

definition dec_channel_close :: "memory \<Rightarrow> channel_method dec" where
  "dec_channel_close mem =
     dbind (pool_alloc mem 32) (\<lambda>_.
     dbind get_16 (\<lambda>reply_code.
     dbind get_shortstr (\<lambda>reply_text.
     dbind get_16 (\<lambda>class_id.
     dbind get_16 (\<lambda>method_id.
     dret (AMQP_Channel_Close reply_code reply_text class_id method_id))))))"

definition enc_channel_close :: "u16 \<Rightarrow> byte list \<Rightarrow> u16 \<Rightarrow> u16 \<Rightarrow> enc" where
  "enc_channel_close reply_code reply_text class_id method_id =
     enc_all [put_16 reply_code, put_shortstr reply_text, put_16 class_id, put_16 method_id]"

definition dec_channel_close_ok :: "memory \<Rightarrow> channel_method dec" where
  "dec_channel_close_ok mem =
     dbind (pool_alloc mem 4) (\<lambda>_.
     dret AMQP_Channel_Close_Ok)"

definition enc_channel_close_ok :: "enc" where
  "enc_channel_close_ok =
     enc_all []"

text \<open>The \<open>switch\<close> of \<open>amqp_encode_method\<close> over this class.\<close>

fun encode_channel :: "channel_method \<Rightarrow> enc" where
  "encode_channel (AMQP_Channel_Open out_of_band) = enc_channel_open out_of_band"
| "encode_channel AMQP_Channel_Open_Ok = enc_channel_open_ok"
| "encode_channel (AMQP_Channel_Flow active) = enc_channel_flow active"
| "encode_channel (AMQP_Channel_Flow_Ok active) = enc_channel_flow_ok active"
| "encode_channel (AMQP_Channel_Alert reply_code reply_text details) =
     enc_channel_alert reply_code reply_text details"
| "encode_channel (AMQP_Channel_Close reply_code reply_text class_id method_id) =
     enc_channel_close reply_code reply_text class_id method_id"
| "encode_channel AMQP_Channel_Close_Ok = enc_channel_close_ok"

fun id_channel :: "channel_method \<Rightarrow> u32" where
  "id_channel (AMQP_Channel_Open _) = AMQP_CHANNEL_OPEN_METHOD"
| "id_channel AMQP_Channel_Open_Ok = AMQP_CHANNEL_OPEN_OK_METHOD"
| "id_channel (AMQP_Channel_Flow _) = AMQP_CHANNEL_FLOW_METHOD"
| "id_channel (AMQP_Channel_Flow_Ok _) = AMQP_CHANNEL_FLOW_OK_METHOD"
| "id_channel (AMQP_Channel_Alert _ _ _) = AMQP_CHANNEL_ALERT_METHOD"
| "id_channel (AMQP_Channel_Close _ _ _ _) = AMQP_CHANNEL_CLOSE_METHOD"
| "id_channel AMQP_Channel_Close_Ok = AMQP_CHANNEL_CLOSE_OK_METHOD"

text \<open>The \<open>switch\<close> of \<open>amqp_decode_method\<close> over this class.\<close>

definition decoders_channel :: "memory \<Rightarrow> (u32 \<times> channel_method dec) list" where
  "decoders_channel mem =
     [(AMQP_CHANNEL_OPEN_METHOD, dec_channel_open mem),
      (AMQP_CHANNEL_OPEN_OK_METHOD, dec_channel_open_ok mem),
      (AMQP_CHANNEL_FLOW_METHOD, dec_channel_flow mem),
      (AMQP_CHANNEL_FLOW_OK_METHOD, dec_channel_flow_ok mem),
      (AMQP_CHANNEL_ALERT_METHOD, dec_channel_alert mem),
      (AMQP_CHANNEL_CLOSE_METHOD, dec_channel_close mem),
      (AMQP_CHANNEL_CLOSE_OK_METHOD, dec_channel_close_ok mem)]"

text \<open>The fields fit their length prefixes.\<close>

fun valid_channel :: "channel_method \<Rightarrow> bool" where
  "valid_channel (AMQP_Channel_Open out_of_band) = (shortstr out_of_band)"
| "valid_channel AMQP_Channel_Open_Ok = True"
| "valid_channel (AMQP_Channel_Flow _) = True"
| "valid_channel (AMQP_Channel_Flow_Ok _) = True"
| "valid_channel (AMQP_Channel_Alert _ reply_text details) =
     (shortstr reply_text \<and> valid_entries details)"
| "valid_channel (AMQP_Channel_Close _ reply_text _ _) = (shortstr reply_text)"
| "valid_channel AMQP_Channel_Close_Ok = True"

fun wire_channel :: "channel_method \<Rightarrow> byte list" where
  "wire_channel (AMQP_Channel_Open out_of_band) = concat [wire_shortstr out_of_band]"
| "wire_channel AMQP_Channel_Open_Ok = concat []"
| "wire_channel (AMQP_Channel_Flow active) = concat [wire_bits [active]]"
| "wire_channel (AMQP_Channel_Flow_Ok active) = concat [wire_bits [active]]"
| "wire_channel (AMQP_Channel_Alert reply_code reply_text details) =
     concat [wire_16 reply_code, wire_shortstr reply_text, wire_table details]"
| "wire_channel (AMQP_Channel_Close reply_code reply_text class_id method_id) =
     concat
     [wire_16 reply_code, wire_shortstr reply_text, wire_16 class_id, wire_16 method_id]"
| "wire_channel AMQP_Channel_Close_Ok = concat []"

declare wire_channel.simps [simp del]

lemma emits_channel: "valid_channel m \<Longrightarrow> emits (encode_channel m) (wire_channel m)"
  by (cases m;
      simp only: encode_channel.simps wire_channel.simps valid_channel.simps
        enc_channel_open_def enc_channel_open_ok_def enc_channel_flow_def
        enc_channel_flow_ok_def enc_channel_alert_def enc_channel_close_def
        enc_channel_close_ok_def;
      intro emit_intros; simp)

lemma parses_channel:
  assumes "enough_memory mem" and "valid_channel m"
  shows "\<exists>d. map_of (decoders_channel mem) (id_channel m) = Some d \<and> parses d (wire_channel m) m"
  using assms
  by (cases m;
      simp add: decoders_channel_def channel_ids;
      unfold wire_channel.simps
        dec_channel_open_def dec_channel_open_ok_def dec_channel_flow_def
        dec_channel_flow_ok_def dec_channel_alert_def dec_channel_close_def
        dec_channel_close_ok_def;
      intro parse_intros; simp)

lemma safe_channel:
  assumes "\<And>n. pool_ok mem n" and "map_of (decoders_channel mem) i = Some d"
  shows "reads_safely d"
proof -
  have "(i, d) \<in> set (decoders_channel mem)" using assms(2) by (rule map_of_SomeD)
  then show ?thesis
    unfolding decoders_channel_def list.set insert_iff prod.inject empty_iff
    by (elim disjE conjE FalseE; hypsubst;
        unfold
          dec_channel_open_def dec_channel_open_ok_def dec_channel_flow_def
          dec_channel_flow_ok_def dec_channel_alert_def dec_channel_close_def
          dec_channel_close_ok_def;
        intro safe_intros safe_pool safe_decode_table assms(1))
qed

section \<open>Class access\<close>

definition AMQP_ACCESS_REQUEST_METHOD :: u32 where "AMQP_ACCESS_REQUEST_METHOD = 0x001E000A"
definition AMQP_ACCESS_REQUEST_OK_METHOD :: u32 where "AMQP_ACCESS_REQUEST_OK_METHOD = 0x001E000B"

lemmas access_ids =
  AMQP_ACCESS_REQUEST_METHOD_def AMQP_ACCESS_REQUEST_OK_METHOD_def

datatype access_method =
    AMQP_Access_Request "byte list" bool bool bool bool bool
  | AMQP_Access_Request_Ok u16

definition dec_access_request :: "memory \<Rightarrow> access_method dec" where
  "dec_access_request mem =
     dbind (pool_alloc mem 40) (\<lambda>_.
     dbind get_shortstr (\<lambda>realm.
     dbind (get_bits 5) (\<lambda>bits.
     dret (AMQP_Access_Request realm (bits ! 0) (bits ! 1) (bits ! 2) (bits ! 3) (bits ! 4)))))"

definition enc_access_request :: "byte list \<Rightarrow> bool \<Rightarrow> bool \<Rightarrow> bool \<Rightarrow> bool \<Rightarrow> bool \<Rightarrow> enc" where
  "enc_access_request realm exclusive passive active write_access read_access =
     enc_all [put_shortstr realm, put_bits [exclusive, passive, active, write_access, read_access]]"

definition dec_access_request_ok :: "memory \<Rightarrow> access_method dec" where
  "dec_access_request_ok mem =
     dbind (pool_alloc mem 2) (\<lambda>_.
     dbind get_16 (\<lambda>ticket.
     dret (AMQP_Access_Request_Ok ticket)))"

definition enc_access_request_ok :: "u16 \<Rightarrow> enc" where
  "enc_access_request_ok ticket =
     enc_all [put_16 ticket]"

text \<open>The \<open>switch\<close> of \<open>amqp_encode_method\<close> over this class.\<close>

fun encode_access :: "access_method \<Rightarrow> enc" where
  "encode_access (AMQP_Access_Request realm exclusive passive active write_access read_access) =
     enc_access_request realm exclusive passive active write_access read_access"
| "encode_access (AMQP_Access_Request_Ok ticket) = enc_access_request_ok ticket"

fun id_access :: "access_method \<Rightarrow> u32" where
  "id_access (AMQP_Access_Request _ _ _ _ _ _) = AMQP_ACCESS_REQUEST_METHOD"
| "id_access (AMQP_Access_Request_Ok _) = AMQP_ACCESS_REQUEST_OK_METHOD"

text \<open>The \<open>switch\<close> of \<open>amqp_decode_method\<close> over this class.\<close>

definition decoders_access :: "memory \<Rightarrow> (u32 \<times> access_method dec) list" where
  "decoders_access mem =
     [(AMQP_ACCESS_REQUEST_METHOD, dec_access_request mem),
      (AMQP_ACCESS_REQUEST_OK_METHOD, dec_access_request_ok mem)]"

text \<open>The fields fit their length prefixes.\<close>

fun valid_access :: "access_method \<Rightarrow> bool" where
  "valid_access (AMQP_Access_Request realm _ _ _ _ _) = (shortstr realm)"
| "valid_access (AMQP_Access_Request_Ok _) = True"

fun wire_access :: "access_method \<Rightarrow> byte list" where
  "wire_access (AMQP_Access_Request realm exclusive passive active write_access read_access) =
     concat
     [wire_shortstr realm, wire_bits [exclusive, passive, active, write_access, read_access]]"
| "wire_access (AMQP_Access_Request_Ok ticket) = concat [wire_16 ticket]"

declare wire_access.simps [simp del]

lemma emits_access: "valid_access m \<Longrightarrow> emits (encode_access m) (wire_access m)"
  by (cases m;
      simp only: encode_access.simps wire_access.simps valid_access.simps
        enc_access_request_def enc_access_request_ok_def;
      intro emit_intros; simp)

lemma parses_access:
  assumes "enough_memory mem" and "valid_access m"
  shows "\<exists>d. map_of (decoders_access mem) (id_access m) = Some d \<and> parses d (wire_access m) m"
  using assms
  by (cases m;
      simp add: decoders_access_def access_ids;
      unfold wire_access.simps
        dec_access_request_def dec_access_request_ok_def;
      intro parse_intros; simp)

lemma safe_access:
  assumes "\<And>n. pool_ok mem n" and "map_of (decoders_access mem) i = Some d"
  shows "reads_safely d"
proof -
  have "(i, d) \<in> set (decoders_access mem)" using assms(2) by (rule map_of_SomeD)
  then show ?thesis
    unfolding decoders_access_def list.set insert_iff prod.inject empty_iff
    by (elim disjE conjE FalseE; hypsubst;
        unfold
          dec_access_request_def dec_access_request_ok_def;
        intro safe_intros safe_pool safe_decode_table assms(1))
qed

end
