(* ===== verification/Framing_Queue.thy ===== *)
theory Framing_Queue
  imports Codec
begin

text \<open>
  Method structs of \<open>src/src/librabbitmq/amqp_framing.h\<close> and their cases of
  \<open>amqp_decode_method\<close> and \<open>amqp_encode_method\<close> in \<open>amqp_framing.c\<close>: classes exchange, queue.  One
  decoder and one encoder per method, field by field in the order of the code, and for the class
  the bytes of each method, the proof that the encoder emits them, that the decoder parses them
  back, and that the decoder stays inside any buffer.
\<close>

section \<open>Class exchange\<close>

definition AMQP_EXCHANGE_DECLARE_METHOD :: u32 where "AMQP_EXCHANGE_DECLARE_METHOD = 0x0028000A"
definition AMQP_EXCHANGE_DECLARE_OK_METHOD :: u32 where "AMQP_EXCHANGE_DECLARE_OK_METHOD = 0x0028000B"
definition AMQP_EXCHANGE_DELETE_METHOD :: u32 where "AMQP_EXCHANGE_DELETE_METHOD = 0x00280014"
definition AMQP_EXCHANGE_DELETE_OK_METHOD :: u32 where "AMQP_EXCHANGE_DELETE_OK_METHOD = 0x00280015"

lemmas exchange_ids =
  AMQP_EXCHANGE_DECLARE_METHOD_def AMQP_EXCHANGE_DECLARE_OK_METHOD_def
  AMQP_EXCHANGE_DELETE_METHOD_def AMQP_EXCHANGE_DELETE_OK_METHOD_def

datatype exchange_method =
    AMQP_Exchange_Declare u16 "byte list" "byte list" bool bool bool bool bool table
  | AMQP_Exchange_Declare_Ok
  | AMQP_Exchange_Delete u16 "byte list" bool bool
  | AMQP_Exchange_Delete_Ok

definition dec_exchange_declare :: "memory \<Rightarrow> exchange_method dec" where
  "dec_exchange_declare mem =
     dbind (pool_alloc mem 80) (\<lambda>_.
     dbind get_16 (\<lambda>ticket.
     dbind get_shortstr (\<lambda>exchange.
     dbind get_shortstr (\<lambda>type_name.
     dbind (get_bits 5) (\<lambda>bits.
     dbind (amqp_decode_table mem) (\<lambda>arguments.
     dret (AMQP_Exchange_Declare ticket exchange type_name (bits ! 0) 
        (bits ! 1) (bits ! 2) (bits ! 3) (bits ! 4) arguments)))))))"

definition enc_exchange_declare :: "u16 \<Rightarrow> byte list \<Rightarrow> byte list \<Rightarrow> bool \<Rightarrow> bool \<Rightarrow> bool \<Rightarrow> bool \<Rightarrow> bool \<Rightarrow> table \<Rightarrow> enc" where
  "enc_exchange_declare ticket exchange type_name passive durable auto_delete internal nowait arguments =
     enc_all [put_16 ticket, put_shortstr exchange, put_shortstr type_name,
       put_bits [passive, durable, auto_delete, internal, nowait],
       amqp_encode_table arguments]"

definition dec_exchange_declare_ok :: "memory \<Rightarrow> exchange_method dec" where
  "dec_exchange_declare_ok mem =
     dbind (pool_alloc mem 4) (\<lambda>_.
     dret AMQP_Exchange_Declare_Ok)"

definition enc_exchange_declare_ok :: "enc" where
  "enc_exchange_declare_ok =
     enc_all []"

definition dec_exchange_delete :: "memory \<Rightarrow> exchange_method dec" where
  "dec_exchange_delete mem =
     dbind (pool_alloc mem 32) (\<lambda>_.
     dbind get_16 (\<lambda>ticket.
     dbind get_shortstr (\<lambda>exchange.
     dbind (get_bits 2) (\<lambda>bits.
     dret (AMQP_Exchange_Delete ticket exchange (bits ! 0) (bits ! 1))))))"

definition enc_exchange_delete :: "u16 \<Rightarrow> byte list \<Rightarrow> bool \<Rightarrow> bool \<Rightarrow> enc" where
  "enc_exchange_delete ticket exchange if_unused nowait =
     enc_all [put_16 ticket, put_shortstr exchange, put_bits [if_unused, nowait]]"

definition dec_exchange_delete_ok :: "memory \<Rightarrow> exchange_method dec" where
  "dec_exchange_delete_ok mem =
     dbind (pool_alloc mem 4) (\<lambda>_.
     dret AMQP_Exchange_Delete_Ok)"

definition enc_exchange_delete_ok :: "enc" where
  "enc_exchange_delete_ok =
     enc_all []"

text \<open>The \<open>switch\<close> of \<open>amqp_encode_method\<close> over this class.\<close>

fun encode_exchange :: "exchange_method \<Rightarrow> enc" where
  "encode_exchange (AMQP_Exchange_Declare ticket exchange type_name passive durable auto_delete internal nowait arguments) =
     enc_exchange_declare ticket exchange type_name passive durable auto_delete internal
     nowait arguments"
| "encode_exchange AMQP_Exchange_Declare_Ok = enc_exchange_declare_ok"
| "encode_exchange (AMQP_Exchange_Delete ticket exchange if_unused nowait) =
     enc_exchange_delete ticket exchange if_unused nowait"
| "encode_exchange AMQP_Exchange_Delete_Ok = enc_exchange_delete_ok"

fun id_exchange :: "exchange_method \<Rightarrow> u32" where
  "id_exchange (AMQP_Exchange_Declare _ _ _ _ _ _ _ _ _) = AMQP_EXCHANGE_DECLARE_METHOD"
| "id_exchange AMQP_Exchange_Declare_Ok = AMQP_EXCHANGE_DECLARE_OK_METHOD"
| "id_exchange (AMQP_Exchange_Delete _ _ _ _) = AMQP_EXCHANGE_DELETE_METHOD"
| "id_exchange AMQP_Exchange_Delete_Ok = AMQP_EXCHANGE_DELETE_OK_METHOD"

text \<open>The \<open>switch\<close> of \<open>amqp_decode_method\<close> over this class.\<close>

definition decoders_exchange :: "memory \<Rightarrow> (u32 \<times> exchange_method dec) list" where
  "decoders_exchange mem =
     [(AMQP_EXCHANGE_DECLARE_METHOD, dec_exchange_declare mem),
      (AMQP_EXCHANGE_DECLARE_OK_METHOD, dec_exchange_declare_ok mem),
      (AMQP_EXCHANGE_DELETE_METHOD, dec_exchange_delete mem),
      (AMQP_EXCHANGE_DELETE_OK_METHOD, dec_exchange_delete_ok mem)]"

text \<open>The fields fit their length prefixes.\<close>

fun valid_exchange :: "exchange_method \<Rightarrow> bool" where
  "valid_exchange (AMQP_Exchange_Declare _ exchange type_name _ _ _ _ _ arguments) =
     (shortstr exchange \<and> shortstr type_name \<and> valid_entries arguments)"
| "valid_exchange AMQP_Exchange_Declare_Ok = True"
| "valid_exchange (AMQP_Exchange_Delete _ exchange _ _) = (shortstr exchange)"
| "valid_exchange AMQP_Exchange_Delete_Ok = True"

fun wire_exchange :: "exchange_method \<Rightarrow> byte list" where
  "wire_exchange (AMQP_Exchange_Declare ticket exchange type_name passive durable auto_delete internal nowait arguments) =
     concat
     [wire_16 ticket, wire_shortstr exchange, wire_shortstr type_name, wire_bits [passive, durable, auto_delete, internal, nowait], wire_table arguments]"
| "wire_exchange AMQP_Exchange_Declare_Ok = concat []"
| "wire_exchange (AMQP_Exchange_Delete ticket exchange if_unused nowait) =
     concat [wire_16 ticket, wire_shortstr exchange, wire_bits [if_unused, nowait]]"
| "wire_exchange AMQP_Exchange_Delete_Ok = concat []"

declare wire_exchange.simps [simp del]

lemma emits_exchange: "valid_exchange m \<Longrightarrow> emits (encode_exchange m) (wire_exchange m)"
  by (cases m;
      simp only: encode_exchange.simps wire_exchange.simps valid_exchange.simps
        enc_exchange_declare_def enc_exchange_declare_ok_def enc_exchange_delete_def
        enc_exchange_delete_ok_def;
      intro emit_intros; simp)

lemma parses_exchange:
  assumes "enough_memory mem" and "valid_exchange m"
  shows "\<exists>d. map_of (decoders_exchange mem) (id_exchange m) = Some d \<and> parses d (wire_exchange m) m"
  using assms
  by (cases m;
      simp add: decoders_exchange_def exchange_ids;
      unfold wire_exchange.simps
        dec_exchange_declare_def dec_exchange_declare_ok_def dec_exchange_delete_def
        dec_exchange_delete_ok_def;
      intro parse_intros; simp)

lemma safe_exchange:
  assumes "\<And>n. pool_ok mem n" and "map_of (decoders_exchange mem) i = Some d"
  shows "reads_safely d"
proof -
  have "(i, d) \<in> set (decoders_exchange mem)" using assms(2) by (rule map_of_SomeD)
  then show ?thesis
    unfolding decoders_exchange_def list.set insert_iff prod.inject empty_iff
    by (elim disjE conjE FalseE; hypsubst;
        unfold
          dec_exchange_declare_def dec_exchange_declare_ok_def dec_exchange_delete_def
          dec_exchange_delete_ok_def;
        intro safe_intros safe_pool safe_decode_table assms(1))
qed

section \<open>Class queue\<close>

definition AMQP_QUEUE_DECLARE_METHOD :: u32 where "AMQP_QUEUE_DECLARE_METHOD = 0x0032000A"
definition AMQP_QUEUE_DECLARE_OK_METHOD :: u32 where "AMQP_QUEUE_DECLARE_OK_METHOD = 0x0032000B"
definition AMQP_QUEUE_BIND_METHOD :: u32 where "AMQP_QUEUE_BIND_METHOD = 0x00320014"
definition AMQP_QUEUE_BIND_OK_METHOD :: u32 where "AMQP_QUEUE_BIND_OK_METHOD = 0x00320015"
definition AMQP_QUEUE_PURGE_METHOD :: u32 where "AMQP_QUEUE_PURGE_METHOD = 0x0032001E"
definition AMQP_QUEUE_PURGE_OK_METHOD :: u32 where "AMQP_QUEUE_PURGE_OK_METHOD = 0x0032001F"
definition AMQP_QUEUE_DELETE_METHOD :: u32 where "AMQP_QUEUE_DELETE_METHOD = 0x00320028"
definition AMQP_QUEUE_DELETE_OK_METHOD :: u32 where "AMQP_QUEUE_DELETE_OK_METHOD = 0x00320029"
definition AMQP_QUEUE_UNBIND_METHOD :: u32 where "AMQP_QUEUE_UNBIND_METHOD = 0x00320032"
definition AMQP_QUEUE_UNBIND_OK_METHOD :: u32 where "AMQP_QUEUE_UNBIND_OK_METHOD = 0x00320033"

lemmas queue_ids =
  AMQP_QUEUE_DECLARE_METHOD_def AMQP_QUEUE_DECLARE_OK_METHOD_def AMQP_QUEUE_BIND_METHOD_def
  AMQP_QUEUE_BIND_OK_METHOD_def AMQP_QUEUE_PURGE_METHOD_def AMQP_QUEUE_PURGE_OK_METHOD_def
  AMQP_QUEUE_DELETE_METHOD_def AMQP_QUEUE_DELETE_OK_METHOD_def AMQP_QUEUE_UNBIND_METHOD_def
  AMQP_QUEUE_UNBIND_OK_METHOD_def

datatype queue_method =
    AMQP_Queue_Declare u16 "byte list" bool bool bool bool bool table
  | AMQP_Queue_Declare_Ok "byte list" u32 u32
  | AMQP_Queue_Bind u16 "byte list" "byte list" "byte list" bool table
  | AMQP_Queue_Bind_Ok
  | AMQP_Queue_Purge u16 "byte list" bool
  | AMQP_Queue_Purge_Ok u32
  | AMQP_Queue_Delete u16 "byte list" bool bool bool
  | AMQP_Queue_Delete_Ok u32
  | AMQP_Queue_Unbind u16 "byte list" "byte list" "byte list" table
  | AMQP_Queue_Unbind_Ok

definition dec_queue_declare :: "memory \<Rightarrow> queue_method dec" where
  "dec_queue_declare mem =
     dbind (pool_alloc mem 64) (\<lambda>_.
     dbind get_16 (\<lambda>ticket.
     dbind get_shortstr (\<lambda>queue.
     dbind (get_bits 5) (\<lambda>bits.
     dbind (amqp_decode_table mem) (\<lambda>arguments.
     dret (AMQP_Queue_Declare ticket queue (bits ! 0) (bits ! 1) 
        (bits ! 2) (bits ! 3) (bits ! 4) arguments))))))"

definition enc_queue_declare :: "u16 \<Rightarrow> byte list \<Rightarrow> bool \<Rightarrow> bool \<Rightarrow> bool \<Rightarrow> bool \<Rightarrow> bool \<Rightarrow> table \<Rightarrow> enc" where
  "enc_queue_declare ticket queue passive durable exclusive auto_delete nowait arguments =
     enc_all [put_16 ticket, put_shortstr queue,
       put_bits [passive, durable, exclusive, auto_delete, nowait],
       amqp_encode_table arguments]"

definition dec_queue_declare_ok :: "memory \<Rightarrow> queue_method dec" where
  "dec_queue_declare_ok mem =
     dbind (pool_alloc mem 24) (\<lambda>_.
     dbind get_shortstr (\<lambda>queue.
     dbind get_32 (\<lambda>message_count.
     dbind get_32 (\<lambda>consumer_count.
     dret (AMQP_Queue_Declare_Ok queue message_count consumer_count)))))"

definition enc_queue_declare_ok :: "byte list \<Rightarrow> u32 \<Rightarrow> u32 \<Rightarrow> enc" where
  "enc_queue_declare_ok queue message_count consumer_count =
     enc_all [put_shortstr queue, put_32 message_count, put_32 consumer_count]"

definition dec_queue_bind :: "memory \<Rightarrow> queue_method dec" where
  "dec_queue_bind mem =
     dbind (pool_alloc mem 80) (\<lambda>_.
     dbind get_16 (\<lambda>ticket.
     dbind get_shortstr (\<lambda>queue.
     dbind get_shortstr (\<lambda>exchange.
     dbind get_shortstr (\<lambda>routing_key.
     dbind (get_bits 1) (\<lambda>bits.
     dbind (amqp_decode_table mem) (\<lambda>arguments.
     dret (AMQP_Queue_Bind ticket queue exchange routing_key (bits ! 0) arguments))))))))"

definition enc_queue_bind :: "u16 \<Rightarrow> byte list \<Rightarrow> byte list \<Rightarrow> byte list \<Rightarrow> bool \<Rightarrow> table \<Rightarrow> enc" where
  "enc_queue_bind ticket queue exchange routing_key nowait arguments =
     enc_all [put_16 ticket, put_shortstr queue, put_shortstr exchange, put_shortstr routing_key,
       put_bits [nowait], amqp_encode_table arguments]"

definition dec_queue_bind_ok :: "memory \<Rightarrow> queue_method dec" where
  "dec_queue_bind_ok mem =
     dbind (pool_alloc mem 4) (\<lambda>_.
     dret AMQP_Queue_Bind_Ok)"

definition enc_queue_bind_ok :: "enc" where
  "enc_queue_bind_ok =
     enc_all []"

definition dec_queue_purge :: "memory \<Rightarrow> queue_method dec" where
  "dec_queue_purge mem =
     dbind (pool_alloc mem 32) (\<lambda>_.
     dbind get_16 (\<lambda>ticket.
     dbind get_shortstr (\<lambda>queue.
     dbind (get_bits 1) (\<lambda>bits.
     dret (AMQP_Queue_Purge ticket queue (bits ! 0))))))"

definition enc_queue_purge :: "u16 \<Rightarrow> byte list \<Rightarrow> bool \<Rightarrow> enc" where
  "enc_queue_purge ticket queue nowait =
     enc_all [put_16 ticket, put_shortstr queue, put_bits [nowait]]"

definition dec_queue_purge_ok :: "memory \<Rightarrow> queue_method dec" where
  "dec_queue_purge_ok mem =
     dbind (pool_alloc mem 4) (\<lambda>_.
     dbind get_32 (\<lambda>message_count.
     dret (AMQP_Queue_Purge_Ok message_count)))"

definition enc_queue_purge_ok :: "u32 \<Rightarrow> enc" where
  "enc_queue_purge_ok message_count =
     enc_all [put_32 message_count]"

definition dec_queue_delete :: "memory \<Rightarrow> queue_method dec" where
  "dec_queue_delete mem =
     dbind (pool_alloc mem 40) (\<lambda>_.
     dbind get_16 (\<lambda>ticket.
     dbind get_shortstr (\<lambda>queue.
     dbind (get_bits 3) (\<lambda>bits.
     dret (AMQP_Queue_Delete ticket queue (bits ! 0) (bits ! 1) (bits ! 2))))))"

definition enc_queue_delete :: "u16 \<Rightarrow> byte list \<Rightarrow> bool \<Rightarrow> bool \<Rightarrow> bool \<Rightarrow> enc" where
  "enc_queue_delete ticket queue if_unused if_empty nowait =
     enc_all [put_16 ticket, put_shortstr queue, put_bits [if_unused, if_empty, nowait]]"

definition dec_queue_delete_ok :: "memory \<Rightarrow> queue_method dec" where
  "dec_queue_delete_ok mem =
     dbind (pool_alloc mem 4) (\<lambda>_.
     dbind get_32 (\<lambda>message_count.
     dret (AMQP_Queue_Delete_Ok message_count)))"

definition enc_queue_delete_ok :: "u32 \<Rightarrow> enc" where
  "enc_queue_delete_ok message_count =
     enc_all [put_32 message_count]"

definition dec_queue_unbind :: "memory \<Rightarrow> queue_method dec" where
  "dec_queue_unbind mem =
     dbind (pool_alloc mem 72) (\<lambda>_.
     dbind get_16 (\<lambda>ticket.
     dbind get_shortstr (\<lambda>queue.
     dbind get_shortstr (\<lambda>exchange.
     dbind get_shortstr (\<lambda>routing_key.
     dbind (amqp_decode_table mem) (\<lambda>arguments.
     dret (AMQP_Queue_Unbind ticket queue exchange routing_key arguments)))))))"

definition enc_queue_unbind :: "u16 \<Rightarrow> byte list \<Rightarrow> byte list \<Rightarrow> byte list \<Rightarrow> table \<Rightarrow> enc" where
  "enc_queue_unbind ticket queue exchange routing_key arguments =
     enc_all [put_16 ticket, put_shortstr queue, put_shortstr exchange, put_shortstr routing_key,
       amqp_encode_table arguments]"

definition dec_queue_unbind_ok :: "memory \<Rightarrow> queue_method dec" where
  "dec_queue_unbind_ok mem =
     dbind (pool_alloc mem 4) (\<lambda>_.
     dret AMQP_Queue_Unbind_Ok)"

definition enc_queue_unbind_ok :: "enc" where
  "enc_queue_unbind_ok =
     enc_all []"

text \<open>The \<open>switch\<close> of \<open>amqp_encode_method\<close> over this class.\<close>

fun encode_queue :: "queue_method \<Rightarrow> enc" where
  "encode_queue (AMQP_Queue_Declare ticket queue passive durable exclusive auto_delete nowait arguments) =
     enc_queue_declare ticket queue passive durable exclusive auto_delete nowait arguments"
| "encode_queue (AMQP_Queue_Declare_Ok queue message_count consumer_count) =
     enc_queue_declare_ok queue message_count consumer_count"
| "encode_queue (AMQP_Queue_Bind ticket queue exchange routing_key nowait arguments) =
     enc_queue_bind ticket queue exchange routing_key nowait arguments"
| "encode_queue AMQP_Queue_Bind_Ok = enc_queue_bind_ok"
| "encode_queue (AMQP_Queue_Purge ticket queue nowait) = enc_queue_purge ticket queue nowait"
| "encode_queue (AMQP_Queue_Purge_Ok message_count) = enc_queue_purge_ok message_count"
| "encode_queue (AMQP_Queue_Delete ticket queue if_unused if_empty nowait) =
     enc_queue_delete ticket queue if_unused if_empty nowait"
| "encode_queue (AMQP_Queue_Delete_Ok message_count) = enc_queue_delete_ok message_count"
| "encode_queue (AMQP_Queue_Unbind ticket queue exchange routing_key arguments) =
     enc_queue_unbind ticket queue exchange routing_key arguments"
| "encode_queue AMQP_Queue_Unbind_Ok = enc_queue_unbind_ok"

fun id_queue :: "queue_method \<Rightarrow> u32" where
  "id_queue (AMQP_Queue_Declare _ _ _ _ _ _ _ _) = AMQP_QUEUE_DECLARE_METHOD"
| "id_queue (AMQP_Queue_Declare_Ok _ _ _) = AMQP_QUEUE_DECLARE_OK_METHOD"
| "id_queue (AMQP_Queue_Bind _ _ _ _ _ _) = AMQP_QUEUE_BIND_METHOD"
| "id_queue AMQP_Queue_Bind_Ok = AMQP_QUEUE_BIND_OK_METHOD"
| "id_queue (AMQP_Queue_Purge _ _ _) = AMQP_QUEUE_PURGE_METHOD"
| "id_queue (AMQP_Queue_Purge_Ok _) = AMQP_QUEUE_PURGE_OK_METHOD"
| "id_queue (AMQP_Queue_Delete _ _ _ _ _) = AMQP_QUEUE_DELETE_METHOD"
| "id_queue (AMQP_Queue_Delete_Ok _) = AMQP_QUEUE_DELETE_OK_METHOD"
| "id_queue (AMQP_Queue_Unbind _ _ _ _ _) = AMQP_QUEUE_UNBIND_METHOD"
| "id_queue AMQP_Queue_Unbind_Ok = AMQP_QUEUE_UNBIND_OK_METHOD"

text \<open>The \<open>switch\<close> of \<open>amqp_decode_method\<close> over this class.\<close>

definition decoders_queue :: "memory \<Rightarrow> (u32 \<times> queue_method dec) list" where
  "decoders_queue mem =
     [(AMQP_QUEUE_DECLARE_METHOD, dec_queue_declare mem),
      (AMQP_QUEUE_DECLARE_OK_METHOD, dec_queue_declare_ok mem),
      (AMQP_QUEUE_BIND_METHOD, dec_queue_bind mem),
      (AMQP_QUEUE_BIND_OK_METHOD, dec_queue_bind_ok mem),
      (AMQP_QUEUE_PURGE_METHOD, dec_queue_purge mem),
      (AMQP_QUEUE_PURGE_OK_METHOD, dec_queue_purge_ok mem),
      (AMQP_QUEUE_DELETE_METHOD, dec_queue_delete mem),
      (AMQP_QUEUE_DELETE_OK_METHOD, dec_queue_delete_ok mem),
      (AMQP_QUEUE_UNBIND_METHOD, dec_queue_unbind mem),
      (AMQP_QUEUE_UNBIND_OK_METHOD, dec_queue_unbind_ok mem)]"

text \<open>The fields fit their length prefixes.\<close>

fun valid_queue :: "queue_method \<Rightarrow> bool" where
  "valid_queue (AMQP_Queue_Declare _ queue _ _ _ _ _ arguments) =
     (shortstr queue \<and> valid_entries arguments)"
| "valid_queue (AMQP_Queue_Declare_Ok queue _ _) = (shortstr queue)"
| "valid_queue (AMQP_Queue_Bind _ queue exchange routing_key _ arguments) =
     (shortstr queue \<and> shortstr exchange \<and> shortstr routing_key \<and>
     valid_entries arguments)"
| "valid_queue AMQP_Queue_Bind_Ok = True"
| "valid_queue (AMQP_Queue_Purge _ queue _) = (shortstr queue)"
| "valid_queue (AMQP_Queue_Purge_Ok _) = True"
| "valid_queue (AMQP_Queue_Delete _ queue _ _ _) = (shortstr queue)"
| "valid_queue (AMQP_Queue_Delete_Ok _) = True"
| "valid_queue (AMQP_Queue_Unbind _ queue exchange routing_key arguments) =
     (shortstr queue \<and> shortstr exchange \<and> shortstr routing_key \<and>
     valid_entries arguments)"
| "valid_queue AMQP_Queue_Unbind_Ok = True"

fun wire_queue :: "queue_method \<Rightarrow> byte list" where
  "wire_queue (AMQP_Queue_Declare ticket queue passive durable exclusive auto_delete nowait arguments) =
     concat
     [wire_16 ticket, wire_shortstr queue, wire_bits [passive, durable, exclusive, auto_delete, nowait], wire_table arguments]"
| "wire_queue (AMQP_Queue_Declare_Ok queue message_count consumer_count) =
     concat [wire_shortstr queue, wire_32 message_count, wire_32 consumer_count]"
| "wire_queue (AMQP_Queue_Bind ticket queue exchange routing_key nowait arguments) =
     concat
     [wire_16 ticket, wire_shortstr queue, wire_shortstr exchange, wire_shortstr routing_key, wire_bits [nowait], wire_table arguments]"
| "wire_queue AMQP_Queue_Bind_Ok = concat []"
| "wire_queue (AMQP_Queue_Purge ticket queue nowait) =
     concat [wire_16 ticket, wire_shortstr queue, wire_bits [nowait]]"
| "wire_queue (AMQP_Queue_Purge_Ok message_count) = concat [wire_32 message_count]"
| "wire_queue (AMQP_Queue_Delete ticket queue if_unused if_empty nowait) =
     concat [wire_16 ticket, wire_shortstr queue, wire_bits [if_unused, if_empty, nowait]]"
| "wire_queue (AMQP_Queue_Delete_Ok message_count) = concat [wire_32 message_count]"
| "wire_queue (AMQP_Queue_Unbind ticket queue exchange routing_key arguments) =
     concat
     [wire_16 ticket, wire_shortstr queue, wire_shortstr exchange, wire_shortstr routing_key, wire_table arguments]"
| "wire_queue AMQP_Queue_Unbind_Ok = concat []"

declare wire_queue.simps [simp del]

lemma emits_queue: "valid_queue m \<Longrightarrow> emits (encode_queue m) (wire_queue m)"
  by (cases m;
      simp only: encode_queue.simps wire_queue.simps valid_queue.simps
        enc_queue_declare_def enc_queue_declare_ok_def enc_queue_bind_def
        enc_queue_bind_ok_def enc_queue_purge_def enc_queue_purge_ok_def
        enc_queue_delete_def enc_queue_delete_ok_def enc_queue_unbind_def
        enc_queue_unbind_ok_def;
      intro emit_intros; simp)

lemma parses_queue:
  assumes "enough_memory mem" and "valid_queue m"
  shows "\<exists>d. map_of (decoders_queue mem) (id_queue m) = Some d \<and> parses d (wire_queue m) m"
  using assms
  by (cases m;
      simp add: decoders_queue_def queue_ids;
      unfold wire_queue.simps
        dec_queue_declare_def dec_queue_declare_ok_def dec_queue_bind_def
        dec_queue_bind_ok_def dec_queue_purge_def dec_queue_purge_ok_def
        dec_queue_delete_def dec_queue_delete_ok_def dec_queue_unbind_def
        dec_queue_unbind_ok_def;
      intro parse_intros; simp)

lemma safe_queue:
  assumes "\<And>n. pool_ok mem n" and "map_of (decoders_queue mem) i = Some d"
  shows "reads_safely d"
proof -
  have "(i, d) \<in> set (decoders_queue mem)" using assms(2) by (rule map_of_SomeD)
  then show ?thesis
    unfolding decoders_queue_def list.set insert_iff prod.inject empty_iff
    by (elim disjE conjE FalseE; hypsubst;
        unfold
          dec_queue_declare_def dec_queue_declare_ok_def dec_queue_bind_def
          dec_queue_bind_ok_def dec_queue_purge_def dec_queue_purge_ok_def
          dec_queue_delete_def dec_queue_delete_ok_def dec_queue_unbind_def
          dec_queue_unbind_ok_def;
        intro safe_intros safe_pool safe_decode_table assms(1))
qed

end
