(* ===== verification/Framing_Basic.thy ===== *)
theory Framing_Basic
  imports Codec
begin

text \<open>
  Method structs of \<open>src/src/librabbitmq/amqp_framing.h\<close> and their cases of
  \<open>amqp_decode_method\<close> and \<open>amqp_encode_method\<close> in \<open>amqp_framing.c\<close>: class basic.  One
  decoder and one encoder per method, field by field in the order of the code, and for the class
  the bytes of each method, the proof that the encoder emits them, that the decoder parses them
  back, and that the decoder stays inside any buffer.
\<close>

section \<open>Class basic\<close>

definition AMQP_BASIC_QOS_METHOD :: u32 where "AMQP_BASIC_QOS_METHOD = 0x003C000A"
definition AMQP_BASIC_QOS_OK_METHOD :: u32 where "AMQP_BASIC_QOS_OK_METHOD = 0x003C000B"
definition AMQP_BASIC_CONSUME_METHOD :: u32 where "AMQP_BASIC_CONSUME_METHOD = 0x003C0014"
definition AMQP_BASIC_CONSUME_OK_METHOD :: u32 where "AMQP_BASIC_CONSUME_OK_METHOD = 0x003C0015"
definition AMQP_BASIC_CANCEL_METHOD :: u32 where "AMQP_BASIC_CANCEL_METHOD = 0x003C001E"
definition AMQP_BASIC_CANCEL_OK_METHOD :: u32 where "AMQP_BASIC_CANCEL_OK_METHOD = 0x003C001F"
definition AMQP_BASIC_PUBLISH_METHOD :: u32 where "AMQP_BASIC_PUBLISH_METHOD = 0x003C0028"
definition AMQP_BASIC_RETURN_METHOD :: u32 where "AMQP_BASIC_RETURN_METHOD = 0x003C0032"
definition AMQP_BASIC_DELIVER_METHOD :: u32 where "AMQP_BASIC_DELIVER_METHOD = 0x003C003C"
definition AMQP_BASIC_GET_METHOD :: u32 where "AMQP_BASIC_GET_METHOD = 0x003C0046"
definition AMQP_BASIC_GET_OK_METHOD :: u32 where "AMQP_BASIC_GET_OK_METHOD = 0x003C0047"
definition AMQP_BASIC_GET_EMPTY_METHOD :: u32 where "AMQP_BASIC_GET_EMPTY_METHOD = 0x003C0048"
definition AMQP_BASIC_ACK_METHOD :: u32 where "AMQP_BASIC_ACK_METHOD = 0x003C0050"
definition AMQP_BASIC_REJECT_METHOD :: u32 where "AMQP_BASIC_REJECT_METHOD = 0x003C005A"
definition AMQP_BASIC_RECOVER_METHOD :: u32 where "AMQP_BASIC_RECOVER_METHOD = 0x003C0064"

lemmas basic_ids =
  AMQP_BASIC_QOS_METHOD_def AMQP_BASIC_QOS_OK_METHOD_def AMQP_BASIC_CONSUME_METHOD_def
  AMQP_BASIC_CONSUME_OK_METHOD_def AMQP_BASIC_CANCEL_METHOD_def
  AMQP_BASIC_CANCEL_OK_METHOD_def AMQP_BASIC_PUBLISH_METHOD_def
  AMQP_BASIC_RETURN_METHOD_def AMQP_BASIC_DELIVER_METHOD_def AMQP_BASIC_GET_METHOD_def
  AMQP_BASIC_GET_OK_METHOD_def AMQP_BASIC_GET_EMPTY_METHOD_def AMQP_BASIC_ACK_METHOD_def
  AMQP_BASIC_REJECT_METHOD_def AMQP_BASIC_RECOVER_METHOD_def

datatype basic_method =
    AMQP_Basic_Qos u32 u16 bool
  | AMQP_Basic_Qos_Ok
  | AMQP_Basic_Consume u16 "byte list" "byte list" bool bool bool bool
  | AMQP_Basic_Consume_Ok "byte list"
  | AMQP_Basic_Cancel "byte list" bool
  | AMQP_Basic_Cancel_Ok "byte list"
  | AMQP_Basic_Publish u16 "byte list" "byte list" bool bool
  | AMQP_Basic_Return u16 "byte list" "byte list" "byte list"
  | AMQP_Basic_Deliver "byte list" u64 bool "byte list" "byte list"
  | AMQP_Basic_Get u16 "byte list" bool
  | AMQP_Basic_Get_Ok u64 bool "byte list" "byte list" u32
  | AMQP_Basic_Get_Empty "byte list"
  | AMQP_Basic_Ack u64 bool
  | AMQP_Basic_Reject u64 bool
  | AMQP_Basic_Recover bool

definition dec_basic_qos :: "memory \<Rightarrow> basic_method dec" where
  "dec_basic_qos mem =
     dbind (pool_alloc mem 12) (\<lambda>_.
     dbind get_32 (\<lambda>prefetch_size.
     dbind get_16 (\<lambda>prefetch_count.
     dbind (get_bits 1) (\<lambda>bits.
     dret (AMQP_Basic_Qos prefetch_size prefetch_count (bits ! 0))))))"

definition enc_basic_qos :: "u32 \<Rightarrow> u16 \<Rightarrow> bool \<Rightarrow> enc" where
  "enc_basic_qos prefetch_size prefetch_count global =
     enc_all [put_32 prefetch_size, put_16 prefetch_count, put_bits [global]]"

definition dec_basic_qos_ok :: "memory \<Rightarrow> basic_method dec" where
  "dec_basic_qos_ok mem =
     dbind (pool_alloc mem 4) (\<lambda>_.
     dret AMQP_Basic_Qos_Ok)"

definition enc_basic_qos_ok :: "enc" where
  "enc_basic_qos_ok =
     enc_all []"

definition dec_basic_consume :: "memory \<Rightarrow> basic_method dec" where
  "dec_basic_consume mem =
     dbind (pool_alloc mem 56) (\<lambda>_.
     dbind get_16 (\<lambda>ticket.
     dbind get_shortstr (\<lambda>queue.
     dbind get_shortstr (\<lambda>consumer_tag.
     dbind (get_bits 4) (\<lambda>bits.
     dret (AMQP_Basic_Consume ticket queue consumer_tag (bits ! 0) (bits ! 1) (bits ! 2) (bits ! 3)))))))"

definition enc_basic_consume :: "u16 \<Rightarrow> byte list \<Rightarrow> byte list \<Rightarrow> bool \<Rightarrow> bool \<Rightarrow> bool \<Rightarrow> bool \<Rightarrow> enc" where
  "enc_basic_consume ticket queue consumer_tag no_local no_ack exclusive nowait =
     enc_all [put_16 ticket, put_shortstr queue, put_shortstr consumer_tag,
       put_bits [no_local, no_ack, exclusive, nowait]]"

definition dec_basic_consume_ok :: "memory \<Rightarrow> basic_method dec" where
  "dec_basic_consume_ok mem =
     dbind (pool_alloc mem 16) (\<lambda>_.
     dbind get_shortstr (\<lambda>consumer_tag.
     dret (AMQP_Basic_Consume_Ok consumer_tag)))"

definition enc_basic_consume_ok :: "byte list \<Rightarrow> enc" where
  "enc_basic_consume_ok consumer_tag =
     enc_all [put_shortstr consumer_tag]"

definition dec_basic_cancel :: "memory \<Rightarrow> basic_method dec" where
  "dec_basic_cancel mem =
     dbind (pool_alloc mem 24) (\<lambda>_.
     dbind get_shortstr (\<lambda>consumer_tag.
     dbind (get_bits 1) (\<lambda>bits.
     dret (AMQP_Basic_Cancel consumer_tag (bits ! 0)))))"

definition enc_basic_cancel :: "byte list \<Rightarrow> bool \<Rightarrow> enc" where
  "enc_basic_cancel consumer_tag nowait =
     enc_all [put_shortstr consumer_tag, put_bits [nowait]]"

definition dec_basic_cancel_ok :: "memory \<Rightarrow> basic_method dec" where
  "dec_basic_cancel_ok mem =
     dbind (pool_alloc mem 16) (\<lambda>_.
     dbind get_shortstr (\<lambda>consumer_tag.
     dret (AMQP_Basic_Cancel_Ok consumer_tag)))"

definition enc_basic_cancel_ok :: "byte list \<Rightarrow> enc" where
  "enc_basic_cancel_ok consumer_tag =
     enc_all [put_shortstr consumer_tag]"

definition dec_basic_publish :: "memory \<Rightarrow> basic_method dec" where
  "dec_basic_publish mem =
     dbind (pool_alloc mem 48) (\<lambda>_.
     dbind get_16 (\<lambda>ticket.
     dbind get_shortstr (\<lambda>exchange.
     dbind get_shortstr (\<lambda>routing_key.
     dbind (get_bits 2) (\<lambda>bits.
     dret (AMQP_Basic_Publish ticket exchange routing_key (bits ! 0) (bits ! 1)))))))"

definition enc_basic_publish :: "u16 \<Rightarrow> byte list \<Rightarrow> byte list \<Rightarrow> bool \<Rightarrow> bool \<Rightarrow> enc" where
  "enc_basic_publish ticket exchange routing_key mandatory immediate =
     enc_all [put_16 ticket, put_shortstr exchange, put_shortstr routing_key,
       put_bits [mandatory, immediate]]"

definition dec_basic_return :: "memory \<Rightarrow> basic_method dec" where
  "dec_basic_return mem =
     dbind (pool_alloc mem 56) (\<lambda>_.
     dbind get_16 (\<lambda>reply_code.
     dbind get_shortstr (\<lambda>reply_text.
     dbind get_shortstr (\<lambda>exchange.
     dbind get_shortstr (\<lambda>routing_key.
     dret (AMQP_Basic_Return reply_code reply_text exchange routing_key))))))"

definition enc_basic_return :: "u16 \<Rightarrow> byte list \<Rightarrow> byte list \<Rightarrow> byte list \<Rightarrow> enc" where
  "enc_basic_return reply_code reply_text exchange routing_key =
     enc_all [put_16 reply_code, put_shortstr reply_text, put_shortstr exchange,
       put_shortstr routing_key]"

definition dec_basic_deliver :: "memory \<Rightarrow> basic_method dec" where
  "dec_basic_deliver mem =
     dbind (pool_alloc mem 64) (\<lambda>_.
     dbind get_shortstr (\<lambda>consumer_tag.
     dbind get_64 (\<lambda>delivery_tag.
     dbind (get_bits 1) (\<lambda>bits.
     dbind get_shortstr (\<lambda>exchange.
     dbind get_shortstr (\<lambda>routing_key.
     dret (AMQP_Basic_Deliver consumer_tag delivery_tag (bits ! 0) exchange routing_key)))))))"

definition enc_basic_deliver :: "byte list \<Rightarrow> u64 \<Rightarrow> bool \<Rightarrow> byte list \<Rightarrow> byte list \<Rightarrow> enc" where
  "enc_basic_deliver consumer_tag delivery_tag redelivered exchange routing_key =
     enc_all [put_shortstr consumer_tag, put_64 delivery_tag, put_bits [redelivered],
       put_shortstr exchange, put_shortstr routing_key]"

definition dec_basic_get :: "memory \<Rightarrow> basic_method dec" where
  "dec_basic_get mem =
     dbind (pool_alloc mem 32) (\<lambda>_.
     dbind get_16 (\<lambda>ticket.
     dbind get_shortstr (\<lambda>queue.
     dbind (get_bits 1) (\<lambda>bits.
     dret (AMQP_Basic_Get ticket queue (bits ! 0))))))"

definition enc_basic_get :: "u16 \<Rightarrow> byte list \<Rightarrow> bool \<Rightarrow> enc" where
  "enc_basic_get ticket queue no_ack =
     enc_all [put_16 ticket, put_shortstr queue, put_bits [no_ack]]"

definition dec_basic_get_ok :: "memory \<Rightarrow> basic_method dec" where
  "dec_basic_get_ok mem =
     dbind (pool_alloc mem 56) (\<lambda>_.
     dbind get_64 (\<lambda>delivery_tag.
     dbind (get_bits 1) (\<lambda>bits.
     dbind get_shortstr (\<lambda>exchange.
     dbind get_shortstr (\<lambda>routing_key.
     dbind get_32 (\<lambda>message_count.
     dret (AMQP_Basic_Get_Ok delivery_tag (bits ! 0) exchange routing_key message_count)))))))"

definition enc_basic_get_ok :: "u64 \<Rightarrow> bool \<Rightarrow> byte list \<Rightarrow> byte list \<Rightarrow> u32 \<Rightarrow> enc" where
  "enc_basic_get_ok delivery_tag redelivered exchange routing_key message_count =
     enc_all [put_64 delivery_tag, put_bits [redelivered], put_shortstr exchange,
       put_shortstr routing_key, put_32 message_count]"

definition dec_basic_get_empty :: "memory \<Rightarrow> basic_method dec" where
  "dec_basic_get_empty mem =
     dbind (pool_alloc mem 16) (\<lambda>_.
     dbind get_shortstr (\<lambda>cluster_id.
     dret (AMQP_Basic_Get_Empty cluster_id)))"

definition enc_basic_get_empty :: "byte list \<Rightarrow> enc" where
  "enc_basic_get_empty cluster_id =
     enc_all [put_shortstr cluster_id]"

definition dec_basic_ack :: "memory \<Rightarrow> basic_method dec" where
  "dec_basic_ack mem =
     dbind (pool_alloc mem 16) (\<lambda>_.
     dbind get_64 (\<lambda>delivery_tag.
     dbind (get_bits 1) (\<lambda>bits.
     dret (AMQP_Basic_Ack delivery_tag (bits ! 0)))))"

definition enc_basic_ack :: "u64 \<Rightarrow> bool \<Rightarrow> enc" where
  "enc_basic_ack delivery_tag multiple =
     enc_all [put_64 delivery_tag, put_bits [multiple]]"

definition dec_basic_reject :: "memory \<Rightarrow> basic_method dec" where
  "dec_basic_reject mem =
     dbind (pool_alloc mem 16) (\<lambda>_.
     dbind get_64 (\<lambda>delivery_tag.
     dbind (get_bits 1) (\<lambda>bits.
     dret (AMQP_Basic_Reject delivery_tag (bits ! 0)))))"

definition enc_basic_reject :: "u64 \<Rightarrow> bool \<Rightarrow> enc" where
  "enc_basic_reject delivery_tag requeue =
     enc_all [put_64 delivery_tag, put_bits [requeue]]"

definition dec_basic_recover :: "memory \<Rightarrow> basic_method dec" where
  "dec_basic_recover mem =
     dbind (pool_alloc mem 4) (\<lambda>_.
     dbind (get_bits 1) (\<lambda>bits.
     dret (AMQP_Basic_Recover (bits ! 0))))"

definition enc_basic_recover :: "bool \<Rightarrow> enc" where
  "enc_basic_recover requeue =
     enc_all [put_bits [requeue]]"

text \<open>The \<open>switch\<close> of \<open>amqp_encode_method\<close> over this class.\<close>

fun encode_basic :: "basic_method \<Rightarrow> enc" where
  "encode_basic (AMQP_Basic_Qos prefetch_size prefetch_count global) =
     enc_basic_qos prefetch_size prefetch_count global"
| "encode_basic AMQP_Basic_Qos_Ok = enc_basic_qos_ok"
| "encode_basic (AMQP_Basic_Consume ticket queue consumer_tag no_local no_ack exclusive nowait) =
     enc_basic_consume ticket queue consumer_tag no_local no_ack exclusive nowait"
| "encode_basic (AMQP_Basic_Consume_Ok consumer_tag) = enc_basic_consume_ok consumer_tag"
| "encode_basic (AMQP_Basic_Cancel consumer_tag nowait) = enc_basic_cancel consumer_tag nowait"
| "encode_basic (AMQP_Basic_Cancel_Ok consumer_tag) = enc_basic_cancel_ok consumer_tag"
| "encode_basic (AMQP_Basic_Publish ticket exchange routing_key mandatory immediate) =
     enc_basic_publish ticket exchange routing_key mandatory immediate"
| "encode_basic (AMQP_Basic_Return reply_code reply_text exchange routing_key) =
     enc_basic_return reply_code reply_text exchange routing_key"
| "encode_basic (AMQP_Basic_Deliver consumer_tag delivery_tag redelivered exchange routing_key) =
     enc_basic_deliver consumer_tag delivery_tag redelivered exchange routing_key"
| "encode_basic (AMQP_Basic_Get ticket queue no_ack) = enc_basic_get ticket queue no_ack"
| "encode_basic (AMQP_Basic_Get_Ok delivery_tag redelivered exchange routing_key message_count) =
     enc_basic_get_ok delivery_tag redelivered exchange routing_key message_count"
| "encode_basic (AMQP_Basic_Get_Empty cluster_id) = enc_basic_get_empty cluster_id"
| "encode_basic (AMQP_Basic_Ack delivery_tag multiple) = enc_basic_ack delivery_tag multiple"
| "encode_basic (AMQP_Basic_Reject delivery_tag requeue) =
     enc_basic_reject delivery_tag requeue"
| "encode_basic (AMQP_Basic_Recover requeue) = enc_basic_recover requeue"

fun id_basic :: "basic_method \<Rightarrow> u32" where
  "id_basic (AMQP_Basic_Qos _ _ _) = AMQP_BASIC_QOS_METHOD"
| "id_basic AMQP_Basic_Qos_Ok = AMQP_BASIC_QOS_OK_METHOD"
| "id_basic (AMQP_Basic_Consume _ _ _ _ _ _ _) = AMQP_BASIC_CONSUME_METHOD"
| "id_basic (AMQP_Basic_Consume_Ok _) = AMQP_BASIC_CONSUME_OK_METHOD"
| "id_basic (AMQP_Basic_Cancel _ _) = AMQP_BASIC_CANCEL_METHOD"
| "id_basic (AMQP_Basic_Cancel_Ok _) = AMQP_BASIC_CANCEL_OK_METHOD"
| "id_basic (AMQP_Basic_Publish _ _ _ _ _) = AMQP_BASIC_PUBLISH_METHOD"
| "id_basic (AMQP_Basic_Return _ _ _ _) = AMQP_BASIC_RETURN_METHOD"
| "id_basic (AMQP_Basic_Deliver _ _ _ _ _) = AMQP_BASIC_DELIVER_METHOD"
| "id_basic (AMQP_Basic_Get _ _ _) = AMQP_BASIC_GET_METHOD"
| "id_basic (AMQP_Basic_Get_Ok _ _ _ _ _) = AMQP_BASIC_GET_OK_METHOD"
| "id_basic (AMQP_Basic_Get_Empty _) = AMQP_BASIC_GET_EMPTY_METHOD"
| "id_basic (AMQP_Basic_Ack _ _) = AMQP_BASIC_ACK_METHOD"
| "id_basic (AMQP_Basic_Reject _ _) = AMQP_BASIC_REJECT_METHOD"
| "id_basic (AMQP_Basic_Recover _) = AMQP_BASIC_RECOVER_METHOD"

text \<open>The \<open>switch\<close> of \<open>amqp_decode_method\<close> over this class.\<close>

definition decoders_basic :: "memory \<Rightarrow> (u32 \<times> basic_method dec) list" where
  "decoders_basic mem =
     [(AMQP_BASIC_QOS_METHOD, dec_basic_qos mem),
      (AMQP_BASIC_QOS_OK_METHOD, dec_basic_qos_ok mem),
      (AMQP_BASIC_CONSUME_METHOD, dec_basic_consume mem),
      (AMQP_BASIC_CONSUME_OK_METHOD, dec_basic_consume_ok mem),
      (AMQP_BASIC_CANCEL_METHOD, dec_basic_cancel mem),
      (AMQP_BASIC_CANCEL_OK_METHOD, dec_basic_cancel_ok mem),
      (AMQP_BASIC_PUBLISH_METHOD, dec_basic_publish mem),
      (AMQP_BASIC_RETURN_METHOD, dec_basic_return mem),
      (AMQP_BASIC_DELIVER_METHOD, dec_basic_deliver mem),
      (AMQP_BASIC_GET_METHOD, dec_basic_get mem),
      (AMQP_BASIC_GET_OK_METHOD, dec_basic_get_ok mem),
      (AMQP_BASIC_GET_EMPTY_METHOD, dec_basic_get_empty mem),
      (AMQP_BASIC_ACK_METHOD, dec_basic_ack mem),
      (AMQP_BASIC_REJECT_METHOD, dec_basic_reject mem),
      (AMQP_BASIC_RECOVER_METHOD, dec_basic_recover mem)]"

text \<open>The fields fit their length prefixes.\<close>

fun valid_basic :: "basic_method \<Rightarrow> bool" where
  "valid_basic (AMQP_Basic_Qos _ _ _) = True"
| "valid_basic AMQP_Basic_Qos_Ok = True"
| "valid_basic (AMQP_Basic_Consume _ queue consumer_tag _ _ _ _) =
     (shortstr queue \<and> shortstr consumer_tag)"
| "valid_basic (AMQP_Basic_Consume_Ok consumer_tag) = (shortstr consumer_tag)"
| "valid_basic (AMQP_Basic_Cancel consumer_tag _) = (shortstr consumer_tag)"
| "valid_basic (AMQP_Basic_Cancel_Ok consumer_tag) = (shortstr consumer_tag)"
| "valid_basic (AMQP_Basic_Publish _ exchange routing_key _ _) =
     (shortstr exchange \<and> shortstr routing_key)"
| "valid_basic (AMQP_Basic_Return _ reply_text exchange routing_key) =
     (shortstr reply_text \<and> shortstr exchange \<and> shortstr routing_key)"
| "valid_basic (AMQP_Basic_Deliver consumer_tag _ _ exchange routing_key) =
     (shortstr consumer_tag \<and> shortstr exchange \<and> shortstr routing_key)"
| "valid_basic (AMQP_Basic_Get _ queue _) = (shortstr queue)"
| "valid_basic (AMQP_Basic_Get_Ok _ _ exchange routing_key _) =
     (shortstr exchange \<and> shortstr routing_key)"
| "valid_basic (AMQP_Basic_Get_Empty cluster_id) = (shortstr cluster_id)"
| "valid_basic (AMQP_Basic_Ack _ _) = True"
| "valid_basic (AMQP_Basic_Reject _ _) = True"
| "valid_basic (AMQP_Basic_Recover _) = True"

fun wire_basic :: "basic_method \<Rightarrow> byte list" where
  "wire_basic (AMQP_Basic_Qos prefetch_size prefetch_count global) =
     concat [wire_32 prefetch_size, wire_16 prefetch_count, wire_bits [global]]"
| "wire_basic AMQP_Basic_Qos_Ok = concat []"
| "wire_basic (AMQP_Basic_Consume ticket queue consumer_tag no_local no_ack exclusive nowait) =
     concat
     [wire_16 ticket, wire_shortstr queue, wire_shortstr consumer_tag, wire_bits [no_local, no_ack, exclusive, nowait]]"
| "wire_basic (AMQP_Basic_Consume_Ok consumer_tag) = concat [wire_shortstr consumer_tag]"
| "wire_basic (AMQP_Basic_Cancel consumer_tag nowait) =
     concat [wire_shortstr consumer_tag, wire_bits [nowait]]"
| "wire_basic (AMQP_Basic_Cancel_Ok consumer_tag) = concat [wire_shortstr consumer_tag]"
| "wire_basic (AMQP_Basic_Publish ticket exchange routing_key mandatory immediate) =
     concat
     [wire_16 ticket, wire_shortstr exchange, wire_shortstr routing_key, wire_bits [mandatory, immediate]]"
| "wire_basic (AMQP_Basic_Return reply_code reply_text exchange routing_key) =
     concat
     [wire_16 reply_code, wire_shortstr reply_text, wire_shortstr exchange, wire_shortstr routing_key]"
| "wire_basic (AMQP_Basic_Deliver consumer_tag delivery_tag redelivered exchange routing_key) =
     concat
     [wire_shortstr consumer_tag, wire_64 delivery_tag, wire_bits [redelivered], wire_shortstr exchange, wire_shortstr routing_key]"
| "wire_basic (AMQP_Basic_Get ticket queue no_ack) =
     concat [wire_16 ticket, wire_shortstr queue, wire_bits [no_ack]]"
| "wire_basic (AMQP_Basic_Get_Ok delivery_tag redelivered exchange routing_key message_count) =
     concat
     [wire_64 delivery_tag, wire_bits [redelivered], wire_shortstr exchange, wire_shortstr routing_key, wire_32 message_count]"
| "wire_basic (AMQP_Basic_Get_Empty cluster_id) = concat [wire_shortstr cluster_id]"
| "wire_basic (AMQP_Basic_Ack delivery_tag multiple) =
     concat [wire_64 delivery_tag, wire_bits [multiple]]"
| "wire_basic (AMQP_Basic_Reject delivery_tag requeue) =
     concat [wire_64 delivery_tag, wire_bits [requeue]]"
| "wire_basic (AMQP_Basic_Recover requeue) = concat [wire_bits [requeue]]"

declare wire_basic.simps [simp del]

lemma emits_basic: "valid_basic m \<Longrightarrow> emits (encode_basic m) (wire_basic m)"
  by (cases m;
      simp only: encode_basic.simps wire_basic.simps valid_basic.simps
        enc_basic_qos_def enc_basic_qos_ok_def enc_basic_consume_def
        enc_basic_consume_ok_def enc_basic_cancel_def enc_basic_cancel_ok_def
        enc_basic_publish_def enc_basic_return_def enc_basic_deliver_def enc_basic_get_def
        enc_basic_get_ok_def enc_basic_get_empty_def enc_basic_ack_def enc_basic_reject_def
        enc_basic_recover_def;
      intro emit_intros; simp)

lemma parses_basic:
  assumes "enough_memory mem" and "valid_basic m"
  shows "\<exists>d. map_of (decoders_basic mem) (id_basic m) = Some d \<and> parses d (wire_basic m) m"
  using assms
  by (cases m;
      simp add: decoders_basic_def basic_ids;
      unfold wire_basic.simps
        dec_basic_qos_def dec_basic_qos_ok_def dec_basic_consume_def
        dec_basic_consume_ok_def dec_basic_cancel_def dec_basic_cancel_ok_def
        dec_basic_publish_def dec_basic_return_def dec_basic_deliver_def dec_basic_get_def
        dec_basic_get_ok_def dec_basic_get_empty_def dec_basic_ack_def dec_basic_reject_def
        dec_basic_recover_def;
      intro parse_intros; simp)

lemma safe_basic:
  assumes "\<And>n. pool_ok mem n" and "map_of (decoders_basic mem) i = Some d"
  shows "reads_safely d"
proof -
  have "(i, d) \<in> set (decoders_basic mem)" using assms(2) by (rule map_of_SomeD)
  then show ?thesis
    unfolding decoders_basic_def list.set insert_iff prod.inject empty_iff
    by (elim disjE conjE FalseE; hypsubst;
        unfold
          dec_basic_qos_def dec_basic_qos_ok_def dec_basic_consume_def
          dec_basic_consume_ok_def dec_basic_cancel_def dec_basic_cancel_ok_def
          dec_basic_publish_def dec_basic_return_def dec_basic_deliver_def
          dec_basic_get_def dec_basic_get_ok_def dec_basic_get_empty_def dec_basic_ack_def
          dec_basic_reject_def dec_basic_recover_def;
        intro safe_intros safe_pool safe_decode_table assms(1))
qed

end
