(* ===== verification/Framing_File.thy ===== *)
theory Framing_File
  imports Codec
begin

text \<open>
  Method structs of \<open>src/src/librabbitmq/amqp_framing.h\<close> and their cases of
  \<open>amqp_decode_method\<close> and \<open>amqp_encode_method\<close> in \<open>amqp_framing.c\<close>: classes file, stream.  One
  decoder and one encoder per method, field by field in the order of the code, and for the class
  the bytes of each method, the proof that the encoder emits them, that the decoder parses them
  back, and that the decoder stays inside any buffer.
\<close>

section \<open>Class file\<close>

definition AMQP_FILE_QOS_METHOD :: u32 where "AMQP_FILE_QOS_METHOD = 0x0046000A"
definition AMQP_FILE_QOS_OK_METHOD :: u32 where "AMQP_FILE_QOS_OK_METHOD = 0x0046000B"
definition AMQP_FILE_CONSUME_METHOD :: u32 where "AMQP_FILE_CONSUME_METHOD = 0x00460014"
definition AMQP_FILE_CONSUME_OK_METHOD :: u32 where "AMQP_FILE_CONSUME_OK_METHOD = 0x00460015"
definition AMQP_FILE_CANCEL_METHOD :: u32 where "AMQP_FILE_CANCEL_METHOD = 0x0046001E"
definition AMQP_FILE_CANCEL_OK_METHOD :: u32 where "AMQP_FILE_CANCEL_OK_METHOD = 0x0046001F"
definition AMQP_FILE_OPEN_METHOD :: u32 where "AMQP_FILE_OPEN_METHOD = 0x00460028"
definition AMQP_FILE_OPEN_OK_METHOD :: u32 where "AMQP_FILE_OPEN_OK_METHOD = 0x00460029"
definition AMQP_FILE_STAGE_METHOD :: u32 where "AMQP_FILE_STAGE_METHOD = 0x00460032"
definition AMQP_FILE_PUBLISH_METHOD :: u32 where "AMQP_FILE_PUBLISH_METHOD = 0x0046003C"
definition AMQP_FILE_RETURN_METHOD :: u32 where "AMQP_FILE_RETURN_METHOD = 0x00460046"
definition AMQP_FILE_DELIVER_METHOD :: u32 where "AMQP_FILE_DELIVER_METHOD = 0x00460050"
definition AMQP_FILE_ACK_METHOD :: u32 where "AMQP_FILE_ACK_METHOD = 0x0046005A"
definition AMQP_FILE_REJECT_METHOD :: u32 where "AMQP_FILE_REJECT_METHOD = 0x00460064"

lemmas file_ids =
  AMQP_FILE_QOS_METHOD_def AMQP_FILE_QOS_OK_METHOD_def AMQP_FILE_CONSUME_METHOD_def
  AMQP_FILE_CONSUME_OK_METHOD_def AMQP_FILE_CANCEL_METHOD_def
  AMQP_FILE_CANCEL_OK_METHOD_def AMQP_FILE_OPEN_METHOD_def AMQP_FILE_OPEN_OK_METHOD_def
  AMQP_FILE_STAGE_METHOD_def AMQP_FILE_PUBLISH_METHOD_def AMQP_FILE_RETURN_METHOD_def
  AMQP_FILE_DELIVER_METHOD_def AMQP_FILE_ACK_METHOD_def AMQP_FILE_REJECT_METHOD_def

datatype file_method =
    AMQP_File_Qos u32 u16 bool
  | AMQP_File_Qos_Ok
  | AMQP_File_Consume u16 "byte list" "byte list" bool bool bool bool
  | AMQP_File_Consume_Ok "byte list"
  | AMQP_File_Cancel "byte list" bool
  | AMQP_File_Cancel_Ok "byte list"
  | AMQP_File_Open "byte list" u64
  | AMQP_File_Open_Ok u64
  | AMQP_File_Stage
  | AMQP_File_Publish u16 "byte list" "byte list" bool bool "byte list"
  | AMQP_File_Return u16 "byte list" "byte list" "byte list"
  | AMQP_File_Deliver "byte list" u64 bool "byte list" "byte list" "byte list"
  | AMQP_File_Ack u64 bool
  | AMQP_File_Reject u64 bool

definition dec_file_qos :: "memory \<Rightarrow> file_method dec" where
  "dec_file_qos mem =
     dbind (pool_alloc mem 12) (\<lambda>_.
     dbind get_32 (\<lambda>prefetch_size.
     dbind get_16 (\<lambda>prefetch_count.
     dbind (get_bits 1) (\<lambda>bits.
     dret (AMQP_File_Qos prefetch_size prefetch_count (bits ! 0))))))"

definition enc_file_qos :: "u32 \<Rightarrow> u16 \<Rightarrow> bool \<Rightarrow> enc" where
  "enc_file_qos prefetch_size prefetch_count global =
     enc_all [put_32 prefetch_size, put_16 prefetch_count, put_bits [global]]"

definition dec_file_qos_ok :: "memory \<Rightarrow> file_method dec" where
  "dec_file_qos_ok mem =
     dbind (pool_alloc mem 4) (\<lambda>_.
     dret AMQP_File_Qos_Ok)"

definition enc_file_qos_ok :: "enc" where
  "enc_file_qos_ok =
     enc_all []"

definition dec_file_consume :: "memory \<Rightarrow> file_method dec" where
  "dec_file_consume mem =
     dbind (pool_alloc mem 56) (\<lambda>_.
     dbind get_16 (\<lambda>ticket.
     dbind get_shortstr (\<lambda>queue.
     dbind get_shortstr (\<lambda>consumer_tag.
     dbind (get_bits 4) (\<lambda>bits.
     dret (AMQP_File_Consume ticket queue consumer_tag (bits ! 0) (bits ! 1) (bits ! 2) (bits ! 3)))))))"

definition enc_file_consume :: "u16 \<Rightarrow> byte list \<Rightarrow> byte list \<Rightarrow> bool \<Rightarrow> bool \<Rightarrow> bool \<Rightarrow> bool \<Rightarrow> enc" where
  "enc_file_consume ticket queue consumer_tag no_local no_ack exclusive nowait =
     enc_all [put_16 ticket, put_shortstr queue, put_shortstr consumer_tag,
       put_bits [no_local, no_ack, exclusive, nowait]]"

definition dec_file_consume_ok :: "memory \<Rightarrow> file_method dec" where
  "dec_file_consume_ok mem =
     dbind (pool_alloc mem 16) (\<lambda>_.
     dbind get_shortstr (\<lambda>consumer_tag.
     dret (AMQP_File_Consume_Ok consumer_tag)))"

definition enc_file_consume_ok :: "byte list \<Rightarrow> enc" where
  "enc_file_consume_ok consumer_tag =
     enc_all [put_shortstr consumer_tag]"

definition dec_file_cancel :: "memory \<Rightarrow> file_method dec" where
  "dec_file_cancel mem =
     dbind (pool_alloc mem 24) (\<lambda>_.
     dbind get_shortstr (\<lambda>consumer_tag.
     dbind (get_bits 1) (\<lambda>bits.
     dret (AMQP_File_Cancel consumer_tag (bits ! 0)))))"

definition enc_file_cancel :: "byte list \<Rightarrow> bool \<Rightarrow> enc" where
  "enc_file_cancel consumer_tag nowait =
     enc_all [put_shortstr consumer_tag, put_bits [nowait]]"

definition dec_file_cancel_ok :: "memory \<Rightarrow> file_method dec" where
  "dec_file_cancel_ok mem =
     dbind (pool_alloc mem 16) (\<lambda>_.
     dbind get_shortstr (\<lambda>consumer_tag.
     dret (AMQP_File_Cancel_Ok consumer_tag)))"

definition enc_file_cancel_ok :: "byte list \<Rightarrow> enc" where
  "enc_file_cancel_ok consumer_tag =
     enc_all [put_shortstr consumer_tag]"

definition dec_file_open :: "memory \<Rightarrow> file_method dec" where
  "dec_file_open mem =
     dbind (pool_alloc mem 24) (\<lambda>_.
     dbind get_shortstr (\<lambda>identifier.
     dbind get_64 (\<lambda>content_size.
     dret (AMQP_File_Open identifier content_size))))"

definition enc_file_open :: "byte list \<Rightarrow> u64 \<Rightarrow> enc" where
  "enc_file_open identifier content_size =
     enc_all [put_shortstr identifier, put_64 content_size]"

definition dec_file_open_ok :: "memory \<Rightarrow> file_method dec" where
  "dec_file_open_ok mem =
     dbind (pool_alloc mem 8) (\<lambda>_.
     dbind get_64 (\<lambda>staged_size.
     dret (AMQP_File_Open_Ok staged_size)))"

definition enc_file_open_ok :: "u64 \<Rightarrow> enc" where
  "enc_file_open_ok staged_size =
     enc_all [put_64 staged_size]"

definition dec_file_stage :: "memory \<Rightarrow> file_method dec" where
  "dec_file_stage mem =
     dbind (pool_alloc mem 4) (\<lambda>_.
     dret AMQP_File_Stage)"

definition enc_file_stage :: "enc" where
  "enc_file_stage =
     enc_all []"

definition dec_file_publish :: "memory \<Rightarrow> file_method dec" where
  "dec_file_publish mem =
     dbind (pool_alloc mem 64) (\<lambda>_.
     dbind get_16 (\<lambda>ticket.
     dbind get_shortstr (\<lambda>exchange.
     dbind get_shortstr (\<lambda>routing_key.
     dbind (get_bits 2) (\<lambda>bits.
     dbind get_shortstr (\<lambda>identifier.
     dret (AMQP_File_Publish ticket exchange routing_key (bits ! 0) (bits ! 1) identifier)))))))"

definition enc_file_publish :: "u16 \<Rightarrow> byte list \<Rightarrow> byte list \<Rightarrow> bool \<Rightarrow> bool \<Rightarrow> byte list \<Rightarrow> enc" where
  "enc_file_publish ticket exchange routing_key mandatory immediate identifier =
     enc_all [put_16 ticket, put_shortstr exchange, put_shortstr routing_key,
       put_bits [mandatory, immediate], put_shortstr identifier]"

definition dec_file_return :: "memory \<Rightarrow> file_method dec" where
  "dec_file_return mem =
     dbind (pool_alloc mem 56) (\<lambda>_.
     dbind get_16 (\<lambda>reply_code.
     dbind get_shortstr (\<lambda>reply_text.
     dbind get_shortstr (\<lambda>exchange.
     dbind get_shortstr (\<lambda>routing_key.
     dret (AMQP_File_Return reply_code reply_text exchange routing_key))))))"

definition enc_file_return :: "u16 \<Rightarrow> byte list \<Rightarrow> byte list \<Rightarrow> byte list \<Rightarrow> enc" where
  "enc_file_return reply_code reply_text exchange routing_key =
     enc_all [put_16 reply_code, put_shortstr reply_text, put_shortstr exchange,
       put_shortstr routing_key]"

definition dec_file_deliver :: "memory \<Rightarrow> file_method dec" where
  "dec_file_deliver mem =
     dbind (pool_alloc mem 80) (\<lambda>_.
     dbind get_shortstr (\<lambda>consumer_tag.
     dbind get_64 (\<lambda>delivery_tag.
     dbind (get_bits 1) (\<lambda>bits.
     dbind get_shortstr (\<lambda>exchange.
     dbind get_shortstr (\<lambda>routing_key.
     dbind get_shortstr (\<lambda>identifier.
     dret (AMQP_File_Deliver consumer_tag delivery_tag (bits ! 0) exchange routing_key identifier))))))))"

definition enc_file_deliver :: "byte list \<Rightarrow> u64 \<Rightarrow> bool \<Rightarrow> byte list \<Rightarrow> byte list \<Rightarrow> byte list \<Rightarrow> enc" where
  "enc_file_deliver consumer_tag delivery_tag redelivered exchange routing_key identifier =
     enc_all [put_shortstr consumer_tag, put_64 delivery_tag, put_bits [redelivered],
       put_shortstr exchange, put_shortstr routing_key, put_shortstr identifier]"

definition dec_file_ack :: "memory \<Rightarrow> file_method dec" where
  "dec_file_ack mem =
     dbind (pool_alloc mem 16) (\<lambda>_.
     dbind get_64 (\<lambda>delivery_tag.
     dbind (get_bits 1) (\<lambda>bits.
     dret (AMQP_File_Ack delivery_tag (bits ! 0)))))"

definition enc_file_ack :: "u64 \<Rightarrow> bool \<Rightarrow> enc" where
  "enc_file_ack delivery_tag multiple =
     enc_all [put_64 delivery_tag, put_bits [multiple]]"

definition dec_file_reject :: "memory \<Rightarrow> file_method dec" where
  "dec_file_reject mem =
     dbind (pool_alloc mem 16) (\<lambda>_.
     dbind get_64 (\<lambda>delivery_tag.
     dbind (get_bits 1) (\<lambda>bits.
     dret (AMQP_File_Reject delivery_tag (bits ! 0)))))"

definition enc_file_reject :: "u64 \<Rightarrow> bool \<Rightarrow> enc" where
  "enc_file_reject delivery_tag requeue =
     enc_all [put_64 delivery_tag, put_bits [requeue]]"

text \<open>The \<open>switch\<close> of \<open>amqp_encode_method\<close> over this class.\<close>

fun encode_file :: "file_method \<Rightarrow> enc" where
  "encode_file (AMQP_File_Qos prefetch_size prefetch_count global) =
     enc_file_qos prefetch_size prefetch_count global"
| "encode_file AMQP_File_Qos_Ok = enc_file_qos_ok"
| "encode_file (AMQP_File_Consume ticket queue consumer_tag no_local no_ack exclusive nowait) =
     enc_file_consume ticket queue consumer_tag no_local no_ack exclusive nowait"
| "encode_file (AMQP_File_Consume_Ok consumer_tag) = enc_file_consume_ok consumer_tag"
| "encode_file (AMQP_File_Cancel consumer_tag nowait) = enc_file_cancel consumer_tag nowait"
| "encode_file (AMQP_File_Cancel_Ok consumer_tag) = enc_file_cancel_ok consumer_tag"
| "encode_file (AMQP_File_Open identifier content_size) = enc_file_open identifier content_size"
| "encode_file (AMQP_File_Open_Ok staged_size) = enc_file_open_ok staged_size"
| "encode_file AMQP_File_Stage = enc_file_stage"
| "encode_file (AMQP_File_Publish ticket exchange routing_key mandatory immediate identifier) =
     enc_file_publish ticket exchange routing_key mandatory immediate identifier"
| "encode_file (AMQP_File_Return reply_code reply_text exchange routing_key) =
     enc_file_return reply_code reply_text exchange routing_key"
| "encode_file (AMQP_File_Deliver consumer_tag delivery_tag redelivered exchange routing_key identifier) =
     enc_file_deliver consumer_tag delivery_tag redelivered exchange routing_key identifier"
| "encode_file (AMQP_File_Ack delivery_tag multiple) = enc_file_ack delivery_tag multiple"
| "encode_file (AMQP_File_Reject delivery_tag requeue) = enc_file_reject delivery_tag requeue"

fun id_file :: "file_method \<Rightarrow> u32" where
  "id_file (AMQP_File_Qos _ _ _) = AMQP_FILE_QOS_METHOD"
| "id_file AMQP_File_Qos_Ok = AMQP_FILE_QOS_OK_METHOD"
| "id_file (AMQP_File_Consume _ _ _ _ _ _ _) = AMQP_FILE_CONSUME_METHOD"
| "id_file (AMQP_File_Consume_Ok _) = AMQP_FILE_CONSUME_OK_METHOD"
| "id_file (AMQP_File_Cancel _ _) = AMQP_FILE_CANCEL_METHOD"
| "id_file (AMQP_File_Cancel_Ok _) = AMQP_FILE_CANCEL_OK_METHOD"
| "id_file (AMQP_File_Open _ _) = AMQP_FILE_OPEN_METHOD"
| "id_file (AMQP_File_Open_Ok _) = AMQP_FILE_OPEN_OK_METHOD"
| "id_file AMQP_File_Stage = AMQP_FILE_STAGE_METHOD"
| "id_file (AMQP_File_Publish _ _ _ _ _ _) = AMQP_FILE_PUBLISH_METHOD"
| "id_file (AMQP_File_Return _ _ _ _) = AMQP_FILE_RETURN_METHOD"
| "id_file (AMQP_File_Deliver _ _ _ _ _ _) = AMQP_FILE_DELIVER_METHOD"
| "id_file (AMQP_File_Ack _ _) = AMQP_FILE_ACK_METHOD"
| "id_file (AMQP_File_Reject _ _) = AMQP_FILE_REJECT_METHOD"

text \<open>The \<open>switch\<close> of \<open>amqp_decode_method\<close> over this class.\<close>

definition decoders_file :: "memory \<Rightarrow> (u32 \<times> file_method dec) list" where
  "decoders_file mem =
     [(AMQP_FILE_QOS_METHOD, dec_file_qos mem),
      (AMQP_FILE_QOS_OK_METHOD, dec_file_qos_ok mem),
      (AMQP_FILE_CONSUME_METHOD, dec_file_consume mem),
      (AMQP_FILE_CONSUME_OK_METHOD, dec_file_consume_ok mem),
      (AMQP_FILE_CANCEL_METHOD, dec_file_cancel mem),
      (AMQP_FILE_CANCEL_OK_METHOD, dec_file_cancel_ok mem),
      (AMQP_FILE_OPEN_METHOD, dec_file_open mem),
      (AMQP_FILE_OPEN_OK_METHOD, dec_file_open_ok mem),
      (AMQP_FILE_STAGE_METHOD, dec_file_stage mem),
      (AMQP_FILE_PUBLISH_METHOD, dec_file_publish mem),
      (AMQP_FILE_RETURN_METHOD, dec_file_return mem),
      (AMQP_FILE_DELIVER_METHOD, dec_file_deliver mem),
      (AMQP_FILE_ACK_METHOD, dec_file_ack mem),
      (AMQP_FILE_REJECT_METHOD, dec_file_reject mem)]"

text \<open>The fields fit their length prefixes.\<close>

fun valid_file :: "file_method \<Rightarrow> bool" where
  "valid_file (AMQP_File_Qos _ _ _) = True"
| "valid_file AMQP_File_Qos_Ok = True"
| "valid_file (AMQP_File_Consume _ queue consumer_tag _ _ _ _) =
     (shortstr queue \<and> shortstr consumer_tag)"
| "valid_file (AMQP_File_Consume_Ok consumer_tag) = (shortstr consumer_tag)"
| "valid_file (AMQP_File_Cancel consumer_tag _) = (shortstr consumer_tag)"
| "valid_file (AMQP_File_Cancel_Ok consumer_tag) = (shortstr consumer_tag)"
| "valid_file (AMQP_File_Open identifier _) = (shortstr identifier)"
| "valid_file (AMQP_File_Open_Ok _) = True"
| "valid_file AMQP_File_Stage = True"
| "valid_file (AMQP_File_Publish _ exchange routing_key _ _ identifier) =
     (shortstr exchange \<and> shortstr routing_key \<and> shortstr identifier)"
| "valid_file (AMQP_File_Return _ reply_text exchange routing_key) =
     (shortstr reply_text \<and> shortstr exchange \<and> shortstr routing_key)"
| "valid_file (AMQP_File_Deliver consumer_tag _ _ exchange routing_key identifier) =
     (shortstr consumer_tag \<and> shortstr exchange \<and> shortstr routing_key \<and>
     shortstr identifier)"
| "valid_file (AMQP_File_Ack _ _) = True"
| "valid_file (AMQP_File_Reject _ _) = True"

fun wire_file :: "file_method \<Rightarrow> byte list" where
  "wire_file (AMQP_File_Qos prefetch_size prefetch_count global) =
     concat [wire_32 prefetch_size, wire_16 prefetch_count, wire_bits [global]]"
| "wire_file AMQP_File_Qos_Ok = concat []"
| "wire_file (AMQP_File_Consume ticket queue consumer_tag no_local no_ack exclusive nowait) =
     concat
     [wire_16 ticket, wire_shortstr queue, wire_shortstr consumer_tag, wire_bits [no_local, no_ack, exclusive, nowait]]"
| "wire_file (AMQP_File_Consume_Ok consumer_tag) = concat [wire_shortstr consumer_tag]"
| "wire_file (AMQP_File_Cancel consumer_tag nowait) =
     concat [wire_shortstr consumer_tag, wire_bits [nowait]]"
| "wire_file (AMQP_File_Cancel_Ok consumer_tag) = concat [wire_shortstr consumer_tag]"
| "wire_file (AMQP_File_Open identifier content_size) =
     concat [wire_shortstr identifier, wire_64 content_size]"
| "wire_file (AMQP_File_Open_Ok staged_size) = concat [wire_64 staged_size]"
| "wire_file AMQP_File_Stage = concat []"
| "wire_file (AMQP_File_Publish ticket exchange routing_key mandatory immediate identifier) =
     concat
     [wire_16 ticket, wire_shortstr exchange, wire_shortstr routing_key, wire_bits [mandatory, immediate], wire_shortstr identifier]"
| "wire_file (AMQP_File_Return reply_code reply_text exchange routing_key) =
     concat
     [wire_16 reply_code, wire_shortstr reply_text, wire_shortstr exchange, wire_shortstr routing_key]"
| "wire_file (AMQP_File_Deliver consumer_tag delivery_tag redelivered exchange routing_key identifier) =
     concat
     [wire_shortstr consumer_tag, wire_64 delivery_tag, wire_bits [redelivered], wire_shortstr exchange, wire_shortstr routing_key, wire_shortstr identifier]"
| "wire_file (AMQP_File_Ack delivery_tag multiple) =
     concat [wire_64 delivery_tag, wire_bits [multiple]]"
| "wire_file (AMQP_File_Reject delivery_tag requeue) =
     concat [wire_64 delivery_tag, wire_bits [requeue]]"

declare wire_file.simps [simp del]

lemma emits_file: "valid_file m \<Longrightarrow> emits (encode_file m) (wire_file m)"
  by (cases m;
      simp only: encode_file.simps wire_file.simps valid_file.simps
        enc_file_qos_def enc_file_qos_ok_def enc_file_consume_def enc_file_consume_ok_def
        enc_file_cancel_def enc_file_cancel_ok_def enc_file_open_def enc_file_open_ok_def
        enc_file_stage_def enc_file_publish_def enc_file_return_def enc_file_deliver_def
        enc_file_ack_def enc_file_reject_def;
      intro emit_intros; simp)

lemma parses_file:
  assumes "enough_memory mem" and "valid_file m"
  shows "\<exists>d. map_of (decoders_file mem) (id_file m) = Some d \<and> parses d (wire_file m) m"
  using assms
  by (cases m;
      simp add: decoders_file_def file_ids;
      unfold wire_file.simps
        dec_file_qos_def dec_file_qos_ok_def dec_file_consume_def dec_file_consume_ok_def
        dec_file_cancel_def dec_file_cancel_ok_def dec_file_open_def dec_file_open_ok_def
        dec_file_stage_def dec_file_publish_def dec_file_return_def dec_file_deliver_def
        dec_file_ack_def dec_file_reject_def;
      intro parse_intros; simp)

lemma safe_file:
  assumes "\<And>n. pool_ok mem n" and "map_of (decoders_file mem) i = Some d"
  shows "reads_safely d"
proof -
  have "(i, d) \<in> set (decoders_file mem)" using assms(2) by (rule map_of_SomeD)
  then show ?thesis
    unfolding decoders_file_def list.set insert_iff prod.inject empty_iff
    by (elim disjE conjE FalseE; hypsubst;
        unfold
          dec_file_qos_def dec_file_qos_ok_def dec_file_consume_def dec_file_consume_ok_def
          dec_file_cancel_def dec_file_cancel_ok_def dec_file_open_def dec_file_open_ok_def
          dec_file_stage_def dec_file_publish_def dec_file_return_def dec_file_deliver_def
          dec_file_ack_def dec_file_reject_def;
        intro safe_intros safe_pool safe_decode_table assms(1))
qed

section \<open>Class stream\<close>

definition AMQP_STREAM_QOS_METHOD :: u32 where "AMQP_STREAM_QOS_METHOD = 0x0050000A"
definition AMQP_STREAM_QOS_OK_METHOD :: u32 where "AMQP_STREAM_QOS_OK_METHOD = 0x0050000B"
definition AMQP_STREAM_CONSUME_METHOD :: u32 where "AMQP_STREAM_CONSUME_METHOD = 0x00500014"
definition AMQP_STREAM_CONSUME_OK_METHOD :: u32 where "AMQP_STREAM_CONSUME_OK_METHOD = 0x00500015"
definition AMQP_STREAM_CANCEL_METHOD :: u32 where "AMQP_STREAM_CANCEL_METHOD = 0x0050001E"
definition AMQP_STREAM_CANCEL_OK_METHOD :: u32 where "AMQP_STREAM_CANCEL_OK_METHOD = 0x0050001F"
definition AMQP_STREAM_PUBLISH_METHOD :: u32 where "AMQP_STREAM_PUBLISH_METHOD = 0x00500028"
definition AMQP_STREAM_RETURN_METHOD :: u32 where "AMQP_STREAM_RETURN_METHOD = 0x00500032"
definition AMQP_STREAM_DELIVER_METHOD :: u32 where "AMQP_STREAM_DELIVER_METHOD = 0x0050003C"

lemmas stream_ids =
  AMQP_STREAM_QOS_METHOD_def AMQP_STREAM_QOS_OK_METHOD_def AMQP_STREAM_CONSUME_METHOD_def
  AMQP_STREAM_CONSUME_OK_METHOD_def AMQP_STREAM_CANCEL_METHOD_def
  AMQP_STREAM_CANCEL_OK_METHOD_def AMQP_STREAM_PUBLISH_METHOD_def
  AMQP_STREAM_RETURN_METHOD_def AMQP_STREAM_DELIVER_METHOD_def

datatype stream_method =
    AMQP_Stream_Qos u32 u16 u32 bool
  | AMQP_Stream_Qos_Ok
  | AMQP_Stream_Consume u16 "byte list" "byte list" bool bool bool
  | AMQP_Stream_Consume_Ok "byte list"
  | AMQP_Stream_Cancel "byte list" bool
  | AMQP_Stream_Cancel_Ok "byte list"
  | AMQP_Stream_Publish u16 "byte list" "byte list" bool bool
  | AMQP_Stream_Return u16 "byte list" "byte list" "byte list"
  | AMQP_Stream_Deliver "byte list" u64 "byte list" "byte list"

definition dec_stream_qos :: "memory \<Rightarrow> stream_method dec" where
  "dec_stream_qos mem =
     dbind (pool_alloc mem 16) (\<lambda>_.
     dbind get_32 (\<lambda>prefetch_size.
     dbind get_16 (\<lambda>prefetch_count.
     dbind get_32 (\<lambda>consume_rate.
     dbind (get_bits 1) (\<lambda>bits.
     dret (AMQP_Stream_Qos prefetch_size prefetch_count consume_rate (bits ! 0)))))))"

definition enc_stream_qos :: "u32 \<Rightarrow> u16 \<Rightarrow> u32 \<Rightarrow> bool \<Rightarrow> enc" where
  "enc_stream_qos prefetch_size prefetch_count consume_rate global =
     enc_all [put_32 prefetch_size, put_16 prefetch_count, put_32 consume_rate, put_bits [global]]"

definition dec_stream_qos_ok :: "memory \<Rightarrow> stream_method dec" where
  "dec_stream_qos_ok mem =
     dbind (pool_alloc mem 4) (\<lambda>_.
     dret AMQP_Stream_Qos_Ok)"

definition enc_stream_qos_ok :: "enc" where
  "enc_stream_qos_ok =
     enc_all []"

definition dec_stream_consume :: "memory \<Rightarrow> stream_method dec" where
  "dec_stream_consume mem =
     dbind (pool_alloc mem 56) (\<lambda>_.
     dbind get_16 (\<lambda>ticket.
     dbind get_shortstr (\<lambda>queue.
     dbind get_shortstr (\<lambda>consumer_tag.
     dbind (get_bits 3) (\<lambda>bits.
     dret (AMQP_Stream_Consume ticket queue consumer_tag (bits ! 0) (bits ! 1) (bits ! 2)))))))"

definition enc_stream_consume :: "u16 \<Rightarrow> byte list \<Rightarrow> byte list \<Rightarrow> bool \<Rightarrow> bool \<Rightarrow> bool \<Rightarrow> enc" where
  "enc_stream_consume ticket queue consumer_tag no_local exclusive nowait =
     enc_all [put_16 ticket, put_shortstr queue, put_shortstr consumer_tag,
       put_bits [no_local, exclusive, nowait]]"

definition dec_stream_consume_ok :: "memory \<Rightarrow> stream_method dec" where
  "dec_stream_consume_ok mem =
     dbind (pool_alloc mem 16) (\<lambda>_.
     dbind get_shortstr (\<lambda>consumer_tag.
     dret (AMQP_Stream_Consume_Ok consumer_tag)))"

definition enc_stream_consume_ok :: "byte list \<Rightarrow> enc" where
  "enc_stream_consume_ok consumer_tag =
     enc_all [put_shortstr consumer_tag]"

definition dec_stream_cancel :: "memory \<Rightarrow> stream_method dec" where
  "dec_stream_cancel mem =
     dbind (pool_alloc mem 24) (\<lambda>_.
     dbind get_shortstr (\<lambda>consumer_tag.
     dbind (get_bits 1) (\<lambda>bits.
     dret (AMQP_Stream_Cancel consumer_tag (bits ! 0)))))"

definition enc_stream_cancel :: "byte list \<Rightarrow> bool \<Rightarrow> enc" where
  "enc_stream_cancel consumer_tag nowait =
     enc_all [put_shortstr consumer_tag, put_bits [nowait]]"

definition dec_stream_cancel_ok :: "memory \<Rightarrow> stream_method dec" where
  "dec_stream_cancel_ok mem =
     dbind (pool_alloc mem 16) (\<lambda>_.
     dbind get_shortstr (\<lambda>consumer_tag.
     dret (AMQP_Stream_Cancel_Ok consumer_tag)))"

definition enc_stream_cancel_ok :: "byte list \<Rightarrow> enc" where
  "enc_stream_cancel_ok consumer_tag =
     enc_all [put_shortstr consumer_tag]"

definition dec_stream_publish :: "memory \<Rightarrow> stream_method dec" where
  "dec_stream_publish mem =
     dbind (pool_alloc mem 48) (\<lambda>_.
     dbind get_16 (\<lambda>ticket.
     dbind get_shortstr (\<lambda>exchange.
     dbind get_shortstr (\<lambda>routing_key.
     dbind (get_bits 2) (\<lambda>bits.
     dret (AMQP_Stream_Publish ticket exchange routing_key (bits ! 0) (bits ! 1)))))))"

definition enc_stream_publish :: "u16 \<Rightarrow> byte list \<Rightarrow> byte list \<Rightarrow> bool \<Rightarrow> bool \<Rightarrow> enc" where
  "enc_stream_publish ticket exchange routing_key mandatory immediate =
     enc_all [put_16 ticket, put_shortstr exchange, put_shortstr routing_key,
       put_bits [mandatory, immediate]]"

definition dec_stream_return :: "memory \<Rightarrow> stream_method dec" where
  "dec_stream_return mem =
     dbind (pool_alloc mem 56) (\<lambda>_.
     dbind get_16 (\<lambda>reply_code.
     dbind get_shortstr (\<lambda>reply_text.
     dbind get_shortstr (\<lambda>exchange.
     dbind get_shortstr (\<lambda>routing_key.
     dret (AMQP_Stream_Return reply_code reply_text exchange routing_key))))))"

definition enc_stream_return :: "u16 \<Rightarrow> byte list \<Rightarrow> byte list \<Rightarrow> byte list \<Rightarrow> enc" where
  "enc_stream_return reply_code reply_text exchange routing_key =
     enc_all [put_16 reply_code, put_shortstr reply_text, put_shortstr exchange,
       put_shortstr routing_key]"

definition dec_stream_deliver :: "memory \<Rightarrow> stream_method dec" where
  "dec_stream_deliver mem =
     dbind (pool_alloc mem 56) (\<lambda>_.
     dbind get_shortstr (\<lambda>consumer_tag.
     dbind get_64 (\<lambda>delivery_tag.
     dbind get_shortstr (\<lambda>exchange.
     dbind get_shortstr (\<lambda>queue.
     dret (AMQP_Stream_Deliver consumer_tag delivery_tag exchange queue))))))"

definition enc_stream_deliver :: "byte list \<Rightarrow> u64 \<Rightarrow> byte list \<Rightarrow> byte list \<Rightarrow> enc" where
  "enc_stream_deliver consumer_tag delivery_tag exchange queue =
     enc_all [put_shortstr consumer_tag, put_64 delivery_tag, put_shortstr exchange,
       put_shortstr queue]"

text \<open>The \<open>switch\<close> of \<open>amqp_encode_method\<close> over this class.\<close>

fun encode_stream :: "stream_method \<Rightarrow> enc" where
  "encode_stream (AMQP_Stream_Qos prefetch_size prefetch_count consume_rate global) =
     enc_stream_qos prefetch_size prefetch_count consume_rate global"
| "encode_stream AMQP_Stream_Qos_Ok = enc_stream_qos_ok"
| "encode_stream (AMQP_Stream_Consume ticket queue consumer_tag no_local exclusive nowait) =
     enc_stream_consume ticket queue consumer_tag no_local exclusive nowait"
| "encode_stream (AMQP_Stream_Consume_Ok consumer_tag) = enc_stream_consume_ok consumer_tag"
| "encode_stream (AMQP_Stream_Cancel consumer_tag nowait) =
     enc_stream_cancel consumer_tag nowait"
| "encode_stream (AMQP_Stream_Cancel_Ok consumer_tag) = enc_stream_cancel_ok consumer_tag"
| "encode_stream (AMQP_Stream_Publish ticket exchange routing_key mandatory immediate) =
     enc_stream_publish ticket exchange routing_key mandatory immediate"
| "encode_stream (AMQP_Stream_Return reply_code reply_text exchange routing_key) =
     enc_stream_return reply_code reply_text exchange routing_key"
| "encode_stream (AMQP_Stream_Deliver consumer_tag delivery_tag exchange queue) =
     enc_stream_deliver consumer_tag delivery_tag exchange queue"

fun id_stream :: "stream_method \<Rightarrow> u32" where
  "id_stream (AMQP_Stream_Qos _ _ _ _) = AMQP_STREAM_QOS_METHOD"
| "id_stream AMQP_Stream_Qos_Ok = AMQP_STREAM_QOS_OK_METHOD"
| "id_stream (AMQP_Stream_Consume _ _ _ _ _ _) = AMQP_STREAM_CONSUME_METHOD"
| "id_stream (AMQP_Stream_Consume_Ok _) = AMQP_STREAM_CONSUME_OK_METHOD"
| "id_stream (AMQP_Stream_Cancel _ _) = AMQP_STREAM_CANCEL_METHOD"
| "id_stream (AMQP_Stream_Cancel_Ok _) = AMQP_STREAM_CANCEL_OK_METHOD"
| "id_stream (AMQP_Stream_Publish _ _ _ _ _) = AMQP_STREAM_PUBLISH_METHOD"
| "id_stream (AMQP_Stream_Return _ _ _ _) = AMQP_STREAM_RETURN_METHOD"
| "id_stream (AMQP_Stream_Deliver _ _ _ _) = AMQP_STREAM_DELIVER_METHOD"

text \<open>The \<open>switch\<close> of \<open>amqp_decode_method\<close> over this class.\<close>

definition decoders_stream :: "memory \<Rightarrow> (u32 \<times> stream_method dec) list" where
  "decoders_stream mem =
     [(AMQP_STREAM_QOS_METHOD, dec_stream_qos mem),
      (AMQP_STREAM_QOS_OK_METHOD, dec_stream_qos_ok mem),
      (AMQP_STREAM_CONSUME_METHOD, dec_stream_consume mem),
      (AMQP_STREAM_CONSUME_OK_METHOD, dec_stream_consume_ok mem),
      (AMQP_STREAM_CANCEL_METHOD, dec_stream_cancel mem),
      (AMQP_STREAM_CANCEL_OK_METHOD, dec_stream_cancel_ok mem),
      (AMQP_STREAM_PUBLISH_METHOD, dec_stream_publish mem),
      (AMQP_STREAM_RETURN_METHOD, dec_stream_return mem),
      (AMQP_STREAM_DELIVER_METHOD, dec_stream_deliver mem)]"

text \<open>The fields fit their length prefixes.\<close>

fun valid_stream :: "stream_method \<Rightarrow> bool" where
  "valid_stream (AMQP_Stream_Qos _ _ _ _) = True"
| "valid_stream AMQP_Stream_Qos_Ok = True"
| "valid_stream (AMQP_Stream_Consume _ queue consumer_tag _ _ _) =
     (shortstr queue \<and> shortstr consumer_tag)"
| "valid_stream (AMQP_Stream_Consume_Ok consumer_tag) = (shortstr consumer_tag)"
| "valid_stream (AMQP_Stream_Cancel consumer_tag _) = (shortstr consumer_tag)"
| "valid_stream (AMQP_Stream_Cancel_Ok consumer_tag) = (shortstr consumer_tag)"
| "valid_stream (AMQP_Stream_Publish _ exchange routing_key _ _) =
     (shortstr exchange \<and> shortstr routing_key)"
| "valid_stream (AMQP_Stream_Return _ reply_text exchange routing_key) =
     (shortstr reply_text \<and> shortstr exchange \<and> shortstr routing_key)"
| "valid_stream (AMQP_Stream_Deliver consumer_tag _ exchange queue) =
     (shortstr consumer_tag \<and> shortstr exchange \<and> shortstr queue)"

fun wire_stream :: "stream_method \<Rightarrow> byte list" where
  "wire_stream (AMQP_Stream_Qos prefetch_size prefetch_count consume_rate global) =
     concat
     [wire_32 prefetch_size, wire_16 prefetch_count, wire_32 consume_rate, wire_bits [global]]"
| "wire_stream AMQP_Stream_Qos_Ok = concat []"
| "wire_stream (AMQP_Stream_Consume ticket queue consumer_tag no_local exclusive nowait) =
     concat
     [wire_16 ticket, wire_shortstr queue, wire_shortstr consumer_tag, wire_bits [no_local, exclusive, nowait]]"
| "wire_stream (AMQP_Stream_Consume_Ok consumer_tag) = concat [wire_shortstr consumer_tag]"
| "wire_stream (AMQP_Stream_Cancel consumer_tag nowait) =
     concat [wire_shortstr consumer_tag, wire_bits [nowait]]"
| "wire_stream (AMQP_Stream_Cancel_Ok consumer_tag) = concat [wire_shortstr consumer_tag]"
| "wire_stream (AMQP_Stream_Publish ticket exchange routing_key mandatory immediate) =
     concat
     [wire_16 ticket, wire_shortstr exchange, wire_shortstr routing_key, wire_bits [mandatory, immediate]]"
| "wire_stream (AMQP_Stream_Return reply_code reply_text exchange routing_key) =
     concat
     [wire_16 reply_code, wire_shortstr reply_text, wire_shortstr exchange, wire_shortstr routing_key]"
| "wire_stream (AMQP_Stream_Deliver consumer_tag delivery_tag exchange queue) =
     concat
     [wire_shortstr consumer_tag, wire_64 delivery_tag, wire_shortstr exchange, wire_shortstr queue]"

declare wire_stream.simps [simp del]

lemma emits_stream: "valid_stream m \<Longrightarrow> emits (encode_stream m) (wire_stream m)"
  by (cases m;
      simp only: encode_stream.simps wire_stream.simps valid_stream.simps
        enc_stream_qos_def enc_stream_qos_ok_def enc_stream_consume_def
        enc_stream_consume_ok_def enc_stream_cancel_def enc_stream_cancel_ok_def
        enc_stream_publish_def enc_stream_return_def enc_stream_deliver_def;
      intro emit_intros; simp)

lemma parses_stream:
  assumes "enough_memory mem" and "valid_stream m"
  shows "\<exists>d. map_of (decoders_stream mem) (id_stream m) = Some d \<and> parses d (wire_stream m) m"
  using assms
  by (cases m;
      simp add: decoders_stream_def stream_ids;
      unfold wire_stream.simps
        dec_stream_qos_def dec_stream_qos_ok_def dec_stream_consume_def
        dec_stream_consume_ok_def dec_stream_cancel_def dec_stream_cancel_ok_def
        dec_stream_publish_def dec_stream_return_def dec_stream_deliver_def;
      intro parse_intros; simp)

lemma safe_stream:
  assumes "\<And>n. pool_ok mem n" and "map_of (decoders_stream mem) i = Some d"
  shows "reads_safely d"
proof -
  have "(i, d) \<in> set (decoders_stream mem)" using assms(2) by (rule map_of_SomeD)
  then show ?thesis
    unfolding decoders_stream_def list.set insert_iff prod.inject empty_iff
    by (elim disjE conjE FalseE; hypsubst;
        unfold
          dec_stream_qos_def dec_stream_qos_ok_def dec_stream_consume_def
          dec_stream_consume_ok_def dec_stream_cancel_def dec_stream_cancel_ok_def
          dec_stream_publish_def dec_stream_return_def dec_stream_deliver_def;
        intro safe_intros safe_pool safe_decode_table assms(1))
qed

end
