(* ===== verification/Framing_Tx.thy ===== *)
theory Framing_Tx
  imports Codec
begin

text \<open>
  Method structs of \<open>src/src/librabbitmq/amqp_framing.h\<close> and their cases of
  \<open>amqp_decode_method\<close> and \<open>amqp_encode_method\<close> in \<open>amqp_framing.c\<close>: classes tx, dtx, tunnel, test.  One
  decoder and one encoder per method, field by field in the order of the code, and for the class
  the bytes of each method, the proof that the encoder emits them, that the decoder parses them
  back, and that the decoder stays inside any buffer.
\<close>

section \<open>Class tx\<close>

definition AMQP_TX_SELECT_METHOD :: u32 where "AMQP_TX_SELECT_METHOD = 0x005A000A"
definition AMQP_TX_SELECT_OK_METHOD :: u32 where "AMQP_TX_SELECT_OK_METHOD = 0x005A000B"
definition AMQP_TX_COMMIT_METHOD :: u32 where "AMQP_TX_COMMIT_METHOD = 0x005A0014"
definition AMQP_TX_COMMIT_OK_METHOD :: u32 where "AMQP_TX_COMMIT_OK_METHOD = 0x005A0015"
definition AMQP_TX_ROLLBACK_METHOD :: u32 where "AMQP_TX_ROLLBACK_METHOD = 0x005A001E"
definition AMQP_TX_ROLLBACK_OK_METHOD :: u32 where "AMQP_TX_ROLLBACK_OK_METHOD = 0x005A001F"

lemmas tx_ids =
  AMQP_TX_SELECT_METHOD_def AMQP_TX_SELECT_OK_METHOD_def AMQP_TX_COMMIT_METHOD_def
  AMQP_TX_COMMIT_OK_METHOD_def AMQP_TX_ROLLBACK_METHOD_def AMQP_TX_ROLLBACK_OK_METHOD_def

datatype tx_method =
    AMQP_Tx_Select
  | AMQP_Tx_Select_Ok
  | AMQP_Tx_Commit
  | AMQP_Tx_Commit_Ok
  | AMQP_Tx_Rollback
  | AMQP_Tx_Rollback_Ok

definition dec_tx_select :: "memory \<Rightarrow> tx_method dec" where
  "dec_tx_select mem =
     dbind (pool_alloc mem 4) (\<lambda>_.
     dret AMQP_Tx_Select)"

definition enc_tx_select :: "enc" where
  "enc_tx_select =
     enc_all []"

definition dec_tx_select_ok :: "memory \<Rightarrow> tx_method dec" where
  "dec_tx_select_ok mem =
     dbind (pool_alloc mem 4) (\<lambda>_.
     dret AMQP_Tx_Select_Ok)"

definition enc_tx_select_ok :: "enc" where
  "enc_tx_select_ok =
     enc_all []"

definition dec_tx_commit :: "memory \<Rightarrow> tx_method dec" where
  "dec_tx_commit mem =
     dbind (pool_alloc mem 4) (\<lambda>_.
     dret AMQP_Tx_Commit)"

definition enc_tx_commit :: "enc" where
  "enc_tx_commit =
     enc_all []"

definition dec_tx_commit_ok :: "memory \<Rightarrow> tx_method dec" where
  "dec_tx_commit_ok mem =
     dbind (pool_alloc mem 4) (\<lambda>_.
     dret AMQP_Tx_Commit_Ok)"

definition enc_tx_commit_ok :: "enc" where
  "enc_tx_commit_ok =
     enc_all []"

definition dec_tx_rollback :: "memory \<Rightarrow> tx_method dec" where
  "dec_tx_rollback mem =
     dbind (pool_alloc mem 4) (\<lambda>_.
     dret AMQP_Tx_Rollback)"

definition enc_tx_rollback :: "enc" where
  "enc_tx_rollback =
     enc_all []"

definition dec_tx_rollback_ok :: "memory \<Rightarrow> tx_method dec" where
  "dec_tx_rollback_ok mem =
     dbind (pool_alloc mem 4) (\<lambda>_.
     dret AMQP_Tx_Rollback_Ok)"

definition enc_tx_rollback_ok :: "enc" where
  "enc_tx_rollback_ok =
     enc_all []"

text \<open>The \<open>switch\<close> of \<open>amqp_encode_method\<close> over this class.\<close>

fun encode_tx :: "tx_method \<Rightarrow> enc" where
  "encode_tx AMQP_Tx_Select = enc_tx_select"
| "encode_tx AMQP_Tx_Select_Ok = enc_tx_select_ok"
| "encode_tx AMQP_Tx_Commit = enc_tx_commit"
| "encode_tx AMQP_Tx_Commit_Ok = enc_tx_commit_ok"
| "encode_tx AMQP_Tx_Rollback = enc_tx_rollback"
| "encode_tx AMQP_Tx_Rollback_Ok = enc_tx_rollback_ok"

fun id_tx :: "tx_method \<Rightarrow> u32" where
  "id_tx AMQP_Tx_Select = AMQP_TX_SELECT_METHOD"
| "id_tx AMQP_Tx_Select_Ok = AMQP_TX_SELECT_OK_METHOD"
| "id_tx AMQP_Tx_Commit = AMQP_TX_COMMIT_METHOD"
| "id_tx AMQP_Tx_Commit_Ok = AMQP_TX_COMMIT_OK_METHOD"
| "id_tx AMQP_Tx_Rollback = AMQP_TX_ROLLBACK_METHOD"
| "id_tx AMQP_Tx_Rollback_Ok = AMQP_TX_ROLLBACK_OK_METHOD"

text \<open>The \<open>switch\<close> of \<open>amqp_decode_method\<close> over this class.\<close>

definition decoders_tx :: "memory \<Rightarrow> (u32 \<times> tx_method dec) list" where
  "decoders_tx mem =
     [(AMQP_TX_SELECT_METHOD, dec_tx_select mem),
      (AMQP_TX_SELECT_OK_METHOD, dec_tx_select_ok mem),
      (AMQP_TX_COMMIT_METHOD, dec_tx_commit mem),
      (AMQP_TX_COMMIT_OK_METHOD, dec_tx_commit_ok mem),
      (AMQP_TX_ROLLBACK_METHOD, dec_tx_rollback mem),
      (AMQP_TX_ROLLBACK_OK_METHOD, dec_tx_rollback_ok mem)]"

text \<open>The fields fit their length prefixes.\<close>

fun valid_tx :: "tx_method \<Rightarrow> bool" where
  "valid_tx AMQP_Tx_Select = True"
| "valid_tx AMQP_Tx_Select_Ok = True"
| "valid_tx AMQP_Tx_Commit = True"
| "valid_tx AMQP_Tx_Commit_Ok = True"
| "valid_tx AMQP_Tx_Rollback = True"
| "valid_tx AMQP_Tx_Rollback_Ok = True"

fun wire_tx :: "tx_method \<Rightarrow> byte list" where
  "wire_tx AMQP_Tx_Select = concat []"
| "wire_tx AMQP_Tx_Select_Ok = concat []"
| "wire_tx AMQP_Tx_Commit = concat []"
| "wire_tx AMQP_Tx_Commit_Ok = concat []"
| "wire_tx AMQP_Tx_Rollback = concat []"
| "wire_tx AMQP_Tx_Rollback_Ok = concat []"

declare wire_tx.simps [simp del]

lemma emits_tx: "valid_tx m \<Longrightarrow> emits (encode_tx m) (wire_tx m)"
  by (cases m;
      simp only: encode_tx.simps wire_tx.simps valid_tx.simps
        enc_tx_select_def enc_tx_select_ok_def enc_tx_commit_def enc_tx_commit_ok_def
        enc_tx_rollback_def enc_tx_rollback_ok_def;
      intro emit_intros; simp)

lemma parses_tx:
  assumes "enough_memory mem" and "valid_tx m"
  shows "\<exists>d. map_of (decoders_tx mem) (id_tx m) = Some d \<and> parses d (wire_tx m) m"
  using assms
  by (cases m;
      simp add: decoders_tx_def tx_ids;
      unfold wire_tx.simps
        dec_tx_select_def dec_tx_select_ok_def dec_tx_commit_def dec_tx_commit_ok_def
        dec_tx_rollback_def dec_tx_rollback_ok_def;
      intro parse_intros; simp)

lemma safe_tx:
  assumes "\<And>n. pool_ok mem n" and "map_of (decoders_tx mem) i = Some d"
  shows "reads_safely d"
proof -
  have "(i, d) \<in> set (decoders_tx mem)" using assms(2) by (rule map_of_SomeD)
  then show ?thesis
    unfolding decoders_tx_def list.set insert_iff prod.inject empty_iff
    by (elim disjE conjE FalseE; hypsubst;
        unfold
          dec_tx_select_def dec_tx_select_ok_def dec_tx_commit_def dec_tx_commit_ok_def
          dec_tx_rollback_def dec_tx_rollback_ok_def;
        intro safe_intros safe_pool safe_decode_table assms(1))
qed

section \<open>Class dtx\<close>

definition AMQP_DTX_SELECT_METHOD :: u32 where "AMQP_DTX_SELECT_METHOD = 0x0064000A"
definition AMQP_DTX_SELECT_OK_METHOD :: u32 where "AMQP_DTX_SELECT_OK_METHOD = 0x0064000B"
definition AMQP_DTX_START_METHOD :: u32 where "AMQP_DTX_START_METHOD = 0x00640014"
definition AMQP_DTX_START_OK_METHOD :: u32 where "AMQP_DTX_START_OK_METHOD = 0x00640015"

lemmas dtx_ids =
  AMQP_DTX_SELECT_METHOD_def AMQP_DTX_SELECT_OK_METHOD_def AMQP_DTX_START_METHOD_def
  AMQP_DTX_START_OK_METHOD_def

datatype dtx_method =
    AMQP_Dtx_Select
  | AMQP_Dtx_Select_Ok
  | AMQP_Dtx_Start "byte list"
  | AMQP_Dtx_Start_Ok

definition dec_dtx_select :: "memory \<Rightarrow> dtx_method dec" where
  "dec_dtx_select mem =
     dbind (pool_alloc mem 4) (\<lambda>_.
     dret AMQP_Dtx_Select)"

definition enc_dtx_select :: "enc" where
  "enc_dtx_select =
     enc_all []"

definition dec_dtx_select_ok :: "memory \<Rightarrow> dtx_method dec" where
  "dec_dtx_select_ok mem =
     dbind (pool_alloc mem 4) (\<lambda>_.
     dret AMQP_Dtx_Select_Ok)"

definition enc_dtx_select_ok :: "enc" where
  "enc_dtx_select_ok =
     enc_all []"

definition dec_dtx_start :: "memory \<Rightarrow> dtx_method dec" where
  "dec_dtx_start mem =
     dbind (pool_alloc mem 16) (\<lambda>_.
     dbind get_shortstr (\<lambda>dtx_identifier.
     dret (AMQP_Dtx_Start dtx_identifier)))"

definition enc_dtx_start :: "byte list \<Rightarrow> enc" where
  "enc_dtx_start dtx_identifier =
     enc_all [put_shortstr dtx_identifier]"

definition dec_dtx_start_ok :: "memory \<Rightarrow> dtx_method dec" where
  "dec_dtx_start_ok mem =
     dbind (pool_alloc mem 4) (\<lambda>_.
     dret AMQP_Dtx_Start_Ok)"

definition enc_dtx_start_ok :: "enc" where
  "enc_dtx_start_ok =
     enc_all []"

text \<open>The \<open>switch\<close> of \<open>amqp_encode_method\<close> over this class.\<close>

fun encode_dtx :: "dtx_method \<Rightarrow> enc" where
  "encode_dtx AMQP_Dtx_Select = enc_dtx_select"
| "encode_dtx AMQP_Dtx_Select_Ok = enc_dtx_select_ok"
| "encode_dtx (AMQP_Dtx_Start dtx_identifier) = enc_dtx_start dtx_identifier"
| "encode_dtx AMQP_Dtx_Start_Ok = enc_dtx_start_ok"

fun id_dtx :: "dtx_method \<Rightarrow> u32" where
  "id_dtx AMQP_Dtx_Select = AMQP_DTX_SELECT_METHOD"
| "id_dtx AMQP_Dtx_Select_Ok = AMQP_DTX_SELECT_OK_METHOD"
| "id_dtx (AMQP_Dtx_Start _) = AMQP_DTX_START_METHOD"
| "id_dtx AMQP_Dtx_Start_Ok = AMQP_DTX_START_OK_METHOD"

text \<open>The \<open>switch\<close> of \<open>amqp_decode_method\<close> over this class.\<close>

definition decoders_dtx :: "memory \<Rightarrow> (u32 \<times> dtx_method dec) list" where
  "decoders_dtx mem =
     [(AMQP_DTX_SELECT_METHOD, dec_dtx_select mem),
      (AMQP_DTX_SELECT_OK_METHOD, dec_dtx_select_ok mem),
      (AMQP_DTX_START_METHOD, dec_dtx_start mem),
      (AMQP_DTX_START_OK_METHOD, dec_dtx_start_ok mem)]"

text \<open>The fields fit their length prefixes.\<close>

fun valid_dtx :: "dtx_method \<Rightarrow> bool" where
  "valid_dtx AMQP_Dtx_Select = True"
| "valid_dtx AMQP_Dtx_Select_Ok = True"
| "valid_dtx (AMQP_Dtx_Start dtx_identifier) = (shortstr dtx_identifier)"
| "valid_dtx AMQP_Dtx_Start_Ok = True"

fun wire_dtx :: "dtx_method \<Rightarrow> byte list" where
  "wire_dtx AMQP_Dtx_Select = concat []"
| "wire_dtx AMQP_Dtx_Select_Ok = concat []"
| "wire_dtx (AMQP_Dtx_Start dtx_identifier) = concat [wire_shortstr dtx_identifier]"
| "wire_dtx AMQP_Dtx_Start_Ok = concat []"

declare wire_dtx.simps [simp del]

lemma emits_dtx: "valid_dtx m \<Longrightarrow> emits (encode_dtx m) (wire_dtx m)"
  by (cases m;
      simp only: encode_dtx.simps wire_dtx.simps valid_dtx.simps
        enc_dtx_select_def enc_dtx_select_ok_def enc_dtx_start_def enc_dtx_start_ok_def;
      intro emit_intros; simp)

lemma parses_dtx:
  assumes "enough_memory mem" and "valid_dtx m"
  shows "\<exists>d. map_of (decoders_dtx mem) (id_dtx m) = Some d \<and> parses d (wire_dtx m) m"
  using assms
  by (cases m;
      simp add: decoders_dtx_def dtx_ids;
      unfold wire_dtx.simps
        dec_dtx_select_def dec_dtx_select_ok_def dec_dtx_start_def dec_dtx_start_ok_def;
      intro parse_intros; simp)

lemma safe_dtx:
  assumes "\<And>n. pool_ok mem n" and "map_of (decoders_dtx mem) i = Some d"
  shows "reads_safely d"
proof -
  have "(i, d) \<in> set (decoders_dtx mem)" using assms(2) by (rule map_of_SomeD)
  then show ?thesis
    unfolding decoders_dtx_def list.set insert_iff prod.inject empty_iff
    by (elim disjE conjE FalseE; hypsubst;
        unfold
          dec_dtx_select_def dec_dtx_select_ok_def dec_dtx_start_def dec_dtx_start_ok_def;
        intro safe_intros safe_pool safe_decode_table assms(1))
qed

section \<open>Class tunnel\<close>

definition AMQP_TUNNEL_REQUEST_METHOD :: u32 where "AMQP_TUNNEL_REQUEST_METHOD = 0x006E000A"

lemmas tunnel_ids =
  AMQP_TUNNEL_REQUEST_METHOD_def

datatype tunnel_method =
    AMQP_Tunnel_Request table

definition dec_tunnel_request :: "memory \<Rightarrow> tunnel_method dec" where
  "dec_tunnel_request mem =
     dbind (pool_alloc mem 16) (\<lambda>_.
     dbind (amqp_decode_table mem) (\<lambda>meta_data.
     dret (AMQP_Tunnel_Request meta_data)))"

definition enc_tunnel_request :: "table \<Rightarrow> enc" where
  "enc_tunnel_request meta_data =
     enc_all [amqp_encode_table meta_data]"

text \<open>The \<open>switch\<close> of \<open>amqp_encode_method\<close> over this class.\<close>

fun encode_tunnel :: "tunnel_method \<Rightarrow> enc" where
  "encode_tunnel (AMQP_Tunnel_Request meta_data) = enc_tunnel_request meta_data"

fun id_tunnel :: "tunnel_method \<Rightarrow> u32" where
  "id_tunnel (AMQP_Tunnel_Request _) = AMQP_TUNNEL_REQUEST_METHOD"

text \<open>The \<open>switch\<close> of \<open>amqp_decode_method\<close> over this class.\<close>

definition decoders_tunnel :: "memory \<Rightarrow> (u32 \<times> tunnel_method dec) list" where
  "decoders_tunnel mem =
     [(AMQP_TUNNEL_REQUEST_METHOD, dec_tunnel_request mem)]"

text \<open>The fields fit their length prefixes.\<close>

fun valid_tunnel :: "tunnel_method \<Rightarrow> bool" where
  "valid_tunnel (AMQP_Tunnel_Request meta_data) = (valid_entries meta_data)"

fun wire_tunnel :: "tunnel_method \<Rightarrow> byte list" where
  "wire_tunnel (AMQP_Tunnel_Request meta_data) = concat [wire_table meta_data]"

declare wire_tunnel.simps [simp del]

lemma emits_tunnel: "valid_tunnel m \<Longrightarrow> emits (encode_tunnel m) (wire_tunnel m)"
  by (cases m;
      simp only: encode_tunnel.simps wire_tunnel.simps valid_tunnel.simps
        enc_tunnel_request_def;
      intro emit_intros; simp)

lemma parses_tunnel:
  assumes "enough_memory mem" and "valid_tunnel m"
  shows "\<exists>d. map_of (decoders_tunnel mem) (id_tunnel m) = Some d \<and> parses d (wire_tunnel m) m"
  using assms
  by (cases m;
      simp add: decoders_tunnel_def tunnel_ids;
      unfold wire_tunnel.simps
        dec_tunnel_request_def;
      intro parse_intros; simp)

lemma safe_tunnel:
  assumes "\<And>n. pool_ok mem n" and "map_of (decoders_tunnel mem) i = Some d"
  shows "reads_safely d"
proof -
  have "(i, d) \<in> set (decoders_tunnel mem)" using assms(2) by (rule map_of_SomeD)
  then show ?thesis
    unfolding decoders_tunnel_def list.set insert_iff prod.inject empty_iff
    by (elim disjE conjE FalseE; hypsubst;
        unfold
          dec_tunnel_request_def;
        intro safe_intros safe_pool safe_decode_table assms(1))
qed

section \<open>Class test\<close>

definition AMQP_TEST_INTEGER_METHOD :: u32 where "AMQP_TEST_INTEGER_METHOD = 0x0078000A"
definition AMQP_TEST_INTEGER_OK_METHOD :: u32 where "AMQP_TEST_INTEGER_OK_METHOD = 0x0078000B"
definition AMQP_TEST_STRING_METHOD :: u32 where "AMQP_TEST_STRING_METHOD = 0x00780014"
definition AMQP_TEST_STRING_OK_METHOD :: u32 where "AMQP_TEST_STRING_OK_METHOD = 0x00780015"
definition AMQP_TEST_TABLE_METHOD :: u32 where "AMQP_TEST_TABLE_METHOD = 0x0078001E"
definition AMQP_TEST_TABLE_OK_METHOD :: u32 where "AMQP_TEST_TABLE_OK_METHOD = 0x0078001F"
definition AMQP_TEST_CONTENT_METHOD :: u32 where "AMQP_TEST_CONTENT_METHOD = 0x00780028"
definition AMQP_TEST_CONTENT_OK_METHOD :: u32 where "AMQP_TEST_CONTENT_OK_METHOD = 0x00780029"

lemmas test_ids =
  AMQP_TEST_INTEGER_METHOD_def AMQP_TEST_INTEGER_OK_METHOD_def AMQP_TEST_STRING_METHOD_def
  AMQP_TEST_STRING_OK_METHOD_def AMQP_TEST_TABLE_METHOD_def AMQP_TEST_TABLE_OK_METHOD_def
  AMQP_TEST_CONTENT_METHOD_def AMQP_TEST_CONTENT_OK_METHOD_def

datatype test_method =
    AMQP_Test_Integer byte u16 u32 u64 byte
  | AMQP_Test_Integer_Ok u64
  | AMQP_Test_String "byte list" "byte list" byte
  | AMQP_Test_String_Ok "byte list"
  | AMQP_Test_Table table byte byte
  | AMQP_Test_Table_Ok u64 "byte list"
  | AMQP_Test_Content
  | AMQP_Test_Content_Ok u32

definition dec_test_integer :: "memory \<Rightarrow> test_method dec" where
  "dec_test_integer mem =
     dbind (pool_alloc mem 24) (\<lambda>_.
     dbind get_8 (\<lambda>integer_1.
     dbind get_16 (\<lambda>integer_2.
     dbind get_32 (\<lambda>integer_3.
     dbind get_64 (\<lambda>integer_4.
     dbind get_8 (\<lambda>operation.
     dret (AMQP_Test_Integer integer_1 integer_2 integer_3 integer_4 operation)))))))"

definition enc_test_integer :: "byte \<Rightarrow> u16 \<Rightarrow> u32 \<Rightarrow> u64 \<Rightarrow> byte \<Rightarrow> enc" where
  "enc_test_integer integer_1 integer_2 integer_3 integer_4 operation =
     enc_all [put_8 integer_1, put_16 integer_2, put_32 integer_3, put_64 integer_4,
       put_8 operation]"

definition dec_test_integer_ok :: "memory \<Rightarrow> test_method dec" where
  "dec_test_integer_ok mem =
     dbind (pool_alloc mem 8) (\<lambda>_.
     dbind get_64 (\<lambda>result.
     dret (AMQP_Test_Integer_Ok result)))"

definition enc_test_integer_ok :: "u64 \<Rightarrow> enc" where
  "enc_test_integer_ok result =
     enc_all [put_64 result]"

definition dec_test_string :: "memory \<Rightarrow> test_method dec" where
  "dec_test_string mem =
     dbind (pool_alloc mem 40) (\<lambda>_.
     dbind get_shortstr (\<lambda>string_1.
     dbind get_longstr (\<lambda>string_2.
     dbind get_8 (\<lambda>operation.
     dret (AMQP_Test_String string_1 string_2 operation)))))"

definition enc_test_string :: "byte list \<Rightarrow> byte list \<Rightarrow> byte \<Rightarrow> enc" where
  "enc_test_string string_1 string_2 operation =
     enc_all [put_shortstr string_1, put_longstr string_2, put_8 operation]"

definition dec_test_string_ok :: "memory \<Rightarrow> test_method dec" where
  "dec_test_string_ok mem =
     dbind (pool_alloc mem 16) (\<lambda>_.
     dbind get_longstr (\<lambda>result.
     dret (AMQP_Test_String_Ok result)))"

definition enc_test_string_ok :: "byte list \<Rightarrow> enc" where
  "enc_test_string_ok result =
     enc_all [put_longstr result]"

definition dec_test_table :: "memory \<Rightarrow> test_method dec" where
  "dec_test_table mem =
     dbind (pool_alloc mem 24) (\<lambda>_.
     dbind (amqp_decode_table mem) (\<lambda>table_arg.
     dbind get_8 (\<lambda>integer_op.
     dbind get_8 (\<lambda>string_op.
     dret (AMQP_Test_Table table_arg integer_op string_op)))))"

definition enc_test_table :: "table \<Rightarrow> byte \<Rightarrow> byte \<Rightarrow> enc" where
  "enc_test_table table_arg integer_op string_op =
     enc_all [amqp_encode_table table_arg, put_8 integer_op, put_8 string_op]"

definition dec_test_table_ok :: "memory \<Rightarrow> test_method dec" where
  "dec_test_table_ok mem =
     dbind (pool_alloc mem 24) (\<lambda>_.
     dbind get_64 (\<lambda>integer_result.
     dbind get_longstr (\<lambda>string_result.
     dret (AMQP_Test_Table_Ok integer_result string_result))))"

definition enc_test_table_ok :: "u64 \<Rightarrow> byte list \<Rightarrow> enc" where
  "enc_test_table_ok integer_result string_result =
     enc_all [put_64 integer_result, put_longstr string_result]"

definition dec_test_content :: "memory \<Rightarrow> test_method dec" where
  "dec_test_content mem =
     dbind (pool_alloc mem 4) (\<lambda>_.
     dret AMQP_Test_Content)"

definition enc_test_content :: "enc" where
  "enc_test_content =
     enc_all []"

definition dec_test_content_ok :: "memory \<Rightarrow> test_method dec" where
  "dec_test_content_ok mem =
     dbind (pool_alloc mem 4) (\<lambda>_.
     dbind get_32 (\<lambda>content_checksum.
     dret (AMQP_Test_Content_Ok content_checksum)))"

definition enc_test_content_ok :: "u32 \<Rightarrow> enc" where
  "enc_test_content_ok content_checksum =
     enc_all [put_32 content_checksum]"

text \<open>The \<open>switch\<close> of \<open>amqp_encode_method\<close> over this class.\<close>

fun encode_test :: "test_method \<Rightarrow> enc" where
  "encode_test (AMQP_Test_Integer integer_1 integer_2 integer_3 integer_4 operation) =
     enc_test_integer integer_1 integer_2 integer_3 integer_4 operation"
| "encode_test (AMQP_Test_Integer_Ok result) = enc_test_integer_ok result"
| "encode_test (AMQP_Test_String string_1 string_2 operation) =
     enc_test_string string_1 string_2 operation"
| "encode_test (AMQP_Test_String_Ok result) = enc_test_string_ok result"
| "encode_test (AMQP_Test_Table table_arg integer_op string_op) =
     enc_test_table table_arg integer_op string_op"
| "encode_test (AMQP_Test_Table_Ok integer_result string_result) =
     enc_test_table_ok integer_result string_result"
| "encode_test AMQP_Test_Content = enc_test_content"
| "encode_test (AMQP_Test_Content_Ok content_checksum) = enc_test_content_ok content_checksum"

fun id_test :: "test_method \<Rightarrow> u32" where
  "id_test (AMQP_Test_Integer _ _ _ _ _) = AMQP_TEST_INTEGER_METHOD"
| "id_test (AMQP_Test_Integer_Ok _) = AMQP_TEST_INTEGER_OK_METHOD"
| "id_test (AMQP_Test_String _ _ _) = AMQP_TEST_STRING_METHOD"
| "id_test (AMQP_Test_String_Ok _) = AMQP_TEST_STRING_OK_METHOD"
| "id_test (AMQP_Test_Table _ _ _) = AMQP_TEST_TABLE_METHOD"
| "id_test (AMQP_Test_Table_Ok _ _) = AMQP_TEST_TABLE_OK_METHOD"
| "id_test AMQP_Test_Content = AMQP_TEST_CONTENT_METHOD"
| "id_test (AMQP_Test_Content_Ok _) = AMQP_TEST_CONTENT_OK_METHOD"

text \<open>The \<open>switch\<close> of \<open>amqp_decode_method\<close> over this class.\<close>

definition decoders_test :: "memory \<Rightarrow> (u32 \<times> test_method dec) list" where
  "decoders_test mem =
     [(AMQP_TEST_INTEGER_METHOD, dec_test_integer mem),
      (AMQP_TEST_INTEGER_OK_METHOD, dec_test_integer_ok mem),
      (AMQP_TEST_STRING_METHOD, dec_test_string mem),
      (AMQP_TEST_STRING_OK_METHOD, dec_test_string_ok mem),
      (AMQP_TEST_TABLE_METHOD, dec_test_table mem),
      (AMQP_TEST_TABLE_OK_METHOD, dec_test_table_ok mem),
      (AMQP_TEST_CONTENT_METHOD, dec_test_content mem),
      (AMQP_TEST_CONTENT_OK_METHOD, dec_test_content_ok mem)]"

text \<open>The fields fit their length prefixes.\<close>

fun valid_test :: "test_method \<Rightarrow> bool" where
  "valid_test (AMQP_Test_Integer _ _ _ _ _) = True"
| "valid_test (AMQP_Test_Integer_Ok _) = True"
| "valid_test (AMQP_Test_String string_1 string_2 _) =
     (shortstr string_1 \<and> longstr string_2)"
| "valid_test (AMQP_Test_String_Ok result) = (longstr result)"
| "valid_test (AMQP_Test_Table table_arg _ _) = (valid_entries table_arg)"
| "valid_test (AMQP_Test_Table_Ok _ string_result) = (longstr string_result)"
| "valid_test AMQP_Test_Content = True"
| "valid_test (AMQP_Test_Content_Ok _) = True"

fun wire_test :: "test_method \<Rightarrow> byte list" where
  "wire_test (AMQP_Test_Integer integer_1 integer_2 integer_3 integer_4 operation) =
     concat
     [wire_8 integer_1, wire_16 integer_2, wire_32 integer_3, wire_64 integer_4, wire_8 operation]"
| "wire_test (AMQP_Test_Integer_Ok result) = concat [wire_64 result]"
| "wire_test (AMQP_Test_String string_1 string_2 operation) =
     concat [wire_shortstr string_1, wire_longstr string_2, wire_8 operation]"
| "wire_test (AMQP_Test_String_Ok result) = concat [wire_longstr result]"
| "wire_test (AMQP_Test_Table table_arg integer_op string_op) =
     concat [wire_table table_arg, wire_8 integer_op, wire_8 string_op]"
| "wire_test (AMQP_Test_Table_Ok integer_result string_result) =
     concat [wire_64 integer_result, wire_longstr string_result]"
| "wire_test AMQP_Test_Content = concat []"
| "wire_test (AMQP_Test_Content_Ok content_checksum) = concat [wire_32 content_checksum]"

declare wire_test.simps [simp del]

lemma emits_test: "valid_test m \<Longrightarrow> emits (encode_test m) (wire_test m)"
  by (cases m;
      simp only: encode_test.simps wire_test.simps valid_test.simps
        enc_test_integer_def enc_test_integer_ok_def enc_test_string_def
        enc_test_string_ok_def enc_test_table_def enc_test_table_ok_def
        enc_test_content_def enc_test_content_ok_def;
      intro emit_intros; simp)

lemma parses_test:
  assumes "enough_memory mem" and "valid_test m"
  shows "\<exists>d. map_of (decoders_test mem) (id_test m) = Some d \<and> parses d (wire_test m) m"
  using assms
  by (cases m;
      simp add: decoders_test_def test_ids;
      unfold wire_test.simps
        dec_test_integer_def dec_test_integer_ok_def dec_test_string_def
        dec_test_string_ok_def dec_test_table_def dec_test_table_ok_def
        dec_test_content_def dec_test_content_ok_def;
      intro parse_intros; simp)

lemma safe_test:
  assumes "\<And>n. pool_ok mem n" and "map_of (decoders_test mem) i = Some d"
  shows "reads_safely d"
proof -
  have "(i, d) \<in> set (decoders_test mem)" using assms(2) by (rule map_of_SomeD)
  then show ?thesis
    unfolding decoders_test_def list.set insert_iff prod.inject empty_iff
    by (elim disjE conjE FalseE; hypsubst;
        unfold
          dec_test_integer_def dec_test_integer_ok_def dec_test_string_def
          dec_test_string_ok_def dec_test_table_def dec_test_table_ok_def
          dec_test_content_def dec_test_content_ok_def;
        intro safe_intros safe_pool safe_decode_table assms(1))
qed

end
