(* ===== verification/Framing_Properties.thy ===== *)
theory Framing_Properties
  imports Codec
begin

text \<open>
  Content properties, \<open>amqp_decode_properties\<close> and \<open>amqp_encode_properties\<close> of
  \<open>src/src/librabbitmq/amqp_framing.c\<close>: the flag words, then for each class the fields whose flag
  is set.  The bit numbers are those of the \<open>AMQP_.._FLAG\<close> macros of \<open>amqp_framing.h\<close>.
\<close>

section \<open>Property structs\<close>

datatype amqp_properties =
    AMQP_Connection_Properties u32
  | AMQP_Channel_Properties u32
  | AMQP_Access_Properties u32
  | AMQP_Exchange_Properties u32
  | AMQP_Queue_Properties u32
  | AMQP_Basic_Properties u32 "byte list" "byte list" table byte byte "byte list"
      "byte list" "byte list" "byte list" u64 "byte list" "byte list" "byte list"
      "byte list"
  | AMQP_File_Properties u32 "byte list" "byte list" table byte "byte list" "byte list"
      "byte list" u64 "byte list"
  | AMQP_Stream_Properties u32 "byte list" "byte list" table byte u64
  | AMQP_Tx_Properties u32
  | AMQP_Dtx_Properties u32
  | AMQP_Tunnel_Properties u32 table "byte list" "byte list" byte byte
  | AMQP_Test_Properties u32

section \<open>Decoders and encoders\<close>

definition dec_connection_properties :: "memory \<Rightarrow> u32 \<Rightarrow> amqp_properties dec" where
  "dec_connection_properties mem flags =
     dbind (pool_alloc mem 4) (\<lambda>_.
     dret (AMQP_Connection_Properties flags))"

definition dec_channel_properties :: "memory \<Rightarrow> u32 \<Rightarrow> amqp_properties dec" where
  "dec_channel_properties mem flags =
     dbind (pool_alloc mem 4) (\<lambda>_.
     dret (AMQP_Channel_Properties flags))"

definition dec_access_properties :: "memory \<Rightarrow> u32 \<Rightarrow> amqp_properties dec" where
  "dec_access_properties mem flags =
     dbind (pool_alloc mem 4) (\<lambda>_.
     dret (AMQP_Access_Properties flags))"

definition dec_exchange_properties :: "memory \<Rightarrow> u32 \<Rightarrow> amqp_properties dec" where
  "dec_exchange_properties mem flags =
     dbind (pool_alloc mem 4) (\<lambda>_.
     dret (AMQP_Exchange_Properties flags))"

definition dec_queue_properties :: "memory \<Rightarrow> u32 \<Rightarrow> amqp_properties dec" where
  "dec_queue_properties mem flags =
     dbind (pool_alloc mem 4) (\<lambda>_.
     dret (AMQP_Queue_Properties flags))"

definition dec_basic_properties :: "memory \<Rightarrow> u32 \<Rightarrow> amqp_properties dec" where
  "dec_basic_properties mem flags =
     dbind (pool_alloc mem 200) (\<lambda>_.
     dbind (get_if flags 15 get_shortstr []) (\<lambda>content_type.
     dbind (get_if flags 14 get_shortstr []) (\<lambda>content_encoding.
     dbind (get_if flags 13 (amqp_decode_table mem) []) (\<lambda>headers.
     dbind (get_if flags 12 get_8 0) (\<lambda>delivery_mode.
     dbind (get_if flags 11 get_8 0) (\<lambda>priority.
     dbind (get_if flags 10 get_shortstr []) (\<lambda>correlation_id.
     dbind (get_if flags 9 get_shortstr []) (\<lambda>reply_to.
     dbind (get_if flags 8 get_shortstr []) (\<lambda>expiration.
     dbind (get_if flags 7 get_shortstr []) (\<lambda>message_id.
     dbind (get_if flags 6 get_64 0) (\<lambda>timestamp.
     dbind (get_if flags 5 get_shortstr []) (\<lambda>type_name.
     dbind (get_if flags 4 get_shortstr []) (\<lambda>user_id.
     dbind (get_if flags 3 get_shortstr []) (\<lambda>app_id.
     dbind (get_if flags 2 get_shortstr []) (\<lambda>cluster_id.
     dret (AMQP_Basic_Properties flags content_type content_encoding headers delivery_mode
        priority correlation_id reply_to expiration message_id timestamp type_name user_id
        app_id cluster_id))))))))))))))))"

definition enc_basic_properties ::
  "u32 \<Rightarrow> byte list \<Rightarrow> byte list \<Rightarrow> table \<Rightarrow>
     byte \<Rightarrow> byte \<Rightarrow> byte list \<Rightarrow> byte list \<Rightarrow>
     byte list \<Rightarrow> byte list \<Rightarrow> u64 \<Rightarrow>
     byte list \<Rightarrow> byte list \<Rightarrow> byte list \<Rightarrow>
     byte list \<Rightarrow> enc" where
  "enc_basic_properties flags content_type content_encoding headers delivery_mode
     priority correlation_id reply_to expiration message_id timestamp type_name user_id
     app_id cluster_id =
     enc_all
       [put_if flags 15 (put_shortstr content_type),
        put_if flags 14 (put_shortstr content_encoding),
        put_if flags 13 (amqp_encode_table headers),
        put_if flags 12 (put_8 delivery_mode),
        put_if flags 11 (put_8 priority),
        put_if flags 10 (put_shortstr correlation_id),
        put_if flags 9 (put_shortstr reply_to),
        put_if flags 8 (put_shortstr expiration),
        put_if flags 7 (put_shortstr message_id),
        put_if flags 6 (put_64 timestamp),
        put_if flags 5 (put_shortstr type_name),
        put_if flags 4 (put_shortstr user_id),
        put_if flags 3 (put_shortstr app_id),
        put_if flags 2 (put_shortstr cluster_id)]"

definition dec_file_properties :: "memory \<Rightarrow> u32 \<Rightarrow> amqp_properties dec" where
  "dec_file_properties mem flags =
     dbind (pool_alloc mem 136) (\<lambda>_.
     dbind (get_if flags 15 get_shortstr []) (\<lambda>content_type.
     dbind (get_if flags 14 get_shortstr []) (\<lambda>content_encoding.
     dbind (get_if flags 13 (amqp_decode_table mem) []) (\<lambda>headers.
     dbind (get_if flags 12 get_8 0) (\<lambda>priority.
     dbind (get_if flags 11 get_shortstr []) (\<lambda>reply_to.
     dbind (get_if flags 10 get_shortstr []) (\<lambda>message_id.
     dbind (get_if flags 9 get_shortstr []) (\<lambda>filename.
     dbind (get_if flags 8 get_64 0) (\<lambda>timestamp.
     dbind (get_if flags 7 get_shortstr []) (\<lambda>cluster_id.
     dret (AMQP_File_Properties flags content_type content_encoding headers priority reply_to
        message_id filename timestamp cluster_id)))))))))))"

definition enc_file_properties ::
  "u32 \<Rightarrow> byte list \<Rightarrow> byte list \<Rightarrow> table \<Rightarrow>
     byte \<Rightarrow> byte list \<Rightarrow> byte list \<Rightarrow>
     byte list \<Rightarrow> u64 \<Rightarrow> byte list \<Rightarrow> enc" where
  "enc_file_properties flags content_type content_encoding headers priority reply_to
     message_id filename timestamp cluster_id =
     enc_all
       [put_if flags 15 (put_shortstr content_type),
        put_if flags 14 (put_shortstr content_encoding),
        put_if flags 13 (amqp_encode_table headers),
        put_if flags 12 (put_8 priority),
        put_if flags 11 (put_shortstr reply_to),
        put_if flags 10 (put_shortstr message_id),
        put_if flags 9 (put_shortstr filename),
        put_if flags 8 (put_64 timestamp),
        put_if flags 7 (put_shortstr cluster_id)]"

definition dec_stream_properties :: "memory \<Rightarrow> u32 \<Rightarrow> amqp_properties dec" where
  "dec_stream_properties mem flags =
     dbind (pool_alloc mem 72) (\<lambda>_.
     dbind (get_if flags 15 get_shortstr []) (\<lambda>content_type.
     dbind (get_if flags 14 get_shortstr []) (\<lambda>content_encoding.
     dbind (get_if flags 13 (amqp_decode_table mem) []) (\<lambda>headers.
     dbind (get_if flags 12 get_8 0) (\<lambda>priority.
     dbind (get_if flags 11 get_64 0) (\<lambda>timestamp.
     dret (AMQP_Stream_Properties flags content_type content_encoding headers priority
        timestamp)))))))"

definition enc_stream_properties ::
  "u32 \<Rightarrow> byte list \<Rightarrow> byte list \<Rightarrow> table \<Rightarrow>
     byte \<Rightarrow> u64 \<Rightarrow> enc" where
  "enc_stream_properties flags content_type content_encoding headers priority timestamp =
     enc_all
       [put_if flags 15 (put_shortstr content_type),
        put_if flags 14 (put_shortstr content_encoding),
        put_if flags 13 (amqp_encode_table headers),
        put_if flags 12 (put_8 priority),
        put_if flags 11 (put_64 timestamp)]"

definition dec_tx_properties :: "memory \<Rightarrow> u32 \<Rightarrow> amqp_properties dec" where
  "dec_tx_properties mem flags =
     dbind (pool_alloc mem 4) (\<lambda>_.
     dret (AMQP_Tx_Properties flags))"

definition dec_dtx_properties :: "memory \<Rightarrow> u32 \<Rightarrow> amqp_properties dec" where
  "dec_dtx_properties mem flags =
     dbind (pool_alloc mem 4) (\<lambda>_.
     dret (AMQP_Dtx_Properties flags))"

definition dec_tunnel_properties :: "memory \<Rightarrow> u32 \<Rightarrow> amqp_properties dec" where
  "dec_tunnel_properties mem flags =
     dbind (pool_alloc mem 64) (\<lambda>_.
     dbind (get_if flags 15 (amqp_decode_table mem) []) (\<lambda>headers.
     dbind (get_if flags 14 get_shortstr []) (\<lambda>proxy_name.
     dbind (get_if flags 13 get_shortstr []) (\<lambda>data_name.
     dbind (get_if flags 12 get_8 0) (\<lambda>durable.
     dbind (get_if flags 11 get_8 0) (\<lambda>broadcast.
     dret (AMQP_Tunnel_Properties flags headers proxy_name data_name durable broadcast)))))))"

definition enc_tunnel_properties ::
  "u32 \<Rightarrow> table \<Rightarrow> byte list \<Rightarrow> byte list \<Rightarrow>
     byte \<Rightarrow> byte \<Rightarrow> enc" where
  "enc_tunnel_properties flags headers proxy_name data_name durable broadcast =
     enc_all
       [put_if flags 15 (amqp_encode_table headers),
        put_if flags 14 (put_shortstr proxy_name),
        put_if flags 13 (put_shortstr data_name),
        put_if flags 12 (put_8 durable),
        put_if flags 11 (put_8 broadcast)]"

definition dec_test_properties :: "memory \<Rightarrow> u32 \<Rightarrow> amqp_properties dec" where
  "dec_test_properties mem flags =
     dbind (pool_alloc mem 4) (\<lambda>_.
     dret (AMQP_Test_Properties flags))"

text \<open>The \<open>switch\<close> on the class, and the case of each class when writing.\<close>

definition properties_decoders :: "memory \<Rightarrow> (u16 \<times> (u32 \<Rightarrow> amqp_properties dec)) list" where
  "properties_decoders mem =
     [(10, dec_connection_properties mem),
      (20, dec_channel_properties mem),
      (30, dec_access_properties mem),
      (40, dec_exchange_properties mem),
      (50, dec_queue_properties mem),
      (60, dec_basic_properties mem),
      (70, dec_file_properties mem),
      (80, dec_stream_properties mem),
      (90, dec_tx_properties mem),
      (100, dec_dtx_properties mem),
      (110, dec_tunnel_properties mem),
      (120, dec_test_properties mem)]"

fun fields_of_properties :: "amqp_properties \<Rightarrow> enc" where
  "fields_of_properties (AMQP_Connection_Properties _) =
     enc_all []"
| "fields_of_properties (AMQP_Channel_Properties _) =
     enc_all []"
| "fields_of_properties (AMQP_Access_Properties _) =
     enc_all []"
| "fields_of_properties (AMQP_Exchange_Properties _) =
     enc_all []"
| "fields_of_properties (AMQP_Queue_Properties _) =
     enc_all []"
| "fields_of_properties (AMQP_Basic_Properties flags content_type content_encoding headers delivery_mode
       priority correlation_id reply_to expiration message_id timestamp type_name user_id
       app_id cluster_id) =
     enc_basic_properties flags content_type content_encoding headers delivery_mode
       priority correlation_id reply_to expiration message_id timestamp type_name user_id
       app_id cluster_id"
| "fields_of_properties (AMQP_File_Properties flags content_type content_encoding headers priority reply_to
       message_id filename timestamp cluster_id) =
     enc_file_properties flags content_type content_encoding headers priority reply_to
       message_id filename timestamp cluster_id"
| "fields_of_properties (AMQP_Stream_Properties flags content_type content_encoding headers priority
       timestamp) =
     enc_stream_properties flags content_type content_encoding headers priority timestamp"
| "fields_of_properties (AMQP_Tx_Properties _) =
     enc_all []"
| "fields_of_properties (AMQP_Dtx_Properties _) =
     enc_all []"
| "fields_of_properties
    (AMQP_Tunnel_Properties flags headers proxy_name data_name durable broadcast) =
     enc_tunnel_properties flags headers proxy_name data_name durable broadcast"
| "fields_of_properties (AMQP_Test_Properties _) =
     enc_all []"

fun properties_flags :: "amqp_properties \<Rightarrow> u32" where
  "properties_flags (AMQP_Connection_Properties flags) =
     flags"
| "properties_flags (AMQP_Channel_Properties flags) =
     flags"
| "properties_flags (AMQP_Access_Properties flags) =
     flags"
| "properties_flags (AMQP_Exchange_Properties flags) =
     flags"
| "properties_flags (AMQP_Queue_Properties flags) =
     flags"
| "properties_flags (AMQP_Basic_Properties flags _ _ _ _ _ _ _ _ _ _ _ _ _ _) =
     flags"
| "properties_flags (AMQP_File_Properties flags _ _ _ _ _ _ _ _ _) =
     flags"
| "properties_flags (AMQP_Stream_Properties flags _ _ _ _ _) =
     flags"
| "properties_flags (AMQP_Tx_Properties flags) =
     flags"
| "properties_flags (AMQP_Dtx_Properties flags) =
     flags"
| "properties_flags (AMQP_Tunnel_Properties flags _ _ _ _ _) =
     flags"
| "properties_flags (AMQP_Test_Properties flags) =
     flags"

fun class_of :: "amqp_properties \<Rightarrow> u16" where
  "class_of (AMQP_Connection_Properties _) =
     10"
| "class_of (AMQP_Channel_Properties _) =
     20"
| "class_of (AMQP_Access_Properties _) =
     30"
| "class_of (AMQP_Exchange_Properties _) =
     40"
| "class_of (AMQP_Queue_Properties _) =
     50"
| "class_of (AMQP_Basic_Properties _ _ _ _ _ _ _ _ _ _ _ _ _ _ _) =
     60"
| "class_of (AMQP_File_Properties _ _ _ _ _ _ _ _ _ _) =
     70"
| "class_of (AMQP_Stream_Properties _ _ _ _ _ _) =
     80"
| "class_of (AMQP_Tx_Properties _) =
     90"
| "class_of (AMQP_Dtx_Properties _) =
     100"
| "class_of (AMQP_Tunnel_Properties _ _ _ _ _ _) =
     110"
| "class_of (AMQP_Test_Properties _) =
     120"

definition decode_properties_at :: "memory \<Rightarrow> u16 \<Rightarrow> amqp_properties dec" where
  "decode_properties_at mem class_id =
     dbind (decode_flags 0 0) (\<lambda>flags.
       case map_of (properties_decoders mem) class_id of
         None \<Rightarrow> dfail ENOENT
       | Some d \<Rightarrow> d flags)"

definition amqp_decode_properties ::
  "memory \<Rightarrow> u16 \<Rightarrow> cbuf \<Rightarrow> c_error + amqp_properties" where
  "amqp_decode_properties mem class_id encoded =
     map_sum id fst (decode_properties_at mem class_id encoded 0)"

text \<open>
  The struct is passed as \<open>void *\<close>: the flags are read from its first word whatever the class, and
  a class that is not the one of the struct reads the fields of another type.
\<close>

definition amqp_encode_properties ::
  "u16 \<Rightarrow> amqp_properties \<Rightarrow> cbuf \<Rightarrow> c_error + (cbuf \<times> nat)" where
  "amqp_encode_properties class_id decoded encoded =
     enc_all
       [put_flags (properties_flags decoded),
        if class_id = class_of decoded then fields_of_properties decoded
        else if class_id \<in> {10, 20, 30, 40, 50, 60, 70, 80, 90, 100, 110, 120}
        then (\<lambda>_. Inl (Undefined Type_Confusion))
        else (\<lambda>_. Inl ENOENT)] (encoded, 0)"

section \<open>The bytes of properties\<close>

text \<open>
  Flags inside one word, fields that fit their length prefixes, and nothing in a field whose flag
  is clear.
\<close>

fun valid_properties :: "amqp_properties \<Rightarrow> bool" where
  "valid_properties (AMQP_Connection_Properties flags) =
     (valid_flags flags)"
| "valid_properties (AMQP_Channel_Properties flags) =
     (valid_flags flags)"
| "valid_properties (AMQP_Access_Properties flags) =
     (valid_flags flags)"
| "valid_properties (AMQP_Exchange_Properties flags) =
     (valid_flags flags)"
| "valid_properties (AMQP_Queue_Properties flags) =
     (valid_flags flags)"
| "valid_properties (AMQP_Basic_Properties flags content_type content_encoding headers delivery_mode
       priority correlation_id reply_to expiration message_id timestamp type_name user_id
       app_id cluster_id) =
     (valid_flags flags \<and>
      (if bit flags 15 then shortstr content_type else content_type = []) \<and>
      (if bit flags 14 then shortstr content_encoding else content_encoding = []) \<and>
      (if bit flags 13 then valid_entries headers else headers = []) \<and>
      (bit flags 12 \<or> delivery_mode = 0) \<and>
      (bit flags 11 \<or> priority = 0) \<and>
      (if bit flags 10 then shortstr correlation_id else correlation_id = []) \<and>
      (if bit flags 9 then shortstr reply_to else reply_to = []) \<and>
      (if bit flags 8 then shortstr expiration else expiration = []) \<and>
      (if bit flags 7 then shortstr message_id else message_id = []) \<and>
      (bit flags 6 \<or> timestamp = 0) \<and>
      (if bit flags 5 then shortstr type_name else type_name = []) \<and>
      (if bit flags 4 then shortstr user_id else user_id = []) \<and>
      (if bit flags 3 then shortstr app_id else app_id = []) \<and>
      (if bit flags 2 then shortstr cluster_id else cluster_id = []))"
| "valid_properties (AMQP_File_Properties flags content_type content_encoding headers priority reply_to
       message_id filename timestamp cluster_id) =
     (valid_flags flags \<and>
      (if bit flags 15 then shortstr content_type else content_type = []) \<and>
      (if bit flags 14 then shortstr content_encoding else content_encoding = []) \<and>
      (if bit flags 13 then valid_entries headers else headers = []) \<and>
      (bit flags 12 \<or> priority = 0) \<and>
      (if bit flags 11 then shortstr reply_to else reply_to = []) \<and>
      (if bit flags 10 then shortstr message_id else message_id = []) \<and>
      (if bit flags 9 then shortstr filename else filename = []) \<and>
      (bit flags 8 \<or> timestamp = 0) \<and>
      (if bit flags 7 then shortstr cluster_id else cluster_id = []))"
| "valid_properties (AMQP_Stream_Properties flags content_type content_encoding headers priority
       timestamp) =
     (valid_flags flags \<and>
      (if bit flags 15 then shortstr content_type else content_type = []) \<and>
      (if bit flags 14 then shortstr content_encoding else content_encoding = []) \<and>
      (if bit flags 13 then valid_entries headers else headers = []) \<and>
      (bit flags 12 \<or> priority = 0) \<and>
      (bit flags 11 \<or> timestamp = 0))"
| "valid_properties (AMQP_Tx_Properties flags) =
     (valid_flags flags)"
| "valid_properties (AMQP_Dtx_Properties flags) =
     (valid_flags flags)"
| "valid_properties
    (AMQP_Tunnel_Properties flags headers proxy_name data_name durable broadcast) =
     (valid_flags flags \<and>
      (if bit flags 15 then valid_entries headers else headers = []) \<and>
      (if bit flags 14 then shortstr proxy_name else proxy_name = []) \<and>
      (if bit flags 13 then shortstr data_name else data_name = []) \<and>
      (bit flags 12 \<or> durable = 0) \<and>
      (bit flags 11 \<or> broadcast = 0))"
| "valid_properties (AMQP_Test_Properties flags) =
     (valid_flags flags)"

fun wire_fields :: "amqp_properties \<Rightarrow> byte list" where
  "wire_fields (AMQP_Connection_Properties _) =
     concat []"
| "wire_fields (AMQP_Channel_Properties _) =
     concat []"
| "wire_fields (AMQP_Access_Properties _) =
     concat []"
| "wire_fields (AMQP_Exchange_Properties _) =
     concat []"
| "wire_fields (AMQP_Queue_Properties _) =
     concat []"
| "wire_fields (AMQP_Basic_Properties flags content_type content_encoding headers delivery_mode
       priority correlation_id reply_to expiration message_id timestamp type_name user_id
       app_id cluster_id) =
     concat [wire_if flags 15 (wire_shortstr content_type),
       wire_if flags 14 (wire_shortstr content_encoding),
       wire_if flags 13 (wire_table headers),
       wire_if flags 12 (wire_8 delivery_mode),
       wire_if flags 11 (wire_8 priority),
       wire_if flags 10 (wire_shortstr correlation_id),
       wire_if flags 9 (wire_shortstr reply_to),
       wire_if flags 8 (wire_shortstr expiration),
       wire_if flags 7 (wire_shortstr message_id),
       wire_if flags 6 (wire_64 timestamp),
       wire_if flags 5 (wire_shortstr type_name),
       wire_if flags 4 (wire_shortstr user_id),
       wire_if flags 3 (wire_shortstr app_id),
       wire_if flags 2 (wire_shortstr cluster_id)]"
| "wire_fields (AMQP_File_Properties flags content_type content_encoding headers priority reply_to
       message_id filename timestamp cluster_id) =
     concat [wire_if flags 15 (wire_shortstr content_type),
       wire_if flags 14 (wire_shortstr content_encoding),
       wire_if flags 13 (wire_table headers),
       wire_if flags 12 (wire_8 priority),
       wire_if flags 11 (wire_shortstr reply_to),
       wire_if flags 10 (wire_shortstr message_id),
       wire_if flags 9 (wire_shortstr filename),
       wire_if flags 8 (wire_64 timestamp),
       wire_if flags 7 (wire_shortstr cluster_id)]"
| "wire_fields (AMQP_Stream_Properties flags content_type content_encoding headers priority
       timestamp) =
     concat [wire_if flags 15 (wire_shortstr content_type),
       wire_if flags 14 (wire_shortstr content_encoding),
       wire_if flags 13 (wire_table headers),
       wire_if flags 12 (wire_8 priority),
       wire_if flags 11 (wire_64 timestamp)]"
| "wire_fields (AMQP_Tx_Properties _) =
     concat []"
| "wire_fields (AMQP_Dtx_Properties _) =
     concat []"
| "wire_fields
    (AMQP_Tunnel_Properties flags headers proxy_name data_name durable broadcast) =
     concat [wire_if flags 15 (wire_table headers),
       wire_if flags 14 (wire_shortstr proxy_name),
       wire_if flags 13 (wire_shortstr data_name),
       wire_if flags 12 (wire_8 durable),
       wire_if flags 11 (wire_8 broadcast)]"
| "wire_fields (AMQP_Test_Properties _) =
     concat []"

declare wire_fields.simps [simp del]

definition wire_properties :: "amqp_properties \<Rightarrow> byte list" where
  "wire_properties p = wire_flags (properties_flags p) @ wire_fields p"

lemma valid_properties_flags: "valid_properties p \<Longrightarrow> valid_flags (properties_flags p)"
  by (cases p) simp_all

lemma emits_property_fields: "valid_properties p \<Longrightarrow> emits (fields_of_properties p) (wire_fields p)"
  by (cases p;
      simp only: fields_of_properties.simps wire_fields.simps valid_properties.simps
        enc_basic_properties_def enc_file_properties_def enc_stream_properties_def
        enc_tunnel_properties_def;
      intro emit_intros; simp)

lemma parses_property_fields:
  assumes "enough_memory mem" and "valid_properties p"
  shows "\<exists>d. map_of (properties_decoders mem) (class_of p) = Some d \<and>
             parses (d (properties_flags p)) (wire_fields p) p"
  using assms
  by (cases p;
      simp only: valid_properties.simps; (elim conjE)?;
      simp add: properties_decoders_def split del: if_split;
      unfold wire_fields.simps
        dec_connection_properties_def dec_channel_properties_def dec_access_properties_def
        dec_exchange_properties_def dec_queue_properties_def dec_basic_properties_def
        dec_file_properties_def dec_stream_properties_def dec_tx_properties_def
        dec_dtx_properties_def dec_tunnel_properties_def dec_test_properties_def;
      intro parse_intros parses_optional; (assumption | simp)?)

lemma safe_property_fields:
  assumes "\<And>n. pool_ok mem n" and "map_of (properties_decoders mem) i = Some d"
  shows "reads_safely (d flags)"
proof -
  have "(i, d) \<in> set (properties_decoders mem)" using assms(2) by (rule map_of_SomeD)
  then show ?thesis
    unfolding properties_decoders_def list.set insert_iff prod.inject empty_iff
    by (elim disjE conjE FalseE; hypsubst;
        unfold
          dec_connection_properties_def dec_channel_properties_def
          dec_access_properties_def dec_exchange_properties_def dec_queue_properties_def
          dec_basic_properties_def dec_file_properties_def dec_stream_properties_def
          dec_tx_properties_def dec_dtx_properties_def dec_tunnel_properties_def
          dec_test_properties_def;
        intro safe_intros safe_pool safe_decode_table assms(1))
qed

end
