(* ===== verification/Framing.thy ===== *)
theory Framing
  imports Framing_Connection Framing_Queue Framing_Basic Framing_File Framing_Tx Framing_Properties
begin

text \<open>
  The four tables of \<open>src/src/librabbitmq/amqp_framing.c\<close> that are indexed by a method number:
  \<open>amqp_method_name\<close>, \<open>amqp_method_has_content\<close>, \<open>amqp_decode_method\<close> and
  \<open>amqp_encode_method\<close>, over the sum of the method classes, and the contracts of the codec:
  what the encoder writes the decoder reads back, a buffer that is too short is refused, and no
  bytes from the peer make the decoder read outside its buffer.
\<close>

section \<open>Methods of every class\<close>

datatype amqp_method =
    M_Connection connection_method
  | M_Channel channel_method
  | M_Access access_method
  | M_Exchange exchange_method
  | M_Queue queue_method
  | M_Basic basic_method
  | M_File file_method
  | M_Stream stream_method
  | M_Tx tx_method
  | M_Dtx dtx_method
  | M_Tunnel tunnel_method
  | M_Test test_method

fun id_method :: "amqp_method \<Rightarrow> u32" where
  "id_method (M_Connection m) = id_connection m"
| "id_method (M_Channel m) = id_channel m"
| "id_method (M_Access m) = id_access m"
| "id_method (M_Exchange m) = id_exchange m"
| "id_method (M_Queue m) = id_queue m"
| "id_method (M_Basic m) = id_basic m"
| "id_method (M_File m) = id_file m"
| "id_method (M_Stream m) = id_stream m"
| "id_method (M_Tx m) = id_tx m"
| "id_method (M_Dtx m) = id_dtx m"
| "id_method (M_Tunnel m) = id_tunnel m"
| "id_method (M_Test m) = id_test m"

lemmas method_ids =
  connection_ids channel_ids access_ids exchange_ids queue_ids basic_ids file_ids stream_ids tx_ids dtx_ids tunnel_ids test_ids

section \<open>Names and contents\<close>

definition method_names :: "(u32 \<times> string) list" where
  "method_names =
     [(AMQP_CONNECTION_START_METHOD, ''AMQP_CONNECTION_START_METHOD''),
      (AMQP_CONNECTION_START_OK_METHOD, ''AMQP_CONNECTION_START_OK_METHOD''),
      (AMQP_CONNECTION_SECURE_METHOD, ''AMQP_CONNECTION_SECURE_METHOD''),
      (AMQP_CONNECTION_SECURE_OK_METHOD, ''AMQP_CONNECTION_SECURE_OK_METHOD''),
      (AMQP_CONNECTION_TUNE_METHOD, ''AMQP_CONNECTION_TUNE_METHOD''),
      (AMQP_CONNECTION_TUNE_OK_METHOD, ''AMQP_CONNECTION_TUNE_OK_METHOD''),
      (AMQP_CONNECTION_OPEN_METHOD, ''AMQP_CONNECTION_OPEN_METHOD''),
      (AMQP_CONNECTION_OPEN_OK_METHOD, ''AMQP_CONNECTION_OPEN_OK_METHOD''),
      (AMQP_CONNECTION_REDIRECT_METHOD, ''AMQP_CONNECTION_REDIRECT_METHOD''),
      (AMQP_CONNECTION_CLOSE_METHOD, ''AMQP_CONNECTION_CLOSE_METHOD''),
      (AMQP_CONNECTION_CLOSE_OK_METHOD, ''AMQP_CONNECTION_CLOSE_OK_METHOD''),
      (AMQP_CHANNEL_OPEN_METHOD, ''AMQP_CHANNEL_OPEN_METHOD''),
      (AMQP_CHANNEL_OPEN_OK_METHOD, ''AMQP_CHANNEL_OPEN_OK_METHOD''),
      (AMQP_CHANNEL_FLOW_METHOD, ''AMQP_CHANNEL_FLOW_METHOD''),
      (AMQP_CHANNEL_FLOW_OK_METHOD, ''AMQP_CHANNEL_FLOW_OK_METHOD''),
      (AMQP_CHANNEL_ALERT_METHOD, ''AMQP_CHANNEL_ALERT_METHOD''),
      (AMQP_CHANNEL_CLOSE_METHOD, ''AMQP_CHANNEL_CLOSE_METHOD''),
      (AMQP_CHANNEL_CLOSE_OK_METHOD, ''AMQP_CHANNEL_CLOSE_OK_METHOD''),
      (AMQP_ACCESS_REQUEST_METHOD, ''AMQP_ACCESS_REQUEST_METHOD''),
      (AMQP_ACCESS_REQUEST_OK_METHOD, ''AMQP_ACCESS_REQUEST_OK_METHOD''),
      (AMQP_EXCHANGE_DECLARE_METHOD, ''AMQP_EXCHANGE_DECLARE_METHOD''),
      (AMQP_EXCHANGE_DECLARE_OK_METHOD, ''AMQP_EXCHANGE_DECLARE_OK_METHOD''),
      (AMQP_EXCHANGE_DELETE_METHOD, ''AMQP_EXCHANGE_DELETE_METHOD''),
      (AMQP_EXCHANGE_DELETE_OK_METHOD, ''AMQP_EXCHANGE_DELETE_OK_METHOD''),
      (AMQP_QUEUE_DECLARE_METHOD, ''AMQP_QUEUE_DECLARE_METHOD''),
      (AMQP_QUEUE_DECLARE_OK_METHOD, ''AMQP_QUEUE_DECLARE_OK_METHOD''),
      (AMQP_QUEUE_BIND_METHOD, ''AMQP_QUEUE_BIND_METHOD''),
      (AMQP_QUEUE_BIND_OK_METHOD, ''AMQP_QUEUE_BIND_OK_METHOD''),
      (AMQP_QUEUE_PURGE_METHOD, ''AMQP_QUEUE_PURGE_METHOD''),
      (AMQP_QUEUE_PURGE_OK_METHOD, ''AMQP_QUEUE_PURGE_OK_METHOD''),
      (AMQP_QUEUE_DELETE_METHOD, ''AMQP_QUEUE_DELETE_METHOD''),
      (AMQP_QUEUE_DELETE_OK_METHOD, ''AMQP_QUEUE_DELETE_OK_METHOD''),
      (AMQP_QUEUE_UNBIND_METHOD, ''AMQP_QUEUE_UNBIND_METHOD''),
      (AMQP_QUEUE_UNBIND_OK_METHOD, ''AMQP_QUEUE_UNBIND_OK_METHOD''),
      (AMQP_BASIC_QOS_METHOD, ''AMQP_BASIC_QOS_METHOD''),
      (AMQP_BASIC_QOS_OK_METHOD, ''AMQP_BASIC_QOS_OK_METHOD''),
      (AMQP_BASIC_CONSUME_METHOD, ''AMQP_BASIC_CONSUME_METHOD''),
      (AMQP_BASIC_CONSUME_OK_METHOD, ''AMQP_BASIC_CONSUME_OK_METHOD''),
      (AMQP_BASIC_CANCEL_METHOD, ''AMQP_BASIC_CANCEL_METHOD''),
      (AMQP_BASIC_CANCEL_OK_METHOD, ''AMQP_BASIC_CANCEL_OK_METHOD''),
      (AMQP_BASIC_PUBLISH_METHOD, ''AMQP_BASIC_PUBLISH_METHOD''),
      (AMQP_BASIC_RETURN_METHOD, ''AMQP_BASIC_RETURN_METHOD''),
      (AMQP_BASIC_DELIVER_METHOD, ''AMQP_BASIC_DELIVER_METHOD''),
      (AMQP_BASIC_GET_METHOD, ''AMQP_BASIC_GET_METHOD''),
      (AMQP_BASIC_GET_OK_METHOD, ''AMQP_BASIC_GET_OK_METHOD''),
      (AMQP_BASIC_GET_EMPTY_METHOD, ''AMQP_BASIC_GET_EMPTY_METHOD''),
      (AMQP_BASIC_ACK_METHOD, ''AMQP_BASIC_ACK_METHOD''),
      (AMQP_BASIC_REJECT_METHOD, ''AMQP_BASIC_REJECT_METHOD''),
      (AMQP_BASIC_RECOVER_METHOD, ''AMQP_BASIC_RECOVER_METHOD''),
      (AMQP_FILE_QOS_METHOD, ''AMQP_FILE_QOS_METHOD''),
      (AMQP_FILE_QOS_OK_METHOD, ''AMQP_FILE_QOS_OK_METHOD''),
      (AMQP_FILE_CONSUME_METHOD, ''AMQP_FILE_CONSUME_METHOD''),
      (AMQP_FILE_CONSUME_OK_METHOD, ''AMQP_FILE_CONSUME_OK_METHOD''),
      (AMQP_FILE_CANCEL_METHOD, ''AMQP_FILE_CANCEL_METHOD''),
      (AMQP_FILE_CANCEL_OK_METHOD, ''AMQP_FILE_CANCEL_OK_METHOD''),
      (AMQP_FILE_OPEN_METHOD, ''AMQP_FILE_OPEN_METHOD''),
      (AMQP_FILE_OPEN_OK_METHOD, ''AMQP_FILE_OPEN_OK_METHOD''),
      (AMQP_FILE_STAGE_METHOD, ''AMQP_FILE_STAGE_METHOD''),
      (AMQP_FILE_PUBLISH_METHOD, ''AMQP_FILE_PUBLISH_METHOD''),
      (AMQP_FILE_RETURN_METHOD, ''AMQP_FILE_RETURN_METHOD''),
      (AMQP_FILE_DELIVER_METHOD, ''AMQP_FILE_DELIVER_METHOD''),
      (AMQP_FILE_ACK_METHOD, ''AMQP_FILE_ACK_METHOD''),
      (AMQP_FILE_REJECT_METHOD, ''AMQP_FILE_REJECT_METHOD''),
      (AMQP_STREAM_QOS_METHOD, ''AMQP_STREAM_QOS_METHOD''),
      (AMQP_STREAM_QOS_OK_METHOD, ''AMQP_STREAM_QOS_OK_METHOD''),
      (AMQP_STREAM_CONSUME_METHOD, ''AMQP_STREAM_CONSUME_METHOD''),
      (AMQP_STREAM_CONSUME_OK_METHOD, ''AMQP_STREAM_CONSUME_OK_METHOD''),
      (AMQP_STREAM_CANCEL_METHOD, ''AMQP_STREAM_CANCEL_METHOD''),
      (AMQP_STREAM_CANCEL_OK_METHOD, ''AMQP_STREAM_CANCEL_OK_METHOD''),
      (AMQP_STREAM_PUBLISH_METHOD, ''AMQP_STREAM_PUBLISH_METHOD''),
      (AMQP_STREAM_RETURN_METHOD, ''AMQP_STREAM_RETURN_METHOD''),
      (AMQP_STREAM_DELIVER_METHOD, ''AMQP_STREAM_DELIVER_METHOD''),
      (AMQP_TX_SELECT_METHOD, ''AMQP_TX_SELECT_METHOD''),
      (AMQP_TX_SELECT_OK_METHOD, ''AMQP_TX_SELECT_OK_METHOD''),
      (AMQP_TX_COMMIT_METHOD, ''AMQP_TX_COMMIT_METHOD''),
      (AMQP_TX_COMMIT_OK_METHOD, ''AMQP_TX_COMMIT_OK_METHOD''),
      (AMQP_TX_ROLLBACK_METHOD, ''AMQP_TX_ROLLBACK_METHOD''),
      (AMQP_TX_ROLLBACK_OK_METHOD, ''AMQP_TX_ROLLBACK_OK_METHOD''),
      (AMQP_DTX_SELECT_METHOD, ''AMQP_DTX_SELECT_METHOD''),
      (AMQP_DTX_SELECT_OK_METHOD, ''AMQP_DTX_SELECT_OK_METHOD''),
      (AMQP_DTX_START_METHOD, ''AMQP_DTX_START_METHOD''),
      (AMQP_DTX_START_OK_METHOD, ''AMQP_DTX_START_OK_METHOD''),
      (AMQP_TUNNEL_REQUEST_METHOD, ''AMQP_TUNNEL_REQUEST_METHOD''),
      (AMQP_TEST_INTEGER_METHOD, ''AMQP_TEST_INTEGER_METHOD''),
      (AMQP_TEST_INTEGER_OK_METHOD, ''AMQP_TEST_INTEGER_OK_METHOD''),
      (AMQP_TEST_STRING_METHOD, ''AMQP_TEST_STRING_METHOD''),
      (AMQP_TEST_STRING_OK_METHOD, ''AMQP_TEST_STRING_OK_METHOD''),
      (AMQP_TEST_TABLE_METHOD, ''AMQP_TEST_TABLE_METHOD''),
      (AMQP_TEST_TABLE_OK_METHOD, ''AMQP_TEST_TABLE_OK_METHOD''),
      (AMQP_TEST_CONTENT_METHOD, ''AMQP_TEST_CONTENT_METHOD''),
      (AMQP_TEST_CONTENT_OK_METHOD, ''AMQP_TEST_CONTENT_OK_METHOD'')]"

definition amqp_method_name :: "u32 \<Rightarrow> string option" where
  "amqp_method_name methodNumber = map_of method_names methodNumber"

definition amqp_method_has_content :: "u32 \<Rightarrow> bool" where
  "amqp_method_has_content methodNumber \<longleftrightarrow>
     methodNumber \<in> set [AMQP_BASIC_PUBLISH_METHOD,
       AMQP_BASIC_RETURN_METHOD,
       AMQP_BASIC_DELIVER_METHOD,
       AMQP_BASIC_GET_OK_METHOD,
       AMQP_FILE_STAGE_METHOD,
       AMQP_FILE_RETURN_METHOD,
       AMQP_STREAM_PUBLISH_METHOD,
       AMQP_STREAM_RETURN_METHOD,
       AMQP_STREAM_DELIVER_METHOD,
       AMQP_TUNNEL_REQUEST_METHOD,
       AMQP_TEST_CONTENT_METHOD,
       AMQP_TEST_CONTENT_OK_METHOD]"

section \<open>Decoding and encoding\<close>

text \<open>The \<open>switch\<close> of \<open>amqp_decode_method\<close>, class by class as it stands there.\<close>

definition dmap :: "('a \<Rightarrow> 'b) \<Rightarrow> 'a dec \<Rightarrow> 'b dec" where
  "dmap f d = dbind d (\<lambda>v. dret (f v))"

definition in_class :: "('m \<Rightarrow> amqp_method) \<Rightarrow> (u32 \<times> 'm dec) list \<Rightarrow> (u32 \<times> amqp_method dec) list" where
  "in_class c = map (\<lambda>(i, d). (i, dmap c d))"

definition method_decoders :: "memory \<Rightarrow> (u32 \<times> amqp_method dec) list" where
  "method_decoders mem = concat
     [in_class M_Connection (decoders_connection mem),
      in_class M_Channel (decoders_channel mem),
      in_class M_Access (decoders_access mem),
      in_class M_Exchange (decoders_exchange mem),
      in_class M_Queue (decoders_queue mem),
      in_class M_Basic (decoders_basic mem),
      in_class M_File (decoders_file mem),
      in_class M_Stream (decoders_stream mem),
      in_class M_Tx (decoders_tx mem),
      in_class M_Dtx (decoders_dtx mem),
      in_class M_Tunnel (decoders_tunnel mem),
      in_class M_Test (decoders_test mem)]"

definition amqp_decode_method :: "memory \<Rightarrow> u32 \<Rightarrow> cbuf \<Rightarrow> c_error + amqp_method" where
  "amqp_decode_method mem methodNumber encoded =
     (case map_of (method_decoders mem) methodNumber of
        None \<Rightarrow> Inl ENOENT
      | Some d \<Rightarrow> map_sum id fst (d encoded 0))"

text \<open>
  The struct comes as a \<open>void *\<close>; a method number that is not the one of the struct reads the
  fields of another type.  The result is the buffer and the length written.
\<close>

fun encode_fields :: "amqp_method \<Rightarrow> enc" where
  "encode_fields (M_Connection m) = encode_connection m"
| "encode_fields (M_Channel m) = encode_channel m"
| "encode_fields (M_Access m) = encode_access m"
| "encode_fields (M_Exchange m) = encode_exchange m"
| "encode_fields (M_Queue m) = encode_queue m"
| "encode_fields (M_Basic m) = encode_basic m"
| "encode_fields (M_File m) = encode_file m"
| "encode_fields (M_Stream m) = encode_stream m"
| "encode_fields (M_Tx m) = encode_tx m"
| "encode_fields (M_Dtx m) = encode_dtx m"
| "encode_fields (M_Tunnel m) = encode_tunnel m"
| "encode_fields (M_Test m) = encode_test m"

definition encode_cases :: "u32 list" where
  "encode_cases =
     [AMQP_CONNECTION_START_METHOD,
      AMQP_CONNECTION_START_OK_METHOD,
      AMQP_CONNECTION_SECURE_METHOD,
      AMQP_CONNECTION_SECURE_OK_METHOD,
      AMQP_CONNECTION_TUNE_METHOD,
      AMQP_CONNECTION_TUNE_OK_METHOD,
      AMQP_CONNECTION_OPEN_METHOD,
      AMQP_CONNECTION_OPEN_OK_METHOD,
      AMQP_CONNECTION_REDIRECT_METHOD,
      AMQP_CONNECTION_CLOSE_METHOD,
      AMQP_CONNECTION_CLOSE_OK_METHOD,
      AMQP_CHANNEL_OPEN_METHOD,
      AMQP_CHANNEL_OPEN_OK_METHOD,
      AMQP_CHANNEL_FLOW_METHOD,
      AMQP_CHANNEL_FLOW_OK_METHOD,
      AMQP_CHANNEL_ALERT_METHOD,
      AMQP_CHANNEL_CLOSE_METHOD,
      AMQP_CHANNEL_CLOSE_OK_METHOD,
      AMQP_ACCESS_REQUEST_METHOD,
      AMQP_ACCESS_REQUEST_OK_METHOD,
      AMQP_EXCHANGE_DECLARE_METHOD,
      AMQP_EXCHANGE_DECLARE_OK_METHOD,
      AMQP_EXCHANGE_DELETE_METHOD,
      AMQP_EXCHANGE_DELETE_OK_METHOD,
      AMQP_QUEUE_DECLARE_METHOD,
      AMQP_QUEUE_DECLARE_OK_METHOD,
      AMQP_QUEUE_BIND_METHOD,
      AMQP_QUEUE_BIND_OK_METHOD,
      AMQP_QUEUE_PURGE_METHOD,
      AMQP_QUEUE_PURGE_OK_METHOD,
      AMQP_QUEUE_DELETE_METHOD,
      AMQP_QUEUE_DELETE_OK_METHOD,
      AMQP_QUEUE_UNBIND_METHOD,
      AMQP_QUEUE_UNBIND_OK_METHOD,
      AMQP_BASIC_QOS_METHOD,
      AMQP_BASIC_QOS_OK_METHOD,
      AMQP_BASIC_CONSUME_METHOD,
      AMQP_BASIC_CONSUME_OK_METHOD,
      AMQP_BASIC_CANCEL_METHOD,
      AMQP_BASIC_CANCEL_OK_METHOD,
      AMQP_BASIC_PUBLISH_METHOD,
      AMQP_BASIC_RETURN_METHOD,
      AMQP_BASIC_DELIVER_METHOD,
      AMQP_BASIC_GET_METHOD,
      AMQP_BASIC_GET_OK_METHOD,
      AMQP_BASIC_GET_EMPTY_METHOD,
      AMQP_BASIC_ACK_METHOD,
      AMQP_BASIC_REJECT_METHOD,
      AMQP_BASIC_RECOVER_METHOD,
      AMQP_FILE_QOS_METHOD,
      AMQP_FILE_QOS_OK_METHOD,
      AMQP_FILE_CONSUME_METHOD,
      AMQP_FILE_CONSUME_OK_METHOD,
      AMQP_FILE_CANCEL_METHOD,
      AMQP_FILE_CANCEL_OK_METHOD,
      AMQP_FILE_OPEN_METHOD,
      AMQP_FILE_OPEN_OK_METHOD,
      AMQP_FILE_STAGE_METHOD,
      AMQP_FILE_PUBLISH_METHOD,
      AMQP_FILE_RETURN_METHOD,
      AMQP_FILE_DELIVER_METHOD,
      AMQP_FILE_ACK_METHOD,
      AMQP_FILE_REJECT_METHOD,
      AMQP_STREAM_QOS_METHOD,
      AMQP_STREAM_QOS_OK_METHOD,
      AMQP_STREAM_CONSUME_METHOD,
      AMQP_STREAM_CONSUME_OK_METHOD,
      AMQP_STREAM_CANCEL_METHOD,
      AMQP_STREAM_CANCEL_OK_METHOD,
      AMQP_STREAM_PUBLISH_METHOD,
      AMQP_STREAM_RETURN_METHOD,
      AMQP_STREAM_DELIVER_METHOD,
      AMQP_TX_SELECT_METHOD,
      AMQP_TX_SELECT_OK_METHOD,
      AMQP_TX_COMMIT_METHOD,
      AMQP_TX_COMMIT_OK_METHOD,
      AMQP_TX_ROLLBACK_METHOD,
      AMQP_TX_ROLLBACK_OK_METHOD,
      AMQP_DTX_SELECT_METHOD,
      AMQP_DTX_SELECT_OK_METHOD,
      AMQP_DTX_START_METHOD,
      AMQP_DTX_START_OK_METHOD,
      AMQP_TUNNEL_REQUEST_METHOD,
      AMQP_TEST_INTEGER_METHOD,
      AMQP_TEST_INTEGER_OK_METHOD,
      AMQP_TEST_STRING_METHOD,
      AMQP_TEST_STRING_OK_METHOD,
      AMQP_TEST_TABLE_METHOD,
      AMQP_TEST_TABLE_OK_METHOD,
      AMQP_TEST_CONTENT_METHOD,
      AMQP_TEST_CONTENT_OK_METHOD]"

definition amqp_encode_method ::
  "u32 \<Rightarrow> amqp_method \<Rightarrow> cbuf \<Rightarrow> c_error + (cbuf \<times> nat)" where
  "amqp_encode_method methodNumber decoded encoded =
     (if methodNumber \<notin> set encode_cases then Inl ENOENT
      else if methodNumber = id_method decoded then encode_fields decoded (encoded, 0)
      else Inl (Undefined Type_Confusion))"


fun valid_method :: "amqp_method \<Rightarrow> bool" where
  "valid_method (M_Connection m) = valid_connection m"
| "valid_method (M_Channel m) = valid_channel m"
| "valid_method (M_Access m) = valid_access m"
| "valid_method (M_Exchange m) = valid_exchange m"
| "valid_method (M_Queue m) = valid_queue m"
| "valid_method (M_Basic m) = valid_basic m"
| "valid_method (M_File m) = valid_file m"
| "valid_method (M_Stream m) = valid_stream m"
| "valid_method (M_Tx m) = valid_tx m"
| "valid_method (M_Dtx m) = valid_dtx m"
| "valid_method (M_Tunnel m) = valid_tunnel m"
| "valid_method (M_Test m) = valid_test m"

fun wire_method :: "amqp_method \<Rightarrow> byte list" where
  "wire_method (M_Connection m) = wire_connection m"
| "wire_method (M_Channel m) = wire_channel m"
| "wire_method (M_Access m) = wire_access m"
| "wire_method (M_Exchange m) = wire_exchange m"
| "wire_method (M_Queue m) = wire_queue m"
| "wire_method (M_Basic m) = wire_basic m"
| "wire_method (M_File m) = wire_file m"
| "wire_method (M_Stream m) = wire_stream m"
| "wire_method (M_Tx m) = wire_tx m"
| "wire_method (M_Dtx m) = wire_dtx m"
| "wire_method (M_Tunnel m) = wire_tunnel m"
| "wire_method (M_Test m) = wire_test m"

section \<open>The codec of a method\<close>

lemma emits_method: "valid_method m \<Longrightarrow> emits (encode_fields m) (wire_method m)"
  by (cases m)
     (simp_all add: emits_connection emits_channel emits_access emits_exchange emits_queue emits_basic
           emits_file emits_stream emits_tx emits_dtx emits_tunnel emits_test)

lemma parses_dmap: "parses d ws v \<Longrightarrow> parses (dmap f d) ws (f v)"
  unfolding dmap_def by (rule parses_bind_nil) simp_all

lemma safe_dmap: "reads_safely d \<Longrightarrow> reads_safely (dmap f d)"
  unfolding dmap_def by (intro safe_intros)

lemma keys_decoders:
  "map fst (method_decoders mem) = encode_cases" "map fst method_names = encode_cases"
  unfolding method_decoders_def in_class_def method_names_def encode_cases_def
    decoders_connection_def decoders_channel_def decoders_access_def decoders_exchange_def decoders_queue_def decoders_basic_def
           decoders_file_def decoders_stream_def decoders_tx_def decoders_dtx_def decoders_tunnel_def decoders_test_def
  by simp_all

lemma distinct_cases: "distinct encode_cases"
  unfolding encode_cases_def method_ids by simp

lemma case_in_class: "map_of xs i = Some d \<Longrightarrow> (i, dmap c d) \<in> set (in_class c xs)"
  by (force simp: in_class_def dest: map_of_SomeD)

lemma parses_in_class:
  assumes "\<exists>d. map_of xs i = Some d \<and> parses d ws v" and "set (in_class c xs) \<subseteq> S"
  shows "\<exists>d. (i, d) \<in> S \<and> parses d ws (c v)"
  using assms case_in_class parses_dmap by (metis subsetD)

lemmas parses_in_classes =
  parses_in_class [where c = M_Connection]
  parses_in_class [where c = M_Channel]
  parses_in_class [where c = M_Access]
  parses_in_class [where c = M_Exchange]
  parses_in_class [where c = M_Queue]
  parses_in_class [where c = M_Basic]
  parses_in_class [where c = M_File]
  parses_in_class [where c = M_Stream]
  parses_in_class [where c = M_Tx]
  parses_in_class [where c = M_Dtx]
  parses_in_class [where c = M_Tunnel]
  parses_in_class [where c = M_Test]

lemma decoder_of_case:
  assumes "(i, d) \<in> set (method_decoders mem)"
  shows "map_of (method_decoders mem) i = Some d"
  using assms distinct_cases by (simp add: keys_decoders)

lemma parses_method:
  assumes "enough_memory mem" and "valid_method m"
  shows "\<exists>d. map_of (method_decoders mem) (id_method m) = Some d \<and> parses d (wire_method m) m"
proof -
  have "\<exists>d. (id_method m, d) \<in> set (method_decoders mem) \<and> parses d (wire_method m) m"
    by (insert assms, unfold method_decoders_def, cases m;
        simp only: id_method.simps wire_method.simps valid_method.simps;
        rule parses_in_classes;
        (rule parses_connection parses_channel parses_access parses_exchange parses_queue
           parses_basic parses_file parses_stream parses_tx parses_dtx parses_tunnel parses_test;
         assumption)?;
        auto)
  then show ?thesis using decoder_of_case by blast
qed

lemma keys_in_class [simp]: "map fst (in_class c xs) = map fst xs"
  by (induction xs) (auto simp: in_class_def)

lemma distinct_classes:
  "distinct (map fst (concat xss)) \<Longrightarrow> xs \<in> set xss \<Longrightarrow> distinct (map fst xs)"
  by (induction xss) auto

lemma safe_in_class:
  assumes "(i, d) \<in> set (in_class c xs)" and "distinct (map fst xs)"
    and "\<And>d. map_of xs i = Some d \<Longrightarrow> reads_safely d"
  shows "reads_safely d"
  using assms by (auto simp: in_class_def intro!: safe_dmap)

lemma safe_method:
  assumes pool: "\<And>n. pool_ok mem n" and "map_of (method_decoders mem) i = Some d"
  shows "reads_safely d"
proof -
  have dist: "distinct (map fst (method_decoders mem))"
    by (simp add: keys_decoders distinct_cases)
  from assms(2) have "(i, d) \<in> set (method_decoders mem)" by (rule map_of_SomeD)
  then obtain ys where ys: "(i, d) \<in> set ys" "distinct (map fst ys)"
      and cls: "ys \<in> set [in_class M_Connection (decoders_connection mem),
         in_class M_Channel (decoders_channel mem),
         in_class M_Access (decoders_access mem),
         in_class M_Exchange (decoders_exchange mem),
         in_class M_Queue (decoders_queue mem),
         in_class M_Basic (decoders_basic mem),
         in_class M_File (decoders_file mem),
         in_class M_Stream (decoders_stream mem),
         in_class M_Tx (decoders_tx mem),
         in_class M_Dtx (decoders_dtx mem),
         in_class M_Tunnel (decoders_tunnel mem),
         in_class M_Test (decoders_test mem)]"
    using distinct_classes [OF dist [unfolded method_decoders_def]]
    unfolding method_decoders_def by auto
  show ?thesis
    by (insert ys cls, unfold list.set insert_iff empty_iff, elim disjE FalseE; hypsubst; unfold keys_in_class; erule safe_in_class; assumption?;
        rule safe_connection safe_channel safe_access safe_exchange safe_queue safe_basic
          safe_file safe_stream safe_tx safe_dtx safe_tunnel safe_test; (assumption | rule pool))
qed

end
