(* ===== verification/Codec_Laws.thy ===== *)
theory Codec_Laws
  imports Framing
begin

text \<open>
  The contracts of the AMQP codec (\<open>amqp_framing.c\<close>, \<open>amqp_table.c\<close>), stated over the C-level
  entry points: a receiver gets back what a sender encoded, a buffer that is too short is refused,
  no bytes make a decoder leave its buffer, and the places where the code is weaker than that.
\<close>

section \<open>From the contracts of fields to those of buffers\<close>

text \<open>The part of a buffer that a frame carries to the peer: its first \<open>n\<close> bytes.\<close>

definition sent :: "cbuf \<Rightarrow> nat \<Rightarrow> cbuf" where
  "sent b n = \<lparr>buf_len = n, buf_bytes = take n (buf_bytes b)\<rparr>"

lemma emits_front:
  assumes "emits e ws" and "honest b"
  shows "e (b, 0) =
    (if length ws \<le> buf_len b
     then Inr (b\<lparr>buf_bytes := ws @ drop (length ws) (buf_bytes b)\<rparr>, length ws)
     else Inl EFAULT)"
  using assms by (simp add: emits_def splice_def)

lemma parses_sent:
  assumes "parses d ws v" and "length ws \<le> buf_len b" and "honest b"
  shows "d (sent (b\<lparr>buf_bytes := ws @ drop (length ws) (buf_bytes b)\<rparr>) (length ws)) 0 = Inr (v, length ws)"
  using assms parses_at [of d ws v "sent (b\<lparr>buf_bytes := ws @ rest\<rparr>) (length ws)" "[]" "[]" 0 for rest]
  by (simp add: sent_def honest_def)

lemma safe_start: "reads_safely d \<Longrightarrow> honest b \<Longrightarrow> d b 0 \<noteq> Inl (Undefined u)"
  using safe_at [of d b 0] by (auto simp: safe_result_def)

lemma encode_method_eq:
  "amqp_encode_method (id_method m) m b = encode_fields m (b, 0)"
proof -
  have "id_method m \<in> set encode_cases"
    by (cases m) (rename_tac x; case_tac x; simp add: encode_cases_def)+
  then show ?thesis by (simp add: amqp_encode_method_def)
qed

section \<open>Methods\<close>

text \<open>A method struct whose strings and tables fit their length prefixes is encoded as
  exactly its wire bytes at the front of the buffer, the rest of the buffer is left alone and the
  returned length is the number of bytes written; a buffer that is too short is refused with
  \<open>-EFAULT\<close> and nothing is written past it.\<close>

theorem encode_method_spec:
  assumes "valid_method m" and "honest b"
  shows "amqp_encode_method (id_method m) m b =
    (if length (wire_method m) \<le> buf_len b
     then Inr (b\<lparr>buf_bytes := wire_method m @ drop (length (wire_method m)) (buf_bytes b)\<rparr>,
               length (wire_method m))
     else Inl EFAULT)"
  unfolding encode_method_eq using emits_method [OF assms(1)] assms(2) by (rule emits_front)

text \<open>A small method and buffer for the witnesses.\<close>

definition demo_memory :: memory where
  "demo_memory = \<lparr>malloc_ok = \<lambda>_. True, pool_ok = \<lambda>_. True, stale = \<lambda>_. []\<rparr>"

definition demo_buffer :: "nat \<Rightarrow> cbuf" where
  "demo_buffer n = \<lparr>buf_len = n, buf_bytes = replicate n 0\<rparr>"

definition demo_method :: amqp_method where
  "demo_method = M_Connection (AMQP_Connection_Tune 7 131072 60)"

lemma demo_codec [simp]:
  "enough_memory demo_memory" "pool_ok demo_memory n" "honest (demo_buffer 16)"
  "buf_len (demo_buffer 16) = 16" "valid_method demo_method"
  by (simp_all add: enough_memory_def demo_memory_def honest_def demo_buffer_def demo_method_def)

lemma be_bytes_numeral: "be_bytes (numeral k) n = be_bytes (pred_numeral k) (n div 256) @ [word_of_nat n]"
  unfolding numeral_eq_Suc [of k] by (rule be_bytes.simps)

lemma demo_method_wire: "wire_method demo_method = [0, 7, 0, 2, 0, 0, 0, 60]"
  by (simp add: demo_method_def wire_connection.simps wire_16_def wire_32_def be_bytes_numeral)

lemma demo_method_id: "id_method demo_method = AMQP_CONNECTION_TUNE_METHOD"
  by (simp add: demo_method_def)

theorem encode_method_spec_witness:
  "amqp_encode_method AMQP_CONNECTION_TUNE_METHOD demo_method (demo_buffer 16) =
     Inr (\<lparr>buf_len = 16, buf_bytes = [0, 7, 0, 2, 0, 0, 0, 60] @ replicate 8 0\<rparr>, 8)"
  using encode_method_spec [of demo_method "demo_buffer 16"]
  unfolding demo_method_wire demo_method_id by (simp add: demo_buffer_def honest_def)

text \<open>C18: What the encoder wrote, the decoder of the receiver reads back: for a method whose
  strings and tables fit their length prefixes, decoding the bytes sent under the same method
  number yields an equal struct.\<close>

theorem method_round_trip:
  assumes "valid_method m" and "honest b" and "length (wire_method m) \<le> buf_len b"
    and "enough_memory mem"
  shows "\<exists>b' n. amqp_encode_method (id_method m) m b = Inr (b', n) \<and>
    amqp_decode_method mem (id_method m) (sent b' n) = Inr m"
proof -
  obtain d where d: "map_of (method_decoders mem) (id_method m) = Some d" "parses d (wire_method m) m"
    using parses_method [OF assms(4,1)] by blast
  have "amqp_encode_method (id_method m) m b =
      Inr (b\<lparr>buf_bytes := wire_method m @ drop (length (wire_method m)) (buf_bytes b)\<rparr>,
           length (wire_method m))"
    unfolding encode_method_eq using emits_front [OF emits_method [OF assms(1)] assms(2)] assms(3)
    by simp
  then show ?thesis
    using parses_sent [OF d(2) assms(3,2)] by (simp add: amqp_decode_method_def d(1))
qed

theorem method_round_trip_witness:
  "\<exists>b' n. amqp_encode_method AMQP_CONNECTION_TUNE_METHOD demo_method (demo_buffer 16) = Inr (b', n) \<and>
     amqp_decode_method demo_memory AMQP_CONNECTION_TUNE_METHOD (sent b' n) = Inr demo_method"
  using method_round_trip [of demo_method "demo_buffer 16" demo_memory]
  unfolding demo_method_wire demo_method_id by simp

lemma decode_method_defined:
  assumes "\<And>n. pool_ok mem n" and "honest b"
  shows "amqp_decode_method mem i b \<noteq> Inl (Undefined u)"
proof (cases "map_of (method_decoders mem) i")
  case (Some d)
  then have "reads_safely d" by (rule safe_method [OF assms(1)])
  from safe_start [OF this assms(2), of u] show ?thesis
    by (cases "d b 0") (simp_all add: amqp_decode_method_def Some)
qed (simp add: amqp_decode_method_def)

text \<open>C19: Whatever bytes the peer sends and whatever method number it names, decoding them never
  reads outside the payload, dereferences NULL or shows other undefined behaviour, as long as the
  pool can be extended; \<open>malloc\<close> may fail.\<close>

theorem decode_method_safe:
  assumes "\<And>n. pool_ok mem n" and "honest b"
  shows "amqp_decode_method mem i b \<noteq> Inl (Undefined u)"
  by (rule decode_method_defined [OF assms])

theorem decode_method_safe_witness:
  "amqp_decode_method demo_memory AMQP_CONNECTION_START_METHOD (demo_buffer 16) \<noteq> Inl (Undefined Out_Of_Bounds)"
  by (rule decode_method_safe) simp_all

text \<open>The three switches know the same method numbers: a number without a name is refused
  with \<open>-ENOENT\<close> by the decoder and the encoder, and a number with a name is the number of some
  method struct, which its decoder builds and its encoder writes.\<close>

theorem method_numbers_agree:
  "(amqp_method_name i = None \<longrightarrow>
      amqp_decode_method mem i b = Inl ENOENT \<and> amqp_encode_method i m b = Inl ENOENT) \<and>
   (amqp_method_name i \<noteq> None \<longrightarrow>
      (\<exists>d. map_of (method_decoders mem) i = Some d) \<and>
      (amqp_encode_method i m b = Inl ENOENT \<longrightarrow> i = id_method m))"
proof -
  have dec: "map_of (method_decoders mem) i = None \<longleftrightarrow> i \<notin> set encode_cases"
    by (metis keys_decoders(1) map_of_eq_None_iff set_map)
  have "amqp_method_name i = None \<longleftrightarrow> i \<notin> set encode_cases"
    unfolding amqp_method_name_def by (metis keys_decoders(2) map_of_eq_None_iff set_map)
  with dec show ?thesis
    by (auto simp: amqp_decode_method_def amqp_encode_method_def)
qed

theorem method_numbers_agree_witness:
  "amqp_decode_method demo_memory 0 (demo_buffer 16) = Inl ENOENT \<and>
   amqp_encode_method 0 demo_method (demo_buffer 16) = Inl ENOENT"
  using method_numbers_agree [of 0 demo_memory "demo_buffer 16" demo_method]
  by (simp add: amqp_method_name_def method_names_def method_ids)

section \<open>Content properties\<close>

lemma emits_properties:
  assumes "valid_properties p"
  shows "emits (enc_all [put_flags (properties_flags p), fields_of_properties p]) (wire_properties p)"
  using emits_Cons [OF emits_flags [OF valid_properties_flags [OF assms]]
      emits_Cons [OF emits_property_fields [OF assms] emits_nil]]
  by (simp add: wire_properties_def del: enc_all.simps)

lemma encode_properties_eq:
  "amqp_encode_properties (class_of p) p b =
     enc_all [put_flags (properties_flags p), fields_of_properties p] (b, 0)"
  by (simp add: amqp_encode_properties_def)

lemma parses_properties:
  assumes "enough_memory mem" and "valid_properties p"
  shows "parses (decode_properties_at mem (class_of p)) (wire_properties p) p"
proof -
  obtain d where d: "map_of (properties_decoders mem) (class_of p) = Some d"
      "parses (d (properties_flags p)) (wire_fields p) p"
    using parses_property_fields [OF assms] by blast
  show ?thesis
    unfolding decode_properties_at_def wire_properties_def
    by (rule parses_bind [OF parses_flags [OF valid_properties_flags [OF assms(2)]]]) (simp add: d)
qed

text \<open>A property struct whose flags fit one flag word and whose set fields fit their length
  prefixes is encoded as its flag word followed by exactly the fields whose flag is set, or refused
  with \<open>-EFAULT\<close> when the buffer is too short.\<close>

theorem encode_properties_spec:
  assumes "valid_properties p" and "honest b"
  shows "amqp_encode_properties (class_of p) p b =
    (if length (wire_properties p) \<le> buf_len b
     then Inr (b\<lparr>buf_bytes := wire_properties p @ drop (length (wire_properties p)) (buf_bytes b)\<rparr>,
               length (wire_properties p))
     else Inl EFAULT)"
  unfolding encode_properties_eq using emits_properties [OF assms(1)] assms(2) by (rule emits_front)

text \<open>Persistent delivery with a content type, as a publisher would set them.\<close>

definition demo_properties :: amqp_properties where
  "demo_properties = AMQP_Basic_Properties 0x9000 [116, 120] [] [] 2 0 [] [] [] [] 0 [] [] [] []"

lemma demo_flag_bits: "bit (0x9000 :: u32) n \<longleftrightarrow> n = 12 \<or> n = 15"
proof -
  have "(0x9000 :: u32) = or (push_bit 12 1) (push_bit 15 1)" by (simp add: push_bit_eq_mult)
  then show ?thesis by (simp only: bit_or_iff bit_push_bit_iff bit_1_iff) auto
qed

lemma demo_properties_ok [simp]: "valid_properties demo_properties"
  by (simp only: demo_properties_def valid_properties.simps valid_flags_def demo_flag_bits shortstr_def)
     simp

lemma demo_properties_wire: "wire_properties demo_properties = [0x90, 0, 2, 116, 120, 2]"
  by (simp add: demo_properties_def wire_properties_def wire_fields.simps wire_if_def demo_flag_bits
      wire_flags_def wire_16_def wire_8_def wire_shortstr_def be_bytes_numeral)

theorem encode_properties_spec_witness:
  "amqp_encode_properties 60 demo_properties (demo_buffer 16) =
     Inr (\<lparr>buf_len = 16, buf_bytes = [0x90, 0, 2, 116, 120, 2] @ replicate 10 0\<rparr>, 6)"
proof -
  have "class_of demo_properties = 60" by (simp add: demo_properties_def)
  then show ?thesis
    using encode_properties_spec [of demo_properties "demo_buffer 16"]
    unfolding demo_properties_wire by (simp add: demo_buffer_def honest_def)
qed



subsection \<open>Three flag words\<close>

text \<open>Whether the peer sent three flag words: both of the first two have their lowest bit set.\<close>

definition three_flag_words :: "cbuf \<Rightarrow> bool" where
  "three_flag_words b \<longleftrightarrow>
     6 \<le> buf_len b \<and> odd (unat (buf_bytes b ! 1)) \<and> odd (unat (buf_bytes b ! 3))"

definition flag_word :: "cbuf \<Rightarrow> nat \<Rightarrow> u16" where
  "flag_word b off = word_of_nat (256 * unat (buf_bytes b ! off) + unat (buf_bytes b ! (off + 1)))"

lemma flag_word_continues: "bit (flag_word b off) 0 \<longleftrightarrow> odd (unat (buf_bytes b ! (off + 1)))"
proof -
  have "bit (word_of_nat (256 * x + y) :: u16) 0 \<longleftrightarrow> odd y" for x y
    by (simp only: bit_of_nat_iff) (simp add: bit_0)
  then show ?thesis by (simp only: flag_word_def)
qed

lemma get_flag_word:
  assumes "honest b" and "off + 2 \<le> buf_len b"
  shows "get_16 b off = Inr (flag_word b off, off + 2)"
proof -
  from assms have len: "off < length (buf_bytes b)" "Suc off < length (buf_bytes b)"
    by (simp_all add: honest_def)
  then have "take 2 (drop off (buf_bytes b)) = [buf_bytes b ! off, buf_bytes b ! (off + 1)]"
    by (simp add: Cons_nth_drop_Suc [symmetric] numeral_2_eq_2)
  with assms show ?thesis
    by (simp add: get_16_def advance_def D_16_def D_BYTES_def CHECK_LIMIT_def honest_def be_nat_def
        flag_word_def)
qed

lemma get_16_short: "honest b \<Longrightarrow> off \<le> buf_len b \<Longrightarrow> buf_len b < off + 2 \<Longrightarrow> get_16 b off = Inl EFAULT"
  by (simp add: get_16_def advance_def D_16_def D_BYTES_def CHECK_LIMIT_honest)

lemma decode_flags_step:
  assumes "honest b" and "off \<le> buf_len b"
  shows "decode_flags i flags b off =
    (if buf_len b < off + 2 then Inl EFAULT
     else if 2 \<le> i then Inl (Undefined Shift_Too_Wide)
     else
       let flags' = or flags (push_bit (i * 16) (ucast (flag_word b off)))
       in if odd (unat (buf_bytes b ! (off + 1))) then decode_flags (i + 1) flags' b (off + 2)
          else Inr (flags', off + 2))"
proof (cases "buf_len b < off + 2")
  case True
  with assms show ?thesis by (subst decode_flags.simps) (simp add: dbind_def get_16_short)
next
  case False
  with assms have "get_16 b off = Inr (flag_word b off, off + 2)" by (simp add: get_flag_word)
  then show ?thesis
    using False
    by (subst decode_flags.simps) (auto simp: dbind_def dret_def Let_def flag_word_continues)
qed

lemma decode_flags_result:
  assumes "honest b"
  shows "(\<exists>flags p. decode_flags 0 0 b 0 = Inr (flags, p) \<and> p \<le> buf_len b \<and> \<not> three_flag_words b) \<or>
    (decode_flags 0 0 b 0 = Inl EFAULT \<and> \<not> three_flag_words b) \<or>
    (decode_flags 0 0 b 0 = Inl (Undefined Shift_Too_Wide) \<and> three_flag_words b)"
proof -
  consider "buf_len b < 2" | "2 \<le> buf_len b" "even (unat (buf_bytes b ! 1))"
    | "2 \<le> buf_len b" "odd (unat (buf_bytes b ! 1))" by linarith
  then show ?thesis
  proof cases
    case 3
    have second: "decode_flags 1 f b 2 =
        (if buf_len b < 4 then Inl EFAULT
         else if odd (unat (buf_bytes b ! 3))
         then decode_flags 2 (or f (push_bit 16 (ucast (flag_word b 2)))) b 4
         else Inr (or f (push_bit 16 (ucast (flag_word b 2))), 4))" for f
      using decode_flags_step [OF assms 3(1), of 1 f]
      by (simp add: Let_def flip: numeral_2_eq_2)
    have third: "4 \<le> buf_len b \<Longrightarrow> decode_flags 2 f b 4 =
        (if buf_len b < 6 then Inl EFAULT else Inl (Undefined Shift_Too_Wide))" for f
      using decode_flags_step [OF assms, of 4 2 f] by simp
    have "decode_flags 0 0 b 0 = decode_flags 1 (or 0 (push_bit (0 * 16) (ucast (flag_word b 0)))) b 2"
      using decode_flags_step [OF assms, of 0 0 0] 3
      by (simp add: Let_def flip: numeral_2_eq_2)
    then show ?thesis
      using 3 by (simp add: second [unfolded One_nat_def] third three_flag_words_def)
  qed (use assms in \<open>simp_all add: decode_flags_step [of b 0] Let_def three_flag_words_def\<close>)
qed

lemma decode_properties_undefined:
  assumes "\<And>n. pool_ok mem n" and "honest b"
  shows "amqp_decode_properties mem class_id b = Inl (Undefined u) \<longleftrightarrow>
    u = Shift_Too_Wide \<and> three_flag_words b"
proof -
  have rest: "safe_result b p ((case map_of (properties_decoders mem) class_id of
        None \<Rightarrow> dfail ENOENT | Some d \<Rightarrow> d flags) b p)" if "p \<le> buf_len b" for flags p
  proof (cases "map_of (properties_decoders mem) class_id")
    case (Some d)
    then have "reads_safely (d flags)" by (rule safe_property_fields [OF assms(1)])
    with assms(2) that Some show ?thesis by (simp add: safe_at)
  qed (simp add: safe_result_def dfail_def)
  from decode_flags_result [OF assms(2)] show ?thesis
  proof (elim disjE exE conjE)
    fix flags p
    assume f: "decode_flags 0 0 b 0 = Inr (flags, p)" and p: "p \<le> buf_len b" and "\<not> three_flag_words b"
    from rest [OF p, of flags] f \<open>\<not> three_flag_words b\<close> show ?thesis
      unfolding amqp_decode_properties_def decode_properties_at_def dbind_def
      by (auto simp: safe_result_def split: sum.splits)
  qed (auto simp: amqp_decode_properties_def decode_properties_at_def dbind_def)
qed

text \<open>C21: Decoding content properties that the peer sent shows undefined behaviour in exactly one
  case: three flag words, where the third is shifted by 32 bits.  Everything else a peer can send is
  decoded or refused inside the payload, whatever the class.  This is as long as the pool can be
  extended.\<close>

theorem decode_properties_undefined_iff:
  assumes "\<And>n. pool_ok mem n" and "honest b"
  shows "amqp_decode_properties mem class_id b = Inl (Undefined u) \<longleftrightarrow>
    u = Shift_Too_Wide \<and> three_flag_words b"
  by (rule decode_properties_undefined [OF assms])

theorem decode_properties_undefined_iff_witness:
  "amqp_decode_properties demo_memory 60 \<lparr>buf_len = 6, buf_bytes = [0, 1, 0, 1, 0, 0]\<rparr> =
     Inl (Undefined Shift_Too_Wide)"
  by (subst decode_properties_undefined_iff)
     (simp_all add: demo_memory_def honest_def three_flag_words_def)

section \<open>Field tables\<close>

text \<open>C22: A table whose keys and strings fit their length prefixes, nested tables included, makes
  the round trip at any offset of a buffer that has room for it: the decoder returns the same
  entries in the same order and stops where the encoder stopped.\<close>

theorem table_round_trip:
  assumes "valid_entries t" and "honest b" and "off + length (wire_table t) \<le> buf_len b"
    and "enough_memory mem"
  shows "\<exists>b'. amqp_encode_table t (b, off) = Inr (b', off + length (wire_table t)) \<and>
    amqp_decode_table mem b' off = Inr (t, off + length (wire_table t)) \<and>
    take off (buf_bytes b') = take off (buf_bytes b)"
  by (rule field_table.put_then_get [of mem t b off]) (use assms in auto)

text \<open>A table with a nested table.\<close>

definition demo_table :: table where
  "demo_table = [([97], Val_F [([98], Val_I 7)])]"

lemma demo_table_ok [simp]: "valid_entries demo_table" "length (wire_table demo_table) = 18"
  by (simp_all add: demo_table_def shortstr_def wire_table_def wire_entries.simps(2))

theorem table_round_trip_witness:
  "\<exists>b'. amqp_encode_table demo_table (demo_buffer 32, 3) = Inr (b', 21) \<and>
     amqp_decode_table demo_memory b' 3 = Inr (demo_table, 21)"
proof -
  have "honest (demo_buffer 32)" "buf_len (demo_buffer 32) = 32"
    by (simp_all add: honest_def demo_buffer_def)
  then show ?thesis using table_round_trip [of demo_table "demo_buffer 32" 3 demo_memory] by auto
qed

subsection \<open>What the decoder accepts\<close>

lemma get_bytes_length: "get_bytes l b off = Inr (bs, p) \<Longrightarrow> length bs = l"
  by (auto simp: get_bytes_def advance_Inr D_BYTES_def split: if_splits)

lemma get_longstr_valid: "get_longstr b off = Inr (s, p) \<Longrightarrow> longstr s"
  using unat_bound [where 'a = 32]
  by (auto simp: get_longstr_def dbind_Inr longstr_def dest!: get_bytes_length)

lemma unat_widen: "unat (ucast (v :: byte) :: u32) < 256"
proof -
  have "unat (ucast v :: u32) \<le> unat v"
    by (simp add: unsigned_ucast_eq take_bit_nat_less_eq_self)
  with unat_bound [of v] show ?thesis by simp
qed

lemma get_scalar_valid: "get_scalar kind b off = Inr (v, p) \<Longrightarrow> valid_value v"
  using unat_widen
  by (auto simp: get_scalar_def dbind_Inr dret_def dfail_def
      dest: get_longstr_valid split: if_splits)

lemma table_frame_loop:
  assumes "table_frame mem loop b off = Inr (es, p)"
  obtains lim where "loop lim b (off + 4) = Inr (es, p)" and "off + 4 \<le> length (buf_bytes b)"
  using assms
  by (auto simp: table_frame_def dbind_Inr c_malloc_Inr pool_alloc_Inr dret_def dest!: get_32_Inr)

lemma decode_entries_valid:
  "decode_entries mem lim n k b off = Inr (es, p) \<Longrightarrow> valid_entries es"
proof (induction mem lim n k b off arbitrary: es p rule: decode_entries.induct)
  case (1 mem lim n k b off)
  show ?case
  proof (cases "int off < lim")
    case False
    with 1(3) show ?thesis by (simp add: decode_entries.simps)
  next
    case True
    with 1(3) obtain kl p1 k' p2 key p3 kind p4 v p5 es' where
      r: "get_8 b off = Inr (kl, p1)" "grow_entries mem n k b p1 = Inr (k', p2)"
        "get_bytes (unat kl) b p2 = Inr (key, p3)" "get_8 b p3 = Inr (kind, p4)"
        "(if kind = kind_F
          then dbind (table_frame mem (\<lambda>lim. decode_entries mem lim 0 INITIAL_TABLE_SIZE))
                 (\<lambda>t. dret (Val_F t)) b p4
          else get_scalar kind b p4) = Inr (v, p5)"
        "decode_entries mem lim (n + 1) k' b p5 = Inr (es', p)"
      and es: "es = (key, v) # es'"
      by (subst (asm) decode_entries.simps) (auto simp: dbind_Inr dret_def)
    have "valid_value v"
    proof (cases "kind = kind_F")
      case True
      with r(5) obtain t where t: "v = Val_F t" "table_frame mem
          (\<lambda>lim. decode_entries mem lim 0 INITIAL_TABLE_SIZE) b p4 = Inr (t, p5)"
        by (auto simp: dbind_Inr dret_def)
      from t(2) obtain lim' where "decode_entries mem lim' 0 INITIAL_TABLE_SIZE b (p4 + 4) = Inr (t, p5)"
          "p4 + 4 \<le> length (buf_bytes b)"
        by (rule table_frame_loop)
      with 1(1) [OF \<open>int off < lim\<close> r(1-4) True] t(1) show ?thesis by simp
    next
      case False
      with r(5) get_scalar_valid show ?thesis by simp
    qed
    moreover have "valid_entries es'" by (rule 1(2) [OF True r(1-6)])
    moreover have "shortstr key"
      using get_bytes_length [OF r(3)] unat_bound [of kl] by (simp add: shortstr_def)
    ultimately show ?thesis by (simp add: es)
  qed
qed

text \<open>C23: On any bytes, at any offset of the payload, \<open>amqp_decode_table\<close> returns without
  undefined behaviour; where it succeeds it stopped inside the payload, after the size word, and
  what it built is a table the encoder can write again: keys below 256 bytes, known kinds.  This is as
  long as the pool can be extended; \<open>malloc\<close> may fail.\<close>

theorem decode_table_safe:
  assumes "\<And>n. pool_ok mem n" and "honest b" and "off \<le> buf_len b"
  shows "case amqp_decode_table mem b off of
      Inl e \<Rightarrow> \<forall>u. e \<noteq> Undefined u
    | Inr (t, p) \<Rightarrow> off \<le> p \<and> p \<le> buf_len b \<and> valid_entries t"
proof (cases "amqp_decode_table mem b off")
  case (Inr r)
  moreover have "valid_entries (fst r)"
    using Inr unfolding amqp_decode_table_def
    by (cases r) (auto elim!: table_frame_loop dest: decode_entries_valid)
  ultimately show ?thesis
    using safe_at [OF safe_decode_table [OF assms(1)] assms(2,3)] by (cases r) (simp add: safe_result_def)
qed (use safe_at [OF safe_decode_table [OF assms(1)] assms(2,3)] in \<open>simp add: safe_result_def\<close>)

theorem decode_table_safe_witness:
  "case amqp_decode_table demo_memory (demo_buffer 16) 3 of
      Inl e \<Rightarrow> \<forall>u. e \<noteq> Undefined u
    | Inr (t, p) \<Rightarrow> 3 \<le> p \<and> p \<le> 16 \<and> valid_entries t"
  using decode_table_safe [of demo_memory "demo_buffer 16" 3] by (simp only: demo_codec)

lemma table_limit_wraps:
  assumes "2 ^ 31 \<le> off + unat s" and "off < 2 ^ 31"
  shows "table_limit off s \<le> int off"
proof -
  let ?k = "int off + int (unat s)"
  from unat_bound [of s] have "int (unat s) < int (2 ^ LENGTH(32))" by (simp only: of_nat_less_iff)
  then have s: "int (unat s) < 2 ^ 32" by simp
  from assms(1) have "int (2 ^ 31) \<le> int (off + unat s)" by (simp only: of_nat_le_iff)
  then have k: "2 ^ 31 \<le> ?k" by simp
  have "word_of_nat off + s = (word_of_int ?k :: u32)" by simp
  moreover have "sint (word_of_int k :: u32) = signed_take_bit 31 k" for k
    by (simp add: signed_of_int)
  ultimately have "table_limit off s = signed_take_bit 31 ?k" unfolding table_limit_def by metis
  also have "\<dots> = (?k + 2 ^ 31) mod 2 ^ 32 - 2 ^ 31"
    by (simp add: signed_take_bit_eq_take_bit_shift take_bit_eq_mod)
  also have "\<dots> \<le> int off"
  proof (cases "?k + 2 ^ 31 < 2 ^ 33")
    case True
    with k have "(?k + 2 ^ 31) mod 2 ^ 32 = ?k + 2 ^ 31 - 2 ^ 32"
      by (intro int_mod_pos_eq [where q = 1]) simp_all
    with s show ?thesis by simp
  next
    case False
    with assms(2) s have "(?k + 2 ^ 31) mod 2 ^ 32 = ?k + 2 ^ 31 - 2 ^ 33"
      by (intro int_mod_pos_eq [where q = 2]) simp_all
    with s show ?thesis by simp
  qed
  finally show ?thesis .
qed

text \<open>A table whose claimed size reaches past the range of \<open>int\<close> is not refused: the limit wraps
  to a negative number or below the offset, the loop does not run, and the table is decoded as
  empty, its entries left to be read as the fields that follow.\<close>

theorem oversized_table_is_empty:
  assumes "honest b" and "get_32 b off = Inr (tablesize, off + 4)" and "2 ^ 31 \<le> off + 4 + unat tablesize"
    and "enough_memory mem"
  shows "amqp_decode_table mem b off = Inr ([], off + 4)"
proof -
  have "off + 4 < 2 ^ 31" using assms(1) get_32_Inr [OF assms(2)] by (simp add: honest_def)
  then have "table_limit (off + 4) tablesize \<le> int (off + 4)" using assms(3) by (intro table_limit_wraps)
  then have "decode_entries mem (table_limit (off + 4) tablesize) 0 INITIAL_TABLE_SIZE b (off + 4) =
      Inr ([], off + 4)"
    by (subst decode_entries.simps) simp
  then show ?thesis
    using assms(2,4)
    by (simp add: amqp_decode_table_def table_frame_def dbind_def c_malloc_def pool_alloc_def
        enough_memory_def dret_def)
qed

theorem oversized_table_is_empty_witness:
  "amqp_decode_table demo_memory \<lparr>buf_len = 5, buf_bytes = [0x80, 0, 0, 0, 1]\<rparr> 0 = Inr ([], 4)"
proof -
  have "get_32 \<lparr>buf_len = 5, buf_bytes = [0x80, 0, 0, 0, 1]\<rparr> 0 = Inr (0x80000000, 0 + 4)"
    by (simp add: get_32_def advance_def D_32_def D_BYTES_def CHECK_LIMIT_def be_nat_def)
  from oversized_table_is_empty [OF _ this, of demo_memory] show ?thesis
    by (simp add: honest_def)
qed

lemma emits_long_key:
  assumes "length key < 2 ^ 33" and "valid_value v"
  shows "emits (put_entries [(key, v)]) (word_of_nat (length key) # key @ kind_of v # wire_value v)"
  using emits_Cons [OF emits_8 emits_Cons [OF emits_bytes [OF assms(1)]
      emits_Cons [OF emits_value_entries(1) [OF assms(2)] emits_Cons [OF emits_nil emits_nil]]],
      of "word_of_nat (length key)"]
  by (simp del: enc_all.simps)

text \<open>A key of 256 bytes or more is not refused by the encoder: it writes all the bytes after a
  truncated length byte, and what it wrote never decodes to the table that was given.\<close>

theorem long_key_never_round_trips:
  assumes "256 \<le> length key" and "valid_value v" and "honest b"
    and "off + 6 + length key + length (wire_value v) \<le> buf_len b"
  shows "\<exists>b' p. amqp_encode_table [(key, v)] (b, off) = Inr (b', p) \<and>
    (\<forall>mem c p' p''. amqp_decode_table mem c p' \<noteq> Inr ([(key, v)], p''))"
proof -
  have len: "length key < 2 ^ 33" using assms(3,4) by (simp add: honest_def)
  have start: "\<exists>v' es. put_entries [(key, v)] = enc_all (put_8 v' # es)"
    unfolding put_entries.simps by blast
  have "emits (amqp_encode_table [(key, v)])
     (wire_32 (word_of_nat (length (word_of_nat (length key) # key @ kind_of v # wire_value v))) @
      word_of_nat (length key) # key @ kind_of v # wire_value v)"
    unfolding amqp_encode_table_def
    by (intro emits_frame emits_long_key len assms(2) disjI2 start)
  then have "\<exists>b' p. amqp_encode_table [(key, v)] (b, off) = Inr (b', p)"
    using assms(3,4) by (simp add: emits_def)
  moreover have "amqp_decode_table mem c p' \<noteq> Inr ([(key, v)], p'')" for mem c p' p''
  proof
    assume "amqp_decode_table mem c p' = Inr ([(key, v)], p'')"
    then have "valid_entries [(key, v)]"
      unfolding amqp_decode_table_def by (auto elim!: table_frame_loop dest: decode_entries_valid)
    with assms(1) show False by (simp add: shortstr_def)
  qed
  ultimately show ?thesis by blast
qed

theorem long_key_never_round_trips_witness:
  "\<exists>b' p. amqp_encode_table [(replicate 256 97, Val_I 0)] (demo_buffer 300, 0) = Inr (b', p) \<and>
     (\<forall>mem c p' p''. amqp_decode_table mem c p' \<noteq> Inr ([(replicate 256 97, Val_I 0)], p''))"
  by (rule long_key_never_round_trips) (simp_all add: honest_def demo_buffer_def)

subsection \<open>Order of entries\<close>

lemma entry_cmp_Nil [simp]:
  "amqp_table_entry_cmp ([], v) ([], w) = 0"
  "amqp_table_entry_cmp ([], v) (y # ys, w) = - 1 - int (length ys)"
  "amqp_table_entry_cmp (x # xs, v) ([], w) = 1 + int (length xs)"
  by (simp_all add: amqp_table_entry_cmp_def Let_def)

lemma entry_cmp_Cons [simp]:
  "amqp_table_entry_cmp (x # xs, v) (y # ys, w) =
     (if x = y then amqp_table_entry_cmp (xs, v) (ys, w) else uint x - uint y)"
  by (auto simp: amqp_table_entry_cmp_def Let_def word_uint_eq_iff)

text \<open>C24: \<open>amqp_table_entry_cmp\<close> is the lexicographic order of the keys as unsigned bytes, a shorter
  key before its extensions: negative, zero and positive exactly where that order is less, equal
  and greater; so it is a total order of the keys, as \<open>qsort\<close> needs.\<close>

theorem entry_cmp_lexicographic:
  "(amqp_table_entry_cmp (k1, v1) (k2, v2) < 0 \<longleftrightarrow> ord_class.lexordp k1 k2) \<and>
   (amqp_table_entry_cmp (k1, v1) (k2, v2) = 0 \<longleftrightarrow> k1 = k2) \<and>
   (0 < amqp_table_entry_cmp (k1, v1) (k2, v2) \<longleftrightarrow> ord_class.lexordp k2 k1)"
proof (induction k1 k2 rule: list_induct2')
  case (4 x xs y ys)
  then show ?case by (cases x y rule: linorder_cases) (auto simp: word_less_def)
qed (simp_all add: less_le)

end
