(* ===== verification/Pool.thy ===== *)
theory Pool
  imports Wire
begin

text \<open>
  Memory pools, \<open>src/src/librabbitmq/amqp_mem.c\<close>, over a heap of blocks.  A pool hands out parts
  of pages of a fixed size, and separate blocks for larger amounts; everything is released at
  once, by \<open>recycle_amqp_pool\<close> (the pages are kept for reuse) or \<open>empty_amqp_pool\<close>.
\<close>

section \<open>The heap\<close>

text \<open>
  Live blocks with their sizes.  Blocks are numbered in the order of their allocation, and
  \<open>grants k n\<close> is whether the allocation with number \<open>k\<close>, of \<open>n\<close> bytes, succeeds.
\<close>

record heap =
  blocks :: "nat \<rightharpoonup> nat"
  next_block :: nat
  grants :: "nat \<Rightarrow> nat \<Rightarrow> bool"

type_synonym 'a cmd = "heap \<Rightarrow> c_error + ('a \<times> heap)"

definition hret :: "'a \<Rightarrow> 'a cmd" where
  "hret x h = Inr (x, h)"

definition hfail :: "c_error \<Rightarrow> 'a cmd" where
  "hfail e h = Inl e"

definition hbind :: "'a cmd \<Rightarrow> ('a \<Rightarrow> 'b cmd) \<Rightarrow> 'b cmd" where
  "hbind m f h = (case m h of Inl e \<Rightarrow> Inl e | Inr (x, h') \<Rightarrow> f x h')"

text \<open>\<open>malloc\<close> and \<open>calloc\<close>, \<open>free\<close>, \<open>realloc\<close>.  \<open>None\<close> is NULL.\<close>

definition h_alloc :: "nat \<Rightarrow> nat option cmd" where
  "h_alloc n h =
     (let b = next_block h; h' = h\<lparr>next_block := b + 1\<rparr>
      in if grants h b n then Inr (Some b, h'\<lparr>blocks := (blocks h)(b \<mapsto> n)\<rparr>) else Inr (None, h'))"

definition h_free :: "nat \<Rightarrow> unit cmd" where
  "h_free b h =
     (if blocks h b = None then Inl (Undefined Use_After_Free)
      else Inr ((), h\<lparr>blocks := (blocks h)(b := None)\<rparr>))"

definition h_realloc :: "nat \<Rightarrow> nat \<Rightarrow> nat option cmd" where
  "h_realloc b n h =
     (if blocks h b = None then Inl (Undefined Use_After_Free)
      else hbind (h_alloc n) (\<lambda>r. case r of
          None \<Rightarrow> hret None
        | Some b' \<Rightarrow> hbind (h_free b) (\<lambda>_. hret (Some b'))) h)"

section \<open>Block lists\<close>

text \<open>\<open>amqp_pool_blocklist_t\<close>: the array of pointers is a heap block itself.\<close>

record blocklist =
  array :: "nat option"
  entries :: "nat list"

definition no_blocks :: blocklist where
  "no_blocks = \<lparr>array = None, entries = []\<rparr>"

fun free_entries :: "nat list \<Rightarrow> unit cmd" where
  "free_entries [] = hret ()"
| "free_entries (b # bs) = hbind (h_free b) (\<lambda>_. free_entries bs)"

definition empty_blocklist :: "blocklist \<Rightarrow> blocklist cmd" where
  "empty_blocklist x =
     hbind (free_entries (entries x)) (\<lambda>_.
     hbind (case array x of None \<Rightarrow> hret () | Some a \<Rightarrow> h_free a) (\<lambda>_.
     hret no_blocks))"

text \<open>\<open>True\<close> is the result 0, \<open>False\<close> is \<open>-ENOMEM\<close>.\<close>

definition record_pool_block :: "blocklist \<Rightarrow> nat \<Rightarrow> (bool \<times> blocklist) cmd" where
  "record_pool_block x block =
     (let blocklistlength = 8 * (length (entries x) + 1)
      in hbind (case array x of None \<Rightarrow> h_alloc blocklistlength | Some a \<Rightarrow> h_realloc a blocklistlength)
           (\<lambda>newbl. case newbl of
               None \<Rightarrow> hret (False, x)
             | Some a \<Rightarrow> hret (True, \<lparr>array = Some a, entries = entries x @ [block]\<rparr>)))"

section \<open>Pools\<close>

record amqp_pool =
  pagesize :: nat
  pages :: blocklist
  large_blocks :: blocklist
  next_page :: nat
  alloc_block :: "nat option"
  alloc_used :: nat

definition init_amqp_pool :: "nat \<Rightarrow> amqp_pool" where
  "init_amqp_pool n =
     \<lparr>pagesize = (if n \<noteq> 0 then n else 4096), pages = no_blocks, large_blocks = no_blocks,
      next_page = 0, alloc_block = None, alloc_used = 0\<rparr>"

definition recycle_amqp_pool :: "amqp_pool \<Rightarrow> amqp_pool cmd" where
  "recycle_amqp_pool p =
     hbind (empty_blocklist (large_blocks p)) (\<lambda>large.
     hret (p\<lparr>large_blocks := large, next_page := 0, alloc_block := None, alloc_used := 0\<rparr>))"

definition empty_amqp_pool :: "amqp_pool \<Rightarrow> amqp_pool cmd" where
  "empty_amqp_pool p =
     hbind (recycle_amqp_pool p) (\<lambda>p'.
     hbind (empty_blocklist (pages p')) (\<lambda>pg.
     hret (p'\<lparr>pages := pg\<rparr>)))"

text \<open>\<open>(amount + 7) & (~7)\<close> on a \<open>size_t\<close>.\<close>

definition round_up :: "nat \<Rightarrow> nat" where
  "round_up amount = (amount + 7) mod 2 ^ 64 div 8 * 8"

text \<open>A pointer is a block and an offset into it.  The last part: a page is started.\<close>

definition next_page_alloc :: "amqp_pool \<Rightarrow> nat \<Rightarrow> ((nat \<times> nat) option \<times> amqp_pool) cmd" where
  "next_page_alloc p amount =
     (if next_page p \<ge> length (entries (pages p))
      then
        hbind (h_alloc (pagesize p)) (\<lambda>block.
        case block of
          None \<Rightarrow> hret (None, p\<lparr>alloc_block := None\<rparr>)
        | Some b \<Rightarrow>
            hbind (record_pool_block (pages p) b) (\<lambda>(ok, pg).
            if \<not> ok then hret (None, p\<lparr>alloc_block := Some b\<rparr>)
            else hret (Some (b, 0),
                       p\<lparr>alloc_block := Some b, pages := pg, next_page := length (entries pg),
                         alloc_used := amount\<rparr>)))
      else
        let b = entries (pages p) ! next_page p
        in hret (Some (b, 0),
                 p\<lparr>alloc_block := Some b, next_page := next_page p + 1, alloc_used := amount\<rparr>))"

definition amqp_pool_alloc :: "amqp_pool \<Rightarrow> nat \<Rightarrow> ((nat \<times> nat) option \<times> amqp_pool) cmd" where
  "amqp_pool_alloc p amount0 =
     (if amount0 = 0 then hret (None, p)
      else
        let amount = round_up amount0
        in if amount > pagesize p
           then
             hbind (h_alloc amount) (\<lambda>result.
             case result of
               None \<Rightarrow> hret (None, p)
             | Some b \<Rightarrow>
                 hbind (record_pool_block (large_blocks p) b) (\<lambda>(ok, large).
                 hret (if ok then Some (b, 0) else None, p\<lparr>large_blocks := large\<rparr>)))
           else
             case alloc_block p of
               None \<Rightarrow> next_page_alloc p amount
             | Some b \<Rightarrow>
                 if alloc_used p > pagesize p then hfail Aborted
                 else let used = (alloc_used p + amount) mod 2 ^ 64
                      in if used \<le> pagesize p
                         then hret (Some (b, alloc_used p), p\<lparr>alloc_used := used\<rparr>)
                         else next_page_alloc p amount)"

text \<open>\<open>amqp_pool_alloc_bytes\<close> and \<open>amqp_bytes_malloc_dup\<close>: a length and a pointer, which may be NULL.\<close>

definition amqp_pool_alloc_bytes :: "amqp_pool \<Rightarrow> nat \<Rightarrow> ((nat \<times> (nat \<times> nat) option) \<times> amqp_pool) cmd" where
  "amqp_pool_alloc_bytes p amount =
     hbind (amqp_pool_alloc p amount) (\<lambda>(bytes, p'). hret ((amount, bytes), p'))"

definition amqp_bytes_malloc_dup :: "byte list \<Rightarrow> (nat \<times> (nat \<times> byte list) option) cmd" where
  "amqp_bytes_malloc_dup src =
     hbind (h_alloc (length src)) (\<lambda>block. hret (length src, map_option (\<lambda>b. (b, src)) block))"

section \<open>Running on the heap\<close>

definition heap_ok :: "heap \<Rightarrow> bool" where
  "heap_ok h \<longleftrightarrow> (\<forall>b. blocks h b \<noteq> None \<longrightarrow> b < next_block h)"

lemma heap_ok_fresh: "heap_ok h \<Longrightarrow> blocks h (next_block h) = None"
  unfolding heap_ok_def by (metis less_irrefl)

lemma heap_ok_step:
  "heap_ok h \<Longrightarrow> dom m \<subseteq> insert (next_block h) (dom (blocks h)) \<Longrightarrow>
     heap_ok (h\<lparr>blocks := m, next_block := Suc (next_block h)\<rparr>)"
  unfolding heap_ok_def by (auto simp: dom_def less_Suc_eq)

lemma heap_ok_next [simp]: "heap_ok h \<Longrightarrow> heap_ok (h\<lparr>next_block := Suc (next_block h)\<rparr>)"
  by (auto simp: heap_ok_def less_Suc_eq)

lemma hbind_simps [simp]:
  "m h = Inr (x, h') \<Longrightarrow> hbind m f h = f x h'" "m h = Inl e \<Longrightarrow> hbind m f h = Inl e"
  "hret x h = Inr (x, h)"
  by (simp_all add: hbind_def hret_def)

lemma h_alloc_cases:
  obtains (none) "h_alloc n h = Inr (None, h\<lparr>next_block := Suc (next_block h)\<rparr>)"
    "\<not> grants h (next_block h) n"
  | (some) "h_alloc n h = Inr (Some (next_block h),
      h\<lparr>blocks := (blocks h)(next_block h \<mapsto> n), next_block := Suc (next_block h)\<rparr>)"
    "grants h (next_block h) n"
  by (cases "grants h (next_block h) n") (simp_all add: h_alloc_def Let_def)

lemma h_free_live [simp]: "blocks h b = Some n \<Longrightarrow> h_free b h = Inr ((), h\<lparr>blocks := (blocks h)(b := None)\<rparr>)"
  by (simp add: h_free_def)

definition without :: "('a \<rightharpoonup> 'b) \<Rightarrow> 'a set \<Rightarrow> 'a \<rightharpoonup> 'b" where
  "without m S = (\<lambda>a. if a \<in> S then None else m a)"

lemma without_apply [simp]: "without m S a = (if a \<in> S then None else m a)"
  by (simp add: without_def)

lemma without_empty [simp]: "without m {} = m"
  by (simp add: without_def)

lemma free_entries_live:
  "set bs \<subseteq> dom (blocks h) \<Longrightarrow> distinct bs \<Longrightarrow>
     free_entries bs h = Inr ((), h\<lparr>blocks := without (blocks h) (set bs)\<rparr>)"
proof (induction bs arbitrary: h)
  case (Cons b bs)
  then obtain n where b: "blocks h b = Some n" by auto
  have "set bs \<subseteq> dom (blocks (h\<lparr>blocks := (blocks h)(b := None)\<rparr>))" and "distinct bs"
    using Cons.prems by auto
  from Cons.IH [OF this] have "free_entries bs (h\<lparr>blocks := (blocks h)(b := None)\<rparr>) =
      Inr ((), h\<lparr>blocks := without ((blocks h)(b := None)) (set bs)\<rparr>)"
    by (simp del: without_apply fun_upd_apply)
  moreover have "without ((blocks h)(b := None)) (set bs) = without (blocks h) (set (b # bs))"
    by (auto simp: without_def fun_eq_iff)
  ultimately show ?case using b by (simp only: free_entries.simps hbind_simps h_free_live)
qed (simp add: without_def)

definition list_blocks :: "blocklist \<Rightarrow> nat list" where
  "list_blocks x = entries x @ (case array x of None \<Rightarrow> [] | Some a \<Rightarrow> [a])"

lemma list_blocks_simps [simp]:
  "list_blocks \<lparr>array = None, entries = bs\<rparr> = bs"
  "list_blocks \<lparr>array = Some a, entries = bs\<rparr> = bs @ [a]"
  "list_blocks no_blocks = []" "entries no_blocks = []" "array no_blocks = None"
  by (simp_all add: list_blocks_def no_blocks_def)

lemma empty_blocklist_live:
  assumes "set (list_blocks x) \<subseteq> dom (blocks h)" and "distinct (list_blocks x)"
  shows "empty_blocklist x h = Inr (no_blocks, h\<lparr>blocks := without (blocks h) (set (list_blocks x))\<rparr>)"
proof -
  have f: "free_entries (entries x) h = Inr ((), h\<lparr>blocks := without (blocks h) (set (entries x))\<rparr>)"
    by (rule free_entries_live) (use assms in \<open>auto simp: list_blocks_def\<close>)
  show ?thesis
  proof (cases "array x")
    case None
    with f show ?thesis by (simp add: empty_blocklist_def list_blocks_def)
  next
    case (Some a)
    with assms obtain n where "blocks h a = Some n" "a \<notin> set (entries x)"
      by (auto simp: list_blocks_def)
    with f Some show ?thesis
      by (auto simp: empty_blocklist_def list_blocks_def without_def fun_eq_iff
          intro!: arg_cong [where f = "\<lambda>m. h\<lparr>blocks := m\<rparr>"])
  qed
qed

text \<open>What recording a block does: nothing, or a fresh array in the place of the old one.\<close>

lemma record_pool_block_cases:
  assumes "heap_ok h" and "set_option (array x) \<subseteq> dom (blocks h)"
  obtains (failed) "record_pool_block x block h = Inr ((False, x), h\<lparr>next_block := Suc (next_block h)\<rparr>)"
    "\<exists>n. \<not> grants h (next_block h) n"
  | (recorded) n where "record_pool_block x block h =
      Inr ((True, \<lparr>array = Some (next_block h), entries = entries x @ [block]\<rparr>),
           h\<lparr>blocks := (without (blocks h) (set_option (array x)))(next_block h \<mapsto> n),
             next_block := Suc (next_block h)\<rparr>)"
proof -
  define n where "n = 8 * (length (entries x) + 1)"
  have fresh: "blocks h (next_block h) = None" by (rule heap_ok_fresh [OF assms(1)])
  show thesis
  proof (cases "array x")
    case None
    then show ?thesis
      by (cases rule: h_alloc_cases [of n h])
         (auto simp: record_pool_block_def Let_def n_def without_def intro: that)
  next
    case (Some a)
    with assms(2) obtain m where a: "blocks h a = Some m" by auto
    with fresh have "a \<noteq> next_block h" by auto
    show ?thesis
    proof (cases rule: h_alloc_cases [of n h])
      case none
      with a Some show ?thesis
        by (auto simp: record_pool_block_def Let_def n_def h_realloc_def intro: that(1))
    next
      case some
      have "((blocks h)(next_block h \<mapsto> n))(a := None) = (without (blocks h) {a})(next_block h \<mapsto> n)"
        using \<open>a \<noteq> next_block h\<close> by (auto simp: without_def fun_eq_iff)
      moreover have "h_free a (h\<lparr>blocks := (blocks h)(next_block h \<mapsto> n), next_block := Suc (next_block h)\<rparr>) =
          Inr ((), h\<lparr>blocks := ((blocks h)(next_block h \<mapsto> n))(a := None),
                    next_block := Suc (next_block h)\<rparr>)"
        using a \<open>a \<noteq> next_block h\<close> by (simp add: h_free_def)
      ultimately show ?thesis
        using a Some some
        by (intro that(2) [of n])
           (simp add: record_pool_block_def Let_def n_def h_realloc_def del: fun_upd_apply)
    qed
  qed
qed

section \<open>The invariant\<close>

text \<open>
  A region is what one call handed out: a block, an offset and the number of bytes asked for.
  \<open>R\<close> below are the regions handed out since the pool was last recycled.
\<close>

type_synonym region = "nat \<times> nat \<times> nat"

fun disjoint_regions :: "region \<Rightarrow> region \<Rightarrow> bool" where
  "disjoint_regions (b, off, l) (b', off', l') \<longleftrightarrow> b \<noteq> b' \<or> off + l \<le> off' \<or> off' + l' \<le> off"

definition owned :: "amqp_pool \<Rightarrow> nat list" where
  "owned p = list_blocks (pages p) @ list_blocks (large_blocks p)"

definition arrays :: "amqp_pool \<Rightarrow> nat set" where
  "arrays p = set_option (array (pages p)) \<union> set_option (array (large_blocks p))"

definition fresh_pages :: "amqp_pool \<Rightarrow> nat set" where
  "fresh_pages p = set (drop (next_page p) (entries (pages p)))"

text \<open>
  A block that holds regions is live, is not one of the pointer arrays and is not a page that
  will be handed out again; in the current page everything below \<open>alloc_used\<close> is taken.
\<close>

definition in_use :: "amqp_pool \<Rightarrow> nat \<Rightarrow> bool" where
  "in_use p b \<longleftrightarrow> b \<notin> arrays p \<and> b \<notin> fresh_pages p"

definition region_ok :: "amqp_pool \<Rightarrow> heap \<Rightarrow> region \<Rightarrow> bool" where
  "region_ok p h = (\<lambda>(b, off, l). in_use p b \<and> 8 dvd off \<and>
     (\<exists>n. blocks h b = Some n \<and> off + l \<le> n) \<and>
     (alloc_block p = Some b \<longrightarrow> off + l \<le> alloc_used p))"

definition pool_inv :: "amqp_pool \<Rightarrow> heap \<Rightarrow> region list \<Rightarrow> bool" where
  "pool_inv p h R \<longleftrightarrow>
     heap_ok h \<and> 0 < pagesize p \<and> pagesize p < 2 ^ 63 \<and>
     next_page p \<le> length (entries (pages p)) \<and> alloc_used p \<le> pagesize p \<and> 8 dvd alloc_used p \<and>
     distinct (owned p) \<and> set (owned p) \<subseteq> dom (blocks h) \<and>
     (\<forall>b \<in> set (entries (pages p)). blocks h b = Some (pagesize p)) \<and>
     (\<forall>b. alloc_block p = Some b \<longrightarrow> in_use p b \<and> b \<notin> set (entries (large_blocks p)) \<and>
        blocks h b = Some (pagesize p)) \<and>
     (\<forall>r \<in> set R. region_ok p h r) \<and> sorted_wrt disjoint_regions R"

lemma init_pool_inv: "heap_ok h \<Longrightarrow> n < 2 ^ 63 \<Longrightarrow> pool_inv (init_amqp_pool n) h []"
  by (simp add: pool_inv_def init_amqp_pool_def owned_def)

lemma round_up_ge: "n < 2 ^ 64 - 7 \<Longrightarrow> n \<le> round_up n"
  by (simp add: round_up_def)

text \<open>In a page the sum of the offset and the amount does not wrap.\<close>

lemma used_small:
  "u \<le> k \<Longrightarrow> n \<le> k \<Longrightarrow> k < 2 ^ 63 \<Longrightarrow> (u + n) mod 2 ^ 64 = u + (n::nat)"
  by (intro mod_less) simp

lemma round_up_dvd [simp]: "8 dvd round_up n"
  by (simp add: round_up_def)

lemma pool_inv_region: "pool_inv p h R \<Longrightarrow> r \<in> set R \<Longrightarrow> region_ok p h r"
  by (simp add: pool_inv_def)

text \<open>A new region in the current page.\<close>

lemma bump_inv:
  assumes "pool_inv p h R" and "alloc_block p = Some b" and "alloc_used p + n \<le> pagesize p"
    and "8 dvd n" and "l \<le> n"
  shows "pool_inv (p\<lparr>alloc_used := alloc_used p + n\<rparr>) h ((b, alloc_used p, l) # R)"
  using assms
  by (auto simp: pool_inv_def owned_def region_ok_def in_use_def arrays_def fresh_pages_def
      intro: dvd_add)

text \<open>A page that was allocated before.\<close>

lemma reuse_page_inv:
  assumes "pool_inv p h R" and "next_page p < length (entries (pages p))" and "n \<le> pagesize p"
    and "8 dvd n" and "l \<le> n"
  shows "pool_inv (p\<lparr>alloc_block := Some (entries (pages p) ! next_page p),
           next_page := next_page p + 1, alloc_used := n\<rparr>) h ((entries (pages p) ! next_page p, 0, l) # R)"
    (is "pool_inv ?p h ((?b, 0, l) # R)")
proof -
  have fresh: "fresh_pages p = insert ?b (fresh_pages ?p)"
    using assms(2) by (simp add: fresh_pages_def Cons_nth_drop_Suc [symmetric])
  have d: "distinct (entries (pages p))" "set (entries (pages p)) \<inter> arrays p = {}"
      "set (entries (pages p)) \<inter> set (entries (large_blocks p)) = {}"
    using assms(1) by (auto simp: pool_inv_def owned_def list_blocks_def arrays_def split: option.splits)
  have b: "?b \<in> set (entries (pages p))" using assms(2) by simp
  then have b': "?b \<notin> set (entries (large_blocks p))" "?b \<notin> arrays p" using d by auto
  have "?b \<notin> fresh_pages ?p"
    using d(1) assms(2) by (auto simp: fresh_pages_def in_set_conv_nth nth_eq_iff_index_eq)
  then have use: "in_use ?p ?b" using b' by (simp add: in_use_def arrays_def)
  have old: "in_use ?p c" "c \<noteq> ?b" if "in_use p c" for c
    using that fresh by (auto simp: in_use_def arrays_def)
  have R: "region_ok ?p h r \<and> disjoint_regions (?b, 0, l) r" if "r \<in> set R" for r
    using pool_inv_region [OF assms(1) that] old [of "fst r"] by (cases r) (auto simp: region_ok_def)
  have "region_ok ?p h (?b, 0, l)"
    using use b assms(1,3,5) by (simp add: region_ok_def pool_inv_def)
  with R use b' b assms show ?thesis
    by (simp add: pool_inv_def owned_def)
qed

text \<open>More live blocks do not matter; a block that was just allocated is used by nothing.\<close>

definition unused :: "amqp_pool \<Rightarrow> region list \<Rightarrow> nat \<Rightarrow> bool" where
  "unused p R b \<longleftrightarrow> b \<notin> set (owned p) \<and> b \<notin> fst ` set R \<and> alloc_block p \<noteq> Some b"

lemma pool_inv_heap:
  assumes "pool_inv p h R" and "heap_ok h'" and le: "blocks h \<subseteq>\<^sub>m blocks h'"
  shows "pool_inv p h' R"
proof -
  have live: "blocks h' b = Some n" if "blocks h b = Some n" for b n
    using le that by (metis domI map_le_def)
  have "set (owned p) \<subseteq> dom (blocks h)" using assms(1) by (simp add: pool_inv_def)
  then have "set (owned p) \<subseteq> dom (blocks h')" using map_le_implies_dom_le [OF le] by (rule subset_trans)
  moreover have "region_ok p h' r" if "r \<in> set R" for r
    using pool_inv_region [OF assms(1) that] live by (cases r) (auto simp: region_ok_def)
  ultimately show ?thesis using assms(1,2) live by (simp add: pool_inv_def)
qed

lemma pool_inv_unused:
  assumes "pool_inv p h R" and "blocks h b = None"
  shows "unused p R b"
proof -
  have "b \<noteq> fst r" if "r \<in> set R" for r
    using pool_inv_region [OF assms(1) that] assms(2) by (cases r) (auto simp: region_ok_def)
  then show ?thesis using assms by (auto simp: unused_def pool_inv_def)
qed

lemma pool_inv_no_page: "pool_inv p h R \<Longrightarrow> pool_inv (p\<lparr>alloc_block := None\<rparr>) h R"
  by (auto simp: pool_inv_def region_ok_def owned_def in_use_def arrays_def fresh_pages_def)

lemma alloc_fresh:
  assumes "pool_inv p h R" and "h_alloc n h = Inr (Some b, h')"
  shows "pool_inv p h' R" and "unused p R b" and "blocks h' b = Some n"
proof -
  have h': "b = next_block h" "h' = h\<lparr>blocks := (blocks h)(b \<mapsto> n), next_block := Suc (next_block h)\<rparr>"
    using assms(2) by (auto simp: h_alloc_def Let_def split: if_splits)
  have ok: "heap_ok h" using assms(1) by (simp add: pool_inv_def)
  have "heap_ok h'" unfolding h' by (rule heap_ok_step [OF ok]) auto
  moreover have "blocks h \<subseteq>\<^sub>m blocks h'"
    using heap_ok_fresh [OF ok] by (auto simp: h' map_le_def)
  ultimately show "pool_inv p h' R" by (rule pool_inv_heap [OF assms(1)])
  show "unused p R b" using pool_inv_unused [OF assms(1)] heap_ok_fresh [OF ok] by (simp add: h'(1))
  show "blocks h' b = Some n" by (simp add: h'(2))
qed

lemma alloc_failed:
  assumes "pool_inv p h R" and "h_alloc n h = Inr (None, h')"
  shows "pool_inv p h' R"
proof -
  have h': "h' = h\<lparr>next_block := Suc (next_block h)\<rparr>"
    using assms(2) by (auto simp: h_alloc_def Let_def split: if_splits)
  show ?thesis
    by (rule pool_inv_heap [OF assms(1)]) (use assms(1) in \<open>simp_all add: h' pool_inv_def\<close>)
qed

text \<open>The pointer array of a list moves to a fresh block.\<close>

definition array_moved :: "blocklist \<Rightarrow> nat \<Rightarrow> heap \<Rightarrow> heap \<Rightarrow> bool" where
  "array_moved x a h h' \<longleftrightarrow> heap_ok h' \<and> blocks h a = None \<and>
     (\<exists>m. blocks h' = (without (blocks h) (set_option (array x)))(a \<mapsto> m))"

lemma array_moved_live:
  "array_moved x a h h' \<Longrightarrow> blocks h b = Some n \<Longrightarrow> array x \<noteq> Some b \<Longrightarrow> blocks h' b = Some n"
  by (auto simp: array_moved_def)

lemma move_array_inv:
  assumes inv: "pool_inv p h R" and moved: "array_moved x a h h'"
    and p': "x = pages p \<and> p' = p\<lparr>pages := (pages p)\<lparr>array := Some a\<rparr>\<rparr> \<or>
             x = large_blocks p \<and> p' = p\<lparr>large_blocks := (large_blocks p)\<lparr>array := Some a\<rparr>\<rparr>"
  shows "pool_inv p' h' R"
proof -
  have a: "blocks h a = None" using moved by (simp add: array_moved_def)
  have own: "distinct (owned p)" "set (owned p) \<subseteq> dom (blocks h)" "a \<notin> set (owned p)"
    using inv a by (auto simp: pool_inv_def)
  have live: "blocks h' b = Some n" if "blocks h b = Some n" "b \<notin> arrays p" for b n
    using array_moved_live [OF moved that(1)] that(2) p' by (auto simp: arrays_def)
  have use: "in_use p' b" if "in_use p b" "blocks h b = Some n" for b n
    using that a p' by (auto simp: in_use_def arrays_def fresh_pages_def)
  have p'_simps [simp]: "pagesize p' = pagesize p" "entries (pages p') = entries (pages p)"
      "entries (large_blocks p') = entries (large_blocks p)" "next_page p' = next_page p"
      "alloc_block p' = alloc_block p" "alloc_used p' = alloc_used p"
    using p' by auto
  have R: "region_ok p' h' r" if "r \<in> set R" for r
    using pool_inv_region [OF inv that] live use
    by (cases r) (fastforce simp: region_ok_def in_use_def)
  have set': "set (owned p') \<subseteq> insert a (set (owned p) - set_option (array x))"
    and dist: "distinct (owned p')"
    using own(1,3) p' by (auto simp: owned_def list_blocks_def split: option.splits)
  have "insert a (set (owned p) - set_option (array x)) \<subseteq> dom (blocks h')"
    using own(2) moved by (auto simp: array_moved_def dom_def subset_iff)
  with set' have "set (owned p') \<subseteq> dom (blocks h')" by (rule subset_trans)
  moreover have "blocks h' b = Some (pagesize p)" if "b \<in> set (entries (pages p))" for b
    using inv that own(1)
    by (intro live) (auto simp: pool_inv_def owned_def list_blocks_def arrays_def split: option.splits)
  moreover have "in_use p' b \<and> b \<notin> set (entries (large_blocks p)) \<and> blocks h' b = Some (pagesize p)"
    if "alloc_block p = Some b" for b
  proof -
    have b: "in_use p b" "blocks h b = Some (pagesize p)" "b \<notin> set (entries (large_blocks p))"
      using inv that by (auto simp: pool_inv_def)
    with use [OF b(1,2)] live [OF b(2)] show ?thesis by (simp add: in_use_def)
  qed
  ultimately show ?thesis
    using inv moved dist R by (auto simp: pool_inv_def array_moved_def)
qed

text \<open>A fresh block becomes the current page, or a large block.\<close>

lemma add_page_inv:
  assumes inv: "pool_inv p h R" and b: "unused p R b" "blocks h b = Some (pagesize p)"
    and n: "length (entries (pages p)) \<le> next_page p" "n \<le> pagesize p" "8 dvd n" "l \<le> n"
  shows "pool_inv (p\<lparr>alloc_block := Some b, pages := (pages p)\<lparr>entries := entries (pages p) @ [b]\<rparr>,
           next_page := Suc (length (entries (pages p))), alloc_used := n\<rparr>) h ((b, 0, l) # R)"
    (is "pool_inv ?p h _")
proof -
  have own: "b \<notin> set (owned p)" using b(1) by (simp add: unused_def)
  have use: "in_use ?p c" if "in_use p c" for c
    using that by (simp add: in_use_def arrays_def fresh_pages_def)
  have R: "region_ok ?p h r \<and> disjoint_regions (b, 0, l) r" if "r \<in> set R" for r
    using pool_inv_region [OF inv that] use b(1) that
    by (cases r) (force simp: region_ok_def unused_def)
  have "region_ok ?p h (b, 0, l)"
    using b n own by (auto simp: region_ok_def in_use_def arrays_def owned_def list_blocks_def
        fresh_pages_def split: option.splits)
  moreover have "in_use ?p b" "b \<notin> set (entries (large_blocks p))"
    using own by (auto simp: in_use_def arrays_def owned_def list_blocks_def fresh_pages_def
        split: option.splits)
  moreover have "distinct (owned ?p)" "set (owned ?p) = insert b (set (owned p))"
    using inv own by (auto simp: pool_inv_def owned_def list_blocks_def split: option.splits)
  ultimately show ?thesis using inv b n R by (auto simp: pool_inv_def)
qed

lemma add_large_inv:
  assumes inv: "pool_inv p h R" and b: "unused p R b" "blocks h b = Some n" "l \<le> n"
  shows "pool_inv (p\<lparr>large_blocks := (large_blocks p)\<lparr>entries := entries (large_blocks p) @ [b]\<rparr>\<rparr>)
           h ((b, 0, l) # R)" (is "pool_inv ?p h _")
proof -
  have own: "b \<notin> set (owned p)" using b(1) by (simp add: unused_def)
  have use: "in_use ?p c" if "in_use p c" for c
    using that by (simp add: in_use_def arrays_def fresh_pages_def)
  have R: "region_ok ?p h r \<and> disjoint_regions (b, 0, l) r" if "r \<in> set R" for r
    using pool_inv_region [OF inv that] use b(1) that
    by (cases r) (force simp: region_ok_def unused_def)
  have "region_ok ?p h (b, 0, l)"
    using b own by (auto simp: region_ok_def in_use_def arrays_def owned_def list_blocks_def unused_def
        fresh_pages_def dest: in_set_dropD split: option.splits)
  moreover have "distinct (owned ?p)" "set (owned ?p) = insert b (set (owned p))"
    using inv own by (auto simp: pool_inv_def owned_def list_blocks_def split: option.splits)
  ultimately show ?thesis using inv b R use by (auto simp: pool_inv_def unused_def)
qed

text \<open>A page that could not be recorded is used all the same.\<close>

lemma set_page_inv:
  assumes inv: "pool_inv p h R" and b: "unused p R b" "blocks h b = Some (pagesize p)"
  shows "pool_inv (p\<lparr>alloc_block := Some b\<rparr>) h R" (is "pool_inv ?p h R")
proof -
  have use: "in_use ?p c = in_use p c" for c
    by (simp add: in_use_def arrays_def fresh_pages_def)
  have "region_ok ?p h r" if "r \<in> set R" for r
    using pool_inv_region [OF inv that] use b(1) that
    by (cases r) (force simp: region_ok_def unused_def)
  moreover have "in_use p b" "b \<notin> set (entries (large_blocks p))"
    using b(1) by (auto simp: unused_def in_use_def arrays_def owned_def list_blocks_def fresh_pages_def
        dest: in_set_dropD split: option.splits)
  ultimately show ?thesis using inv b use by (simp add: pool_inv_def owned_def)
qed

section \<open>The operations keep the invariant\<close>

lemma record_inv_cases:
  assumes inv: "pool_inv p h R" and x: "x = pages p \<or> x = large_blocks p"
  obtains (failed) h' where "record_pool_block x b h = Inr ((False, x), h')" and "pool_inv p h' R"
      and "blocks h' = blocks h"
  | (recorded) a h' where "record_pool_block x b h = Inr ((True, \<lparr>array = Some a, entries = entries x @ [b]\<rparr>), h')"
      and "array_moved x a h h'"
proof -
  have ok: "heap_ok h" and live: "set (owned p) \<subseteq> dom (blocks h)" using inv by (auto simp: pool_inv_def)
  have arr: "set_option (array x) \<subseteq> dom (blocks h)"
    using live x by (auto simp: owned_def list_blocks_def)
  show thesis
  proof (cases rule: record_pool_block_cases [of h x b, OF ok arr])
    case 1
    moreover have "pool_inv p (h\<lparr>next_block := Suc (next_block h)\<rparr>) R"
      by (rule pool_inv_heap [OF inv]) (simp_all add: ok)
    ultimately show ?thesis by (intro that(1) [of "h\<lparr>next_block := Suc (next_block h)\<rparr>"]) simp_all
  next
    case (2 n)
    moreover have "array_moved x (next_block h) h
        (h\<lparr>blocks := (without (blocks h) (set_option (array x)))(next_block h \<mapsto> n),
           next_block := Suc (next_block h)\<rparr>)"
      unfolding array_moved_def using ok heap_ok_fresh [OF ok]
      by (auto intro!: heap_ok_step split: if_splits)
    ultimately show ?thesis by (intro that(2))
  qed
qed

lemma blocklist_eq [simp]: "x\<lparr>array := a, entries := bs\<rparr> = \<lparr>array = a, entries = bs\<rparr>"
  by (cases x) simp

lemma unused_moved:
  assumes "unused p R b" and "blocks h b = Some n" and "x = pages p \<or> x = large_blocks p"
    and "array_moved x a h h'"
  shows "blocks h' b = Some n" and "b \<noteq> a"
proof -
  show "b \<noteq> a" using assms(2,4) by (auto simp: array_moved_def)
  have "array x \<noteq> Some b" using assms(1,3) by (auto simp: unused_def owned_def list_blocks_def)
  then show "blocks h' b = Some n" using array_moved_live [OF assms(4,2)] by simp
qed

lemma next_page_alloc_inv:
  assumes inv: "pool_inv p h R" and n: "n \<le> pagesize p" "8 dvd n" "l \<le> n"
  obtains (none) p' h' where "next_page_alloc p n h = Inr ((None, p'), h')" and "pool_inv p' h' R"
  | (some) b off p' h' where "next_page_alloc p n h = Inr ((Some (b, off), p'), h')"
      and "pool_inv p' h' ((b, off, l) # R)"
proof (cases "next_page p \<ge> length (entries (pages p))")
  case False
  then have "next_page p < length (entries (pages p))" by simp
  from reuse_page_inv [OF inv this n] False show ?thesis
    by (intro that(2)) (simp_all add: next_page_alloc_def Let_def)
next
  case True
  note full = True
  show ?thesis
  proof (cases rule: h_alloc_cases [of "pagesize p" h])
    case none
    with full show ?thesis
      using pool_inv_no_page [OF alloc_failed [OF inv none(1)]]
      by (intro that(1)) (simp_all add: next_page_alloc_def)
  next
    case some
    define h1 where "h1 = h\<lparr>blocks := (blocks h)(next_block h \<mapsto> pagesize p), next_block := Suc (next_block h)\<rparr>"
    define b where "b = next_block h"
    have al: "h_alloc (pagesize p) h = Inr (Some b, h1)" using some(1) by (simp add: h1_def b_def)
    note fresh = alloc_fresh [OF inv al]
    show ?thesis
    proof (cases rule: record_inv_cases [OF fresh(1) disjI1 [OF refl], where b = b])
      case (1 h2)
      have "pool_inv (p\<lparr>alloc_block := Some b\<rparr>) h2 R"
        using set_page_inv [OF 1(2) fresh(2)] fresh(3) 1(3) by simp
      with full al 1(1) show ?thesis
        by (intro that(1)) (simp_all add: next_page_alloc_def)
    next
      case (2 a h2)
      let ?p = "p\<lparr>pages := (pages p)\<lparr>array := Some a\<rparr>\<rparr>"
      have inv2: "pool_inv ?p h2 R"
        by (rule move_array_inv [OF fresh(1) 2(2)]) simp
      note mv = unused_moved [OF fresh(2,3) disjI1 [OF refl] 2(2)]
      have "unused ?p R b"
        using fresh(2) mv(2) by (auto simp: unused_def owned_def list_blocks_def)
      then have "pool_inv (p\<lparr>alloc_block := Some b, pages := \<lparr>array = Some a, entries = entries (pages p) @ [b]\<rparr>,
          next_page := Suc (length (entries (pages p))), alloc_used := n\<rparr>) h2 ((b, 0, l) # R)"
        using add_page_inv [OF inv2, of b n l] mv(1) n full by simp
      with full al 2(1) show ?thesis
        by (intro that(2)) (simp_all add: next_page_alloc_def)
    qed
  qed
qed


lemma amqp_pool_alloc_inv:
  assumes inv: "pool_inv p h R" and n: "n < 2 ^ 64 - 7"
  obtains (none) p' h' where "amqp_pool_alloc p n h = Inr ((None, p'), h')" and "pool_inv p' h' R"
  | (some) b off p' h' where "amqp_pool_alloc p n h = Inr ((Some (b, off), p'), h')"
      and "pool_inv p' h' ((b, off, n) # R)"
proof (cases "n = 0")
  case True
  then show ?thesis by (intro that(1) [of p h]) (simp_all add: amqp_pool_alloc_def inv)
next
  case False
  note n0 = this round_up_ge [OF n]
  show ?thesis
  proof (cases "pagesize p < round_up n")
    case large: True
    show ?thesis
    proof (cases rule: h_alloc_cases [of "round_up n" h])
      case none
      with large n0(1) alloc_failed [OF inv none(1)] show ?thesis
        by (intro that(1)) (simp_all add: amqp_pool_alloc_def Let_def)
    next
      case some
      define b h1 where "b = next_block h"
        and "h1 = h\<lparr>blocks := (blocks h)(b \<mapsto> round_up n), next_block := Suc b\<rparr>"
      have al: "h_alloc (round_up n) h = Inr (Some b, h1)" using some(1) by (simp add: h1_def b_def)
      note fresh = alloc_fresh [OF inv al]
      show ?thesis
      proof (cases rule: record_inv_cases [OF fresh(1) disjI2 [OF refl], where b = b])
        case (1 h2)
        with large n0(1) al show ?thesis
          by (intro that(1)) (simp_all add: amqp_pool_alloc_def Let_def)
      next
        case (2 a h2)
        let ?p = "p\<lparr>large_blocks := (large_blocks p)\<lparr>array := Some a\<rparr>\<rparr>"
        have inv2: "pool_inv ?p h2 R"
          by (rule move_array_inv [OF fresh(1) 2(2)]) simp
        note mv = unused_moved [OF fresh(2,3) disjI2 [OF refl] 2(2)]
        have "unused ?p R b"
          using fresh(2) mv(2) by (auto simp: unused_def owned_def list_blocks_def)
        from add_large_inv [OF inv2 this mv(1) n0(2)] large n0(1) al 2(1) show ?thesis
          by (intro that(2)) (simp_all add: amqp_pool_alloc_def Let_def)
      qed
    qed
  next
    case small: False
    have "(alloc_used p + round_up n) mod 2 ^ 64 = alloc_used p + round_up n"
      using inv small by (intro used_small [of _ "pagesize p"]) (auto simp: pool_inv_def)
    then have sum: "(alloc_used p + round_up n) mod 18446744073709551616 = alloc_used p + round_up n"
      by simp
    show ?thesis
    proof (cases "\<exists>b. alloc_block p = Some b \<and> alloc_used p + round_up n \<le> pagesize p")
      case True
      then obtain b where b: "alloc_block p = Some b" "alloc_used p + round_up n \<le> pagesize p" by blast
      from bump_inv [OF inv this round_up_dvd n0(2)] b small n0(1) show ?thesis
        by (intro that(2)) (simp_all add: amqp_pool_alloc_def Let_def sum)
    next
      case False
      have "\<not> pagesize p < alloc_used p" using inv by (auto simp: pool_inv_def)
      with False small n0(1) have eq: "amqp_pool_alloc p n h = next_page_alloc p (round_up n) h"
        by (auto simp: amqp_pool_alloc_def Let_def sum split: option.splits)
      have "round_up n \<le> pagesize p" using small by simp
      from next_page_alloc_inv [OF inv this round_up_dvd n0(2)] eq that show ?thesis by metis
    qed
  qed
qed

lemma owned_parts:
  "pool_inv p h R \<Longrightarrow> set (list_blocks (pages p)) \<subseteq> dom (blocks h) \<and> distinct (list_blocks (pages p)) \<and>
     set (list_blocks (large_blocks p)) \<subseteq> dom (blocks h) \<and> distinct (list_blocks (large_blocks p)) \<and>
     set (list_blocks (pages p)) \<inter> set (list_blocks (large_blocks p)) = {}"
  by (auto simp: pool_inv_def owned_def)

lemma recycle_eq:
  assumes "pool_inv p h R"
  shows "recycle_amqp_pool p h =
    Inr (p\<lparr>large_blocks := no_blocks, next_page := 0, alloc_block := None, alloc_used := 0\<rparr>,
         h\<lparr>blocks := without (blocks h) (set (list_blocks (large_blocks p)))\<rparr>)"
  using owned_parts [OF assms] by (simp add: recycle_amqp_pool_def empty_blocklist_live)

lemma heap_ok_without [simp]: "heap_ok h \<Longrightarrow> heap_ok (h\<lparr>blocks := without (blocks h) S\<rparr>)"
  by (simp add: heap_ok_def)

lemma recycle_inv:
  assumes inv: "pool_inv p h R"
  shows "pool_inv (p\<lparr>large_blocks := no_blocks, next_page := 0, alloc_block := None, alloc_used := 0\<rparr>)
    (h\<lparr>blocks := without (blocks h) (set (list_blocks (large_blocks p)))\<rparr>) []"
proof -
  have "b \<notin> set (list_blocks (large_blocks p))" if "b \<in> set (entries (pages p))" for b
    using owned_parts [OF inv] that by (auto simp: list_blocks_def)
  then show ?thesis
    using inv owned_parts [OF inv] by (auto simp: pool_inv_def owned_def)
qed

lemma empty_eq:
  assumes "pool_inv p h R"
  shows "empty_amqp_pool p h =
    Inr (p\<lparr>large_blocks := no_blocks, next_page := 0, alloc_block := None, alloc_used := 0, pages := no_blocks\<rparr>,
         h\<lparr>blocks := without (blocks h) (set (owned p))\<rparr>)"
proof -
  have "set (list_blocks (pages p)) \<subseteq> dom (without (blocks h) (set (list_blocks (large_blocks p))))"
    using owned_parts [OF assms] by (auto simp: dom_def without_def)
  moreover have "without (without (blocks h) (set (list_blocks (large_blocks p)))) (set (list_blocks (pages p))) =
      without (blocks h) (set (owned p))"
    by (auto simp: without_def owned_def fun_eq_iff)
  ultimately show ?thesis
    using owned_parts [OF assms]
    by (simp add: empty_amqp_pool_def recycle_eq [OF assms] empty_blocklist_live del: without_apply)
qed

lemma empty_inv:
  assumes "pool_inv p h R"
  shows "pool_inv (p\<lparr>large_blocks := no_blocks, next_page := 0, alloc_block := None, alloc_used := 0, pages := no_blocks\<rparr>)
    (h\<lparr>blocks := without (blocks h) (set (owned p))\<rparr>) []"
  using assms by (auto simp: pool_inv_def owned_def)

section \<open>Sequences of operations\<close>

datatype pool_op = Pool_Alloc nat | Pool_Recycle | Pool_Empty

text \<open>One call by a client that remembers what it was given since the pool was last emptied.\<close>

fun pool_call :: "pool_op \<Rightarrow> amqp_pool \<times> region list \<Rightarrow> (amqp_pool \<times> region list) cmd" where
  "pool_call (Pool_Alloc n) (p, R) =
     hbind (amqp_pool_alloc p n) (\<lambda>(r, p').
       hret (p', (case r of None \<Rightarrow> R | Some (b, off) \<Rightarrow> (b, off, n) # R)))"
| "pool_call Pool_Recycle (p, R) = hbind (recycle_amqp_pool p) (\<lambda>p'. hret (p', []))"
| "pool_call Pool_Empty (p, R) = hbind (empty_amqp_pool p) (\<lambda>p'. hret (p', []))"

fun pool_run :: "pool_op list \<Rightarrow> amqp_pool \<times> region list \<Rightarrow> (amqp_pool \<times> region list) cmd" where
  "pool_run [] s = hret s"
| "pool_run (c # cs) s = hbind (pool_call c s) (pool_run cs)"

text \<open>No request is so large that rounding it up wraps around.\<close>

definition sizes_ok :: "pool_op list \<Rightarrow> bool" where
  "sizes_ok cs \<longleftrightarrow> list_all (\<lambda>c. case c of Pool_Alloc n \<Rightarrow> n < 2 ^ 64 - 7 | _ \<Rightarrow> True) cs"

lemma sizes_ok_simps [simp]:
  "sizes_ok []" "sizes_ok (Pool_Alloc n # cs) \<longleftrightarrow> n < 2 ^ 64 - 7 \<and> sizes_ok cs"
  "sizes_ok (Pool_Recycle # cs) = sizes_ok cs" "sizes_ok (Pool_Empty # cs) = sizes_ok cs"
  by (simp_all add: sizes_ok_def)

lemma pool_call_inv:
  assumes "pool_inv p h R" and "sizes_ok [c]"
  obtains p' R' h' where "pool_call c (p, R) h = Inr ((p', R'), h')" and "pool_inv p' h' R'"
proof (cases c)
  case (Pool_Alloc n)
  with assms have "n < 2 ^ 64 - 7" by simp
  from amqp_pool_alloc_inv [OF assms(1) this] show ?thesis
    by cases (use Pool_Alloc in \<open>auto intro!: that\<close>)
next
  case Pool_Recycle
  with recycle_inv [OF assms(1)] recycle_eq [OF assms(1)] show ?thesis by (intro that) simp_all
next
  case Pool_Empty
  with empty_inv [OF assms(1)] empty_eq [OF assms(1)] show ?thesis by (intro that) simp_all
qed

lemma sizes_ok_Cons: "sizes_ok (c # cs) \<longleftrightarrow> sizes_ok [c] \<and> sizes_ok cs"
  by (simp add: sizes_ok_def)

lemma pool_run_inv:
  assumes "pool_inv p h R" and "sizes_ok cs"
  obtains p' R' h' where "pool_run cs (p, R) h = Inr ((p', R'), h')" and "pool_inv p' h' R'"
  using assms
proof (induction cs arbitrary: p h R thesis)
  case (Cons c cs)
  then have ok: "sizes_ok [c]" "sizes_ok cs" using sizes_ok_Cons by blast+
  from pool_call_inv [OF Cons.prems(2) ok(1)] obtain p1 R1 h1
    where "pool_call c (p, R) h = Inr ((p1, R1), h1)" and inv: "pool_inv p1 h1 R1" .
  moreover from Cons.IH [OF _ inv ok(2)] obtain p' R' h'
    where "pool_run cs (p1, R1) h1 = Inr ((p', R'), h')" and "pool_inv p' h' R'" .
  ultimately show ?case by (intro Cons.prems(1) [of p' R' h']) simp_all
qed simp

section \<open>Nothing is leaked while memory is granted\<close>

text \<open>How an operation moves blocks between the pool and the rest of the heap.\<close>

definition moves :: "amqp_pool \<Rightarrow> heap \<Rightarrow> amqp_pool \<Rightarrow> heap \<Rightarrow> bool" where
  "moves p h p' h' \<longleftrightarrow> grants h' = grants h \<and>
     (\<forall>b. if b \<in> set (owned p')
          then b \<in> set (owned p) \<or> blocks h b = None
          else blocks h' b = (if b \<in> set (owned p) then None else blocks h b))"

definition leak_free :: "heap \<Rightarrow> amqp_pool \<Rightarrow> heap \<Rightarrow> bool" where
  "leak_free h0 p h \<longleftrightarrow>
     (\<forall>b. if b \<in> set (owned p) then blocks h0 b = None else blocks h b = blocks h0 b)"

lemma moves_refl: "owned p' = owned p \<Longrightarrow> moves p h p' h"
  by (simp add: moves_def)

lemma leak_free_moves: "leak_free h0 p h \<Longrightarrow> moves p h p' h' \<Longrightarrow> leak_free h0 p' h'"
  unfolding leak_free_def moves_def by metis

lemma record_moves:
  assumes inv: "pool_inv p h R" and all: "\<And>k n. grants h k n" and al: "h_alloc n h = Inr (Some b, h1)"
    and rec: "record_pool_block x b h1 = Inr ((ok, x'), h')"
    and p': "x = pages p \<and> p' = p\<lparr>pages := x'\<rparr> \<or> x = large_blocks p \<and> p' = p\<lparr>large_blocks := x'\<rparr>"
  shows "ok" and "moves p h p' h'"
proof -
  have h1: "b = next_block h" "h1 = h\<lparr>blocks := (blocks h)(b \<mapsto> n), next_block := Suc (next_block h)\<rparr>"
    using al by (auto simp: h_alloc_def Let_def split: if_splits)
  have ok: "heap_ok h" using inv by (simp add: pool_inv_def)
  have ok1: "heap_ok h1" using alloc_fresh(1) [OF inv al] by (simp add: pool_inv_def)
  have live: "set (owned p) \<subseteq> dom (blocks h)" using inv by (simp add: pool_inv_def)
  with p' have arr: "set_option (array x) \<subseteq> dom (blocks h1)"
    by (auto simp: owned_def list_blocks_def h1)
  have fresh: "blocks h b = None" "blocks h (Suc b) = None"
    using ok by (auto simp: heap_ok_def h1)
  have own: "b \<notin> set (owned p)" "Suc b \<notin> set (owned p)" using live fresh by auto
  have "distinct (owned p)" using inv by (simp add: pool_inv_def)
  then have "ok \<and> moves p h p' h'"
  proof (cases rule: record_pool_block_cases [of h1 x b, OF ok1 arr])
    case 1
    with all show ?thesis by (simp add: h1)
  next
    case (2 m)
    then have x': "ok" "x' = \<lparr>array = Some (Suc b), entries = entries x @ [b]\<rparr>"
      and h': "h' = h1\<lparr>blocks := (without (blocks h1) (set_option (array x)))(Suc b \<mapsto> m),
           next_block := Suc (next_block h1)\<rparr>"
      using rec by (auto simp: h1)
    have o': "set (owned p') = insert b (insert (Suc b) (set (owned p) - set_option (array x)))"
      using p' x'(2) \<open>distinct (owned p)\<close> by (auto simp: owned_def list_blocks_def split: option.splits)
    have "grants h' = grants h" by (simp add: h' h1(2))
    moreover have "set_option (array x) \<subseteq> set (owned p)"
      using p' by (auto simp: owned_def list_blocks_def)
    then have "blocks h' c = (if c \<in> set (owned p) then None else blocks h c)" if "c \<notin> set (owned p')" for c
      using that o' by (auto simp: h' h1(2) without_def)
    ultimately show ?thesis using x'(1) fresh o' by (auto simp: moves_def)
  qed
  then show "ok" "moves p h p' h'" by simp_all
qed

lemma alloc_granted:
  "(\<And>k n. grants h k n) \<Longrightarrow> \<exists>b h'. h_alloc n h = Inr (Some b, h')"
  by (simp add: h_alloc_def Let_def)

lemma next_page_alloc_moves:
  assumes inv: "pool_inv p h R" and all: "\<And>k n. grants h k n"
    and eq: "next_page_alloc p n h = Inr ((r, p'), h')"
  shows "moves p h p' h' \<and> r \<noteq> None"
proof (cases "next_page p \<ge> length (entries (pages p))")
  case False
  with eq show ?thesis
    by (auto simp: next_page_alloc_def Let_def hret_def owned_def intro: moves_refl)
next
  case True
  from alloc_granted [OF all] obtain b h1 where al: "h_alloc (pagesize p) h = Inr (Some b, h1)" by blast
  from alloc_fresh(1) [OF inv al] have "pool_inv p h1 R" .
  then obtain ok x' h2 where rec: "record_pool_block (pages p) b h1 = Inr ((ok, x'), h2)"
    by (cases rule: record_inv_cases [of p h1 R "pages p" b]) auto
  note m = record_moves [OF inv all al rec disjI1 [OF conjI [OF refl refl]]]
  from True al rec m(1) eq have "p' = p\<lparr>alloc_block := Some b, pages := x',
      next_page := length (entries x'), alloc_used := n\<rparr>" "h' = h2" "r \<noteq> None"
    by (auto simp: next_page_alloc_def hret_def)
  moreover from this(1) have "owned p' = owned (p\<lparr>pages := x'\<rparr>)" by (simp add: owned_def)
  ultimately show ?thesis using m(2) by (simp add: moves_def)
qed

lemma amqp_pool_alloc_moves:
  assumes inv: "pool_inv p h R" and all: "\<And>k n. grants h k n"
    and eq: "amqp_pool_alloc p n h = Inr ((r, p'), h')"
  shows "moves p h p' h' \<and> (n \<noteq> 0 \<longrightarrow> r \<noteq> None)"
proof (cases "n = 0")
  case True
  with eq show ?thesis by (auto simp: amqp_pool_alloc_def hret_def intro: moves_refl)
next
  case n0: False
  show ?thesis
  proof (cases "pagesize p < round_up n")
    case True
    from alloc_granted [OF all] obtain b h1 where al: "h_alloc (round_up n) h = Inr (Some b, h1)" by blast
    from alloc_fresh(1) [OF inv al] have "pool_inv p h1 R" .
    then obtain ok x' h2 where rec: "record_pool_block (large_blocks p) b h1 = Inr ((ok, x'), h2)"
      by (cases rule: record_inv_cases [of p h1 R "large_blocks p" b]) auto
    note m = record_moves [OF inv all al rec disjI2 [OF conjI [OF refl refl]]]
    from True n0 al rec m(1) eq have "p' = p\<lparr>large_blocks := x'\<rparr>" "h' = h2" "r \<noteq> None"
      by (auto simp: amqp_pool_alloc_def Let_def hret_def)
    with m(2) show ?thesis by simp
  next
    case False
    show ?thesis
    proof (cases "next_page_alloc p (round_up n) h = Inr ((r, p'), h')")
      case True
      from next_page_alloc_moves [OF inv all this] show ?thesis by simp
    next
      case np: False
      from False n0 eq np have "owned p' = owned p" "h' = h" "r \<noteq> None"
        by (auto simp: amqp_pool_alloc_def Let_def hret_def hfail_def owned_def
            split: option.splits if_splits)
      then show ?thesis using moves_refl by simp
    qed
  qed
qed

lemma pool_call_moves:
  assumes inv: "pool_inv p h R" and all: "\<And>k n. grants h k n"
    and eq: "pool_call c (p, R) h = Inr ((p', R'), h')"
  shows "moves p h p' h'"
proof (cases c)
  case (Pool_Alloc n)
  with eq obtain r where "amqp_pool_alloc p n h = Inr ((r, p'), h')"
    by (auto simp: hbind_def hret_def split: sum.splits prod.splits)
  from amqp_pool_alloc_moves [OF inv all this] show ?thesis by simp
next
  case Pool_Recycle
  with eq have p': "p' = p\<lparr>large_blocks := no_blocks, next_page := 0, alloc_block := None, alloc_used := 0\<rparr>"
      "h' = h\<lparr>blocks := without (blocks h) (set (list_blocks (large_blocks p)))\<rparr>"
    by (auto simp: recycle_eq [OF inv])
  show ?thesis unfolding p' using owned_parts [OF inv] by (auto simp: moves_def owned_def)
next
  case Pool_Empty
  with eq have p': "p' = p\<lparr>large_blocks := no_blocks, next_page := 0, alloc_block := None, alloc_used := 0,
        pages := no_blocks\<rparr>" "h' = h\<lparr>blocks := without (blocks h) (set (owned p))\<rparr>"
    by (auto simp: empty_eq [OF inv])
  show ?thesis unfolding p' by (simp add: moves_def owned_def)
qed

lemma pool_run_leak_free:
  "pool_inv p h R \<Longrightarrow> (\<And>k n. grants h k n) \<Longrightarrow> leak_free h0 p h \<Longrightarrow> sizes_ok cs \<Longrightarrow>
     pool_run cs (p, R) h = Inr ((p', R'), h') \<Longrightarrow> leak_free h0 p' h'"
proof (induction cs arbitrary: p h R)
  case (Cons c cs)
  from Cons.prems(4) have ok: "sizes_ok [c]" "sizes_ok cs" using sizes_ok_Cons by blast+
  from pool_call_inv [OF Cons.prems(1) ok(1)] obtain p1 R1 h1
    where call: "pool_call c (p, R) h = Inr ((p1, R1), h1)" and inv: "pool_inv p1 h1 R1" .
  note m = pool_call_moves [OF Cons.prems(1,2) call]
  from m Cons.prems(2) have "\<And>k n. grants h1 k n" by (simp add: moves_def)
  from Cons.IH [OF inv this leak_free_moves [OF Cons.prems(3) m] ok(2)] Cons.prems(5) call
  show ?case by simp
qed simp

lemma pool_run_snoc:
  "pool_run (cs @ [c]) s h = hbind (pool_run cs s) (pool_call c) h"
proof (induction cs arbitrary: s h)
  case Nil
  show ?case by (auto simp: hbind_def split: sum.splits)
next
  case (Cons c' cs)
  then show ?case by (auto simp: hbind_def fun_eq_iff split: sum.splits)
qed

lemma pool_run_emptied:
  assumes "pool_inv p h R" and "sizes_ok cs" and "pool_run (cs @ [Pool_Empty]) (p, R) h = Inr ((p', R'), h')"
  shows "owned p' = []"
proof -
  from pool_run_inv [OF assms(1,2)] obtain p1 R1 h1
    where "pool_run cs (p, R) h = Inr ((p1, R1), h1)" and "pool_inv p1 h1 R1" .
  with assms(3) show ?thesis by (auto simp: pool_run_snoc empty_eq owned_def)
qed

section \<open>Properties\<close>

definition demo_heap :: "(nat \<Rightarrow> bool) \<Rightarrow> heap" where
  "demo_heap g = \<lparr>blocks = Map.empty, next_block = 0, grants = (\<lambda>k n. g k)\<rparr>"

text \<open>C36: In any sequence of allocations, recyclings and emptyings in which no request is larger than
  \<open>2 ^ 64 - 8\<close> bytes, and with pages of less than \<open>2 ^ 63\<close> bytes, with memory granted or refused at any
  point, the pool never frees a block twice or trips its assertion, and the regions handed out since the last
  recycling are pairwise disjoint, aligned to 8 bytes and lie inside live blocks.  (Rounding up a larger
  request wraps to 0, and the region has no room.)\<close>

theorem pool_regions_disjoint:
  assumes "heap_ok h" and "n < 2 ^ 63" and "sizes_ok cs"
  shows "\<exists>p R h'. pool_run cs (init_amqp_pool n, []) h = Inr ((p, R), h') \<and>
    sorted_wrt disjoint_regions R \<and>
    (\<forall>(b, off, l) \<in> set R. 8 dvd off \<and> (\<exists>size. blocks h' b = Some size \<and> off + l \<le> size))"
proof -
  from pool_run_inv [OF init_pool_inv [OF assms(1,2)] assms(3)] obtain p R h'
    where "pool_run cs (init_amqp_pool n, []) h = Inr ((p, R), h')" and inv: "pool_inv p h' R" .
  moreover from inv have "sorted_wrt disjoint_regions R" by (simp add: pool_inv_def)
  moreover have "\<forall>(b, off, l) \<in> set R. 8 dvd off \<and> (\<exists>size. blocks h' b = Some size \<and> off + l \<le> size)"
    using pool_inv_region [OF inv] by (auto simp: region_ok_def)
  ultimately show ?thesis by blast
qed

lemma pool_regions_disjoint_witness:
  "\<exists>p R h'. pool_run [Pool_Alloc 20, Pool_Alloc 100, Pool_Alloc 8] (init_amqp_pool 64, [])
     (demo_heap (\<lambda>k. k \<noteq> 3)) = Inr ((p, R), h') \<and> sorted_wrt disjoint_regions R \<and> R = [(0, 24, 8), (0, 0, 20)]"
  using pool_regions_disjoint [of "demo_heap (\<lambda>k. k \<noteq> 3)" 64 "[Pool_Alloc 20, Pool_Alloc 100, Pool_Alloc 8]"]
  by (simp add: demo_heap_def heap_ok_def init_amqp_pool_def amqp_pool_alloc_def round_up_def
      next_page_alloc_def h_alloc_def h_realloc_def record_pool_block_def no_blocks_def hbind_def hret_def Let_def)

text \<open>C37: As long as memory is granted, emptying a pool after any use gives back every block it
  took: the heap is the one the pool was created on.  No request is larger than \<open>2 ^ 64 - 8\<close> bytes, and
  pages have less than \<open>2 ^ 63\<close>.\<close>

theorem empty_pool_returns_all:
  assumes "heap_ok h" and "n < 2 ^ 63" and "\<And>k n. grants h k n" and "sizes_ok cs"
  shows "\<exists>s h'. pool_run (cs @ [Pool_Empty]) (init_amqp_pool n, []) h = Inr (s, h') \<and> blocks h' = blocks h"
proof -
  have ok: "sizes_ok (cs @ [Pool_Empty])" using assms(4) by (simp add: sizes_ok_def)
  note inv = init_pool_inv [OF assms(1,2)]
  from pool_run_inv [OF inv ok] obtain p R h'
    where run: "pool_run (cs @ [Pool_Empty]) (init_amqp_pool n, []) h = Inr ((p, R), h')"
    and "pool_inv p h' R" .
  have "leak_free h (init_amqp_pool n) h" by (simp add: leak_free_def init_amqp_pool_def owned_def)
  from pool_run_leak_free [OF inv assms(3) this ok run] have "leak_free h p h'" .
  moreover from pool_run_emptied [OF inv assms(4) run] have "owned p = []" .
  ultimately have "blocks h' = blocks h" by (auto simp: leak_free_def)
  with run show ?thesis by blast
qed

lemma empty_pool_returns_all_witness:
  "\<exists>s h'. pool_run ([Pool_Alloc 20, Pool_Alloc 5000] @ [Pool_Empty]) (init_amqp_pool 0, [])
     (demo_heap (\<lambda>_. True)) = Inr (s, h') \<and> blocks h' = Map.empty"
  using empty_pool_returns_all [of "demo_heap (\<lambda>_. True)" 0 "[Pool_Alloc 20, Pool_Alloc 5000]"]
  by (simp add: demo_heap_def heap_ok_def)

text \<open>A request whose rounding wraps gets the address of the next region and no room.\<close>

theorem huge_request_gets_no_room:
  assumes "pool_inv p h R" and "alloc_block p = Some b" and "2 ^ 64 - 7 \<le> n" and "n < 2 ^ 64"
  shows "amqp_pool_alloc p n h = Inr ((Some (b, alloc_used p), p), h)"
proof -
  have "(n + 7) mod 2 ^ 64 = n + 7 - 2 ^ 64" using assms(3,4) by (simp add: mod_if)
  then have r: "round_up n = 0" using assms(4) by (simp add: round_up_def)
  have u: "alloc_used p \<le> pagesize p" "pagesize p < 2 ^ 63" using assms(1) by (simp_all add: pool_inv_def)
  have "n \<noteq> 0" using assms(3) by simp
  with u assms(2) show ?thesis by (simp add: amqp_pool_alloc_def Let_def r)
qed

text \<open>When the page is granted and the array that records it is not, the page is lost.\<close>

theorem unrecorded_page_leaks:
  assumes "0 < n" and "n \<le> 4096" and "grants h (next_block h) 4096" and "\<not> grants h (Suc (next_block h)) 8"
  shows "\<exists>p R h'. pool_run [Pool_Alloc n, Pool_Empty] (init_amqp_pool 4096, []) h = Inr ((p, R), h') \<and>
    owned p = [] \<and> R = [] \<and> blocks h' (next_block h) = Some 4096"
proof -
  have "round_up n \<le> 4096" using assms(2) by (simp add: round_up_def)
  with assms show ?thesis
    by (simp add: init_amqp_pool_def amqp_pool_alloc_def next_page_alloc_def h_alloc_def
        record_pool_block_def empty_amqp_pool_def recycle_amqp_pool_def empty_blocklist_def
        no_blocks_def hbind_def hret_def Let_def owned_def list_blocks_def)
qed

lemma unrecorded_page_leaks_witness:
  "\<exists>p R h'. pool_run [Pool_Alloc 10, Pool_Empty] (init_amqp_pool 4096, []) (demo_heap (\<lambda>k. k = 0)) =
     Inr ((p, R), h') \<and> owned p = [] \<and> R = [] \<and> blocks h' 0 = Some 4096"
  using unrecorded_page_leaks [of 10 "demo_heap (\<lambda>k. k = 0)"] by (simp add: demo_heap_def)

end
