(* ===== verification/Connection.thy ===== *)
theory Connection
  imports Codec_Laws
begin

text \<open>
  Connections and frames, \<open>src/src/librabbitmq/amqp_connection.c\<close> with the \<open>struct\<close> and the
  inline I/O functions of \<open>amqp_private.h\<close>: the state machine that collects the bytes of a frame and
  decodes it (\<open>amqp_handle_input\<close>), the encoder of whole frames (\<open>inner_send_frame\<close>,
  \<open>amqp_send_frame\<close>, \<open>amqp_send_frame_to\<close>), tuning, creating and releasing.

  The members of \<open>struct amqp_connection_state_t_\<close> are two records here: \<open>amqp_connection\<close>, which
  framing reads and writes, and \<open>client\<close>, which adds the socket side and the queue of frames.
\<close>

section \<open>Frames\<close>

definition AMQP_FRAME_METHOD :: byte where "AMQP_FRAME_METHOD = 1"
definition AMQP_FRAME_HEADER :: byte where "AMQP_FRAME_HEADER = 2"
definition AMQP_FRAME_BODY :: byte where "AMQP_FRAME_BODY = 3"
definition AMQP_FRAME_HEARTBEAT :: byte where "AMQP_FRAME_HEARTBEAT = 8"
definition AMQP_FRAME_END :: byte where "AMQP_FRAME_END = 206"

definition AMQP_PSEUDOFRAME_PROTOCOL_HEADER :: byte where "AMQP_PSEUDOFRAME_PROTOCOL_HEADER = 65"
definition AMQP_PSEUDOFRAME_PROTOCOL_CHANNEL :: u16 where "AMQP_PSEUDOFRAME_PROTOCOL_CHANNEL = 77 * 256 + 81"

definition HEADER_SIZE :: nat where "HEADER_SIZE = 7"
definition FOOTER_SIZE :: nat where "FOOTER_SIZE = 1"

lemmas frame_codes =
  AMQP_FRAME_METHOD_def AMQP_FRAME_HEADER_def AMQP_FRAME_BODY_def AMQP_FRAME_HEARTBEAT_def
  AMQP_FRAME_END_def AMQP_PSEUDOFRAME_PROTOCOL_HEADER_def AMQP_PSEUDOFRAME_PROTOCOL_CHANNEL_def

text \<open>
  \<open>amqp_frame_t\<close>: \<open>frame_type\<close> and the union are a constructor each; \<open>No_Frame\<close> is \<open>frame_type\<close> 0.
\<close>

datatype amqp_frame =
    No_Frame
  | Method_Frame u16 u32 amqp_method
  | Header_Frame u16 u16 u64 amqp_properties
  | Body_Frame u16 "byte list"
  | Heartbeat_Frame u16
  | Protocol_Header_Frame byte byte byte byte

fun frame_type :: "amqp_frame \<Rightarrow> byte" where
  "frame_type No_Frame = 0"
| "frame_type (Method_Frame _ _ _) = AMQP_FRAME_METHOD"
| "frame_type (Header_Frame _ _ _ _) = AMQP_FRAME_HEADER"
| "frame_type (Body_Frame _ _) = AMQP_FRAME_BODY"
| "frame_type (Heartbeat_Frame _) = AMQP_FRAME_HEARTBEAT"
| "frame_type (Protocol_Header_Frame _ _ _ _) = AMQP_PSEUDOFRAME_PROTOCOL_HEADER"

fun frame_channel :: "amqp_frame \<Rightarrow> u16" where
  "frame_channel No_Frame = 0"
| "frame_channel (Method_Frame ch _ _) = ch"
| "frame_channel (Header_Frame ch _ _ _) = ch"
| "frame_channel (Body_Frame ch _) = ch"
| "frame_channel (Heartbeat_Frame ch) = ch"
| "frame_channel (Protocol_Header_Frame _ _ _ _) = AMQP_PSEUDOFRAME_PROTOCOL_CHANNEL"

section \<open>The state\<close>

datatype connection_phase =
    CONNECTION_STATE_IDLE
  | CONNECTION_STATE_WAITING_FOR_HEADER
  | CONNECTION_STATE_WAITING_FOR_BODY
  | CONNECTION_STATE_WAITING_FOR_PROTOCOL_HEADER

text \<open>
  \<open>inbound_buffer.bytes\<close> is NULL in the idle state: no bytes.  \<open>returned\<close> is the trace of the calls
  of \<open>basic_return_callback\<close>, which is set when \<open>has_callback\<close>; \<open>destroyed\<close>: the memory was freed.
\<close>

record amqp_connection =
  phase :: connection_phase
  channel_max :: int
  frame_max :: int
  heartbeat :: int
  inbound_buffer :: cbuf
  inbound_offset :: nat
  target_size :: nat
  outbound_buffer :: cbuf
  has_callback :: bool
  returned :: "(u16 \<times> amqp_method) list"
  destroyed :: bool

type_synonym 'a step = "amqp_connection \<times> (c_error + 'a)"

text \<open>A block of \<open>n\<close> bytes from a pool or from \<open>realloc\<close>: its contents are whatever was there.\<close>

definition block_bytes :: "memory \<Rightarrow> nat \<Rightarrow> byte list" where
  "block_bytes mem n = take n (stale mem n @ replicate n 0)"

lemma length_block_bytes [simp]: "length (block_bytes mem n) = n"
  by (simp add: block_bytes_def)

text \<open>The part of a buffer from \<open>off\<close> on that is described as \<open>len\<close> bytes long.\<close>

definition sub_buffer :: "cbuf \<Rightarrow> nat \<Rightarrow> nat \<Rightarrow> cbuf" where
  "sub_buffer b off len = \<lparr>buf_len = len, buf_bytes = take len (drop off (buf_bytes b))\<rparr>"

text \<open>\<open>AMQP_CHECK_RESULT\<close>, and every macro with a \<open>return -EFAULT\<close> inside.\<close>

definition check :: "c_error + 'a \<Rightarrow> ('a \<Rightarrow> c_error + 'b) \<Rightarrow> c_error + 'b" where
  "check m f = (case m of Inl e \<Rightarrow> Inl e | Inr x \<Rightarrow> f x)"

lemma check_simps [simp]: "check (Inl e) f = Inl e" "check (Inr x) f = f x"
  by (simp_all add: check_def)

lemma check_Inr: "check m f = Inr y \<longleftrightarrow> (\<exists>x. m = Inr x \<and> f x = Inr y)"
  by (cases m) auto

lemma check_Inl: "check m f = Inl e \<longleftrightarrow> m = Inl e \<or> (\<exists>x. m = Inr x \<and> f x = Inl e)"
  by (cases m) auto

definition D_CHECK :: "cbuf \<Rightarrow> nat \<Rightarrow> nat \<Rightarrow> c_error + unit" where
  "D_CHECK b off l = (if CHECK_LIMIT b off l then Inr () else Inl EFAULT)"

text \<open>\<open>target_size - k\<close> and \<open>outbound_buffer.len - k\<close> on a \<open>size_t\<close>.\<close>

definition size_minus :: "nat \<Rightarrow> nat \<Rightarrow> nat" where
  "size_minus n k = (n + (2 ^ 64 - k)) mod 2 ^ 64"

section \<open>Receiving\<close>

definition return_to_idle :: "amqp_connection \<Rightarrow> amqp_connection" where
  "return_to_idle st =
     st\<lparr>inbound_buffer := (inbound_buffer st)\<lparr>buf_bytes := []\<rparr>, inbound_offset := 0,
        target_size := HEADER_SIZE, phase := CONNECTION_STATE_IDLE\<rparr>"

text \<open>The first byte of a frame: a buffer is taken from the frame pool, NULL when there is none.\<close>

definition begin_frame :: "memory \<Rightarrow> amqp_connection \<Rightarrow> amqp_connection" where
  "begin_frame mem st =
     (if phase st = CONNECTION_STATE_IDLE
      then let n = buf_len (inbound_buffer st)
           in st\<lparr>inbound_buffer := (inbound_buffer st)
                   \<lparr>buf_bytes := if n \<noteq> 0 \<and> pool_ok mem n then block_bytes mem n else []\<rparr>,
                 phase := CONNECTION_STATE_WAITING_FOR_HEADER\<rparr>
      else st)"

text \<open>
  \<open>bytes_consumed\<close>: the difference of two \<open>size_t\<close> is stored in an \<open>int\<close>, and compared with a
  \<open>size_t\<close>.  The input is shorter than \<open>2 ^ 31\<close> bytes.
\<close>

definition bytes_consumed :: "amqp_connection \<Rightarrow> nat \<Rightarrow> nat" where
  "bytes_consumed st received_len =
     (let wanted = sint (word_of_int (int (target_size st) - int (inbound_offset st)) :: 32 word)
      in nat (if int received_len < wanted mod 2 ^ 64 then int received_len else wanted))"

text \<open>The seven bytes of a frame header: which frame it is, and its size in 32 bits.\<close>

definition header_target :: "cbuf \<Rightarrow> c_error + (connection_phase \<times> nat)" where
  "header_target buf =
     check (D_8 buf 0) (\<lambda>ty.
     check (if ty = AMQP_PSEUDOFRAME_PROTOCOL_HEADER
            then check (D_16 buf 1) (\<lambda>ch. Inr (ch = AMQP_PSEUDOFRAME_PROTOCOL_CHANNEL)) else Inr False) (\<lambda>proto.
     if proto then Inr (CONNECTION_STATE_WAITING_FOR_PROTOCOL_HEADER, 8)
     else check (D_32 buf 3) (\<lambda>size.
       Inr (CONNECTION_STATE_WAITING_FOR_BODY, unat (size + 8)))))"

text \<open>The three kinds of payload.  The bytes of the payload are not copied.\<close>

definition decode_method_frame :: "memory \<Rightarrow> cbuf \<Rightarrow> nat \<Rightarrow> u16 \<Rightarrow> c_error + amqp_frame" where
  "decode_method_frame mem buf target channel =
     (let len = size_minus target (HEADER_SIZE + 4 + FOOTER_SIZE)
      in check (D_CHECK buf (HEADER_SIZE + 4) len) (\<lambda>_.
         check (D_32 buf HEADER_SIZE) (\<lambda>i.
         check (amqp_decode_method mem i (sub_buffer buf (HEADER_SIZE + 4) len)) (\<lambda>decoded.
         Inr (Method_Frame channel i decoded)))))"

definition decode_header_frame :: "memory \<Rightarrow> cbuf \<Rightarrow> nat \<Rightarrow> u16 \<Rightarrow> c_error + amqp_frame" where
  "decode_header_frame mem buf target channel =
     (let len = size_minus target (HEADER_SIZE + 12 + FOOTER_SIZE)
      in check (D_CHECK buf (HEADER_SIZE + 12) len) (\<lambda>_.
         check (D_16 buf HEADER_SIZE) (\<lambda>class_id.
         check (D_64 buf (HEADER_SIZE + 4)) (\<lambda>body_size.
         check (amqp_decode_properties mem class_id (sub_buffer buf (HEADER_SIZE + 12) len)) (\<lambda>decoded.
         Inr (Header_Frame channel class_id body_size decoded))))))"

definition decode_body_frame :: "cbuf \<Rightarrow> nat \<Rightarrow> u16 \<Rightarrow> c_error + amqp_frame" where
  "decode_body_frame buf target channel =
     check (D_BYTES buf HEADER_SIZE (size_minus target (HEADER_SIZE + FOOTER_SIZE))) (\<lambda>fragment.
     Inr (Body_Frame channel fragment))"

definition decode_frame :: "memory \<Rightarrow> cbuf \<Rightarrow> nat \<Rightarrow> c_error + amqp_frame" where
  "decode_frame mem buf target =
     check (D_8 buf 0) (\<lambda>ty.
     check (D_8 buf (size_minus target 1)) (\<lambda>end_marker.
     if end_marker \<noteq> AMQP_FRAME_END then Inl EINVAL
     else check (D_16 buf 1) (\<lambda>channel.
       if ty = AMQP_FRAME_METHOD then decode_method_frame mem buf target channel
       else if ty = AMQP_FRAME_HEADER then decode_header_frame mem buf target channel
       else if ty = AMQP_FRAME_BODY then decode_body_frame buf target channel
       else if ty = AMQP_FRAME_HEARTBEAT then Inr (Heartbeat_Frame channel)
       else Inr No_Frame)))"

fun call_back :: "amqp_frame \<Rightarrow> amqp_connection \<Rightarrow> amqp_connection" where
  "call_back (Method_Frame channel i m) st =
     (if i = AMQP_BASIC_RETURN_METHOD \<and> has_callback st
      then st\<lparr>returned := returned st @ [(channel, m)]\<rparr> else st)"
| "call_back _ st = st"

definition finish_frame :: "memory \<Rightarrow> amqp_connection \<Rightarrow> amqp_frame step" where
  "finish_frame mem st =
     (case decode_frame mem (inbound_buffer st) (target_size st) of
        Inl e \<Rightarrow> (st, Inl e)
      | Inr frame \<Rightarrow> (call_back frame (return_to_idle st), Inr frame))"

definition finish_protocol_header :: "amqp_connection \<Rightarrow> amqp_frame step" where
  "finish_protocol_header st =
     (let buf = inbound_buffer st
      in case check (D_8 buf 3) (\<lambda>p. if p \<noteq> 80 then Inl Aborted
           else check (D_8 buf 4) (\<lambda>th. check (D_8 buf 5) (\<lambda>tl.
                check (D_8 buf 6) (\<lambda>maj. check (D_8 buf 7) (\<lambda>min.
                Inr (Protocol_Header_Frame th tl maj min))))))
         of Inl e \<Rightarrow> (st, Inl e) | Inr frame \<Rightarrow> (return_to_idle st, Inr frame))"

definition counted :: "nat \<Rightarrow> 'a step \<Rightarrow> (nat \<times> 'a) step" where
  "counted consumed = apsnd (map_sum id (Pair consumed))"

text \<open>The label \<open>read_more\<close>, with the \<open>goto\<close> as a recursive call.\<close>

lemma header_target_phase:
  "header_target buf = Inr (ph, t) \<Longrightarrow>
     ph = CONNECTION_STATE_WAITING_FOR_BODY \<or> ph = CONNECTION_STATE_WAITING_FOR_PROTOCOL_HEADER"
  by (auto simp: header_target_def check_Inr split: if_splits)

lemma begin_frame_phase:
  "phase (begin_frame mem st) =
     (if phase st = CONNECTION_STATE_IDLE then CONNECTION_STATE_WAITING_FOR_HEADER else phase st)"
  by (simp add: begin_frame_def Let_def)

function read_more ::
  "memory \<Rightarrow> amqp_connection \<Rightarrow> byte list \<Rightarrow> nat \<Rightarrow> (nat \<times> amqp_frame) step" where
  "read_more mem st received_data consumed =
     (if received_data = [] then (st, Inr (consumed, No_Frame))
      else
        let st1 = begin_frame mem st;
            n = bytes_consumed st1 (length received_data)
        in case E_BYTES (inbound_buffer st1) (inbound_offset st1) (take n received_data) of
             Inl e \<Rightarrow> (st1, Inl e)
           | Inr buf \<Rightarrow>
               let st2 = st1\<lparr>inbound_buffer := buf, inbound_offset := inbound_offset st1 + n\<rparr>
               in if target_size st2 < inbound_offset st2 then (st2, Inl Aborted)
                  else if inbound_offset st2 < target_size st2 then (st2, Inr (consumed + n, No_Frame))
                  else case phase st2 of
                      CONNECTION_STATE_WAITING_FOR_HEADER \<Rightarrow>
                        (case header_target buf of
                           Inl e \<Rightarrow> (st2, Inl e)
                         | Inr (ph, target) \<Rightarrow>
                             read_more mem (st2\<lparr>target_size := target, phase := ph\<rparr>)
                               (drop n received_data) (consumed + n))
                    | CONNECTION_STATE_WAITING_FOR_BODY \<Rightarrow> counted (consumed + n) (finish_frame mem st2)
                    | CONNECTION_STATE_WAITING_FOR_PROTOCOL_HEADER \<Rightarrow>
                        counted (consumed + n) (finish_protocol_header st2)
                    | CONNECTION_STATE_IDLE \<Rightarrow> (st2, Inl Aborted))"
  by pat_completeness auto
termination read_more
  by (relation "measure (\<lambda>(mem, st, d, t). if phase st = CONNECTION_STATE_IDLE \<or>
        phase st = CONNECTION_STATE_WAITING_FOR_HEADER then 1 else 0)")
     (auto simp: begin_frame_phase dest!: header_target_phase split: if_splits)

declare read_more.simps [simp del]

definition amqp_handle_input ::
  "memory \<Rightarrow> amqp_connection \<Rightarrow> byte list \<Rightarrow> (nat \<times> amqp_frame) step" where
  "amqp_handle_input mem st received_data = read_more mem st received_data 0"

section \<open>Sending\<close>

text \<open>
  Writing into a part of the outbound buffer.  An error leaves the buffer as it was: no bytes of it
  are sent before they are written again.
\<close>

definition encode_into ::
  "cbuf \<Rightarrow> nat \<Rightarrow> nat \<Rightarrow> (cbuf \<Rightarrow> c_error + (cbuf \<times> nat)) \<Rightarrow> c_error + (cbuf \<times> nat)" where
  "encode_into out off len enc =
     check (D_CHECK out off len) (\<lambda>_.
     check (enc (sub_buffer out off len)) (\<lambda>(part, n).
     Inr (out\<lparr>buf_bytes := splice (buf_bytes out) off (buf_bytes part)\<rparr>, n)))"

text \<open>The results: the outbound buffer, \<open>encoded\<close>, \<open>payload_len\<close> and \<open>separate_body\<close>.\<close>

fun encode_payload :: "amqp_frame \<Rightarrow> cbuf \<Rightarrow> c_error + (cbuf \<times> byte list \<times> nat \<times> bool)" where
  "encode_payload (Method_Frame _ i decoded) out =
     check (E_32 out HEADER_SIZE i) (\<lambda>out1.
     check (encode_into out1 (HEADER_SIZE + 4) (size_minus (buf_len out1) (HEADER_SIZE + 4 + FOOTER_SIZE))
              (amqp_encode_method i decoded)) (\<lambda>(out2, n).
     Inr (out2, [], n + 4, False)))"
| "encode_payload (Header_Frame _ class_id body_size decoded) out =
     check (E_16 out HEADER_SIZE class_id) (\<lambda>out1.
     check (E_16 out1 (HEADER_SIZE + 2) 0) (\<lambda>out2.
     check (E_64 out2 (HEADER_SIZE + 4) body_size) (\<lambda>out3.
     check (encode_into out3 (HEADER_SIZE + 12) (size_minus (buf_len out3) (HEADER_SIZE + 12 + FOOTER_SIZE))
              (amqp_encode_properties class_id decoded)) (\<lambda>(out4, n).
     Inr (out4, [], n + 12, False)))))"
| "encode_payload (Body_Frame _ fragment) out = Inr (out, fragment, length fragment, True)"
| "encode_payload (Heartbeat_Frame _) out = Inr (out, [], 0, False)"
| "encode_payload _ out = Inl EINVAL"

definition inner_send_frame ::
  "cbuf \<Rightarrow> amqp_frame \<Rightarrow> c_error + (cbuf \<times> byte list \<times> nat \<times> bool)" where
  "inner_send_frame outbound frame =
     check (E_8 outbound 0 (frame_type frame)) (\<lambda>out1.
     check (E_16 out1 1 (frame_channel frame)) (\<lambda>out2.
     check (encode_payload frame out2) (\<lambda>(out3, encoded, payload_len, separate_body).
     check (E_32 out3 3 (word_of_nat payload_len)) (\<lambda>out4.
     if separate_body then Inr (out4, encoded, payload_len, True)
     else check (E_8 out4 (payload_len + HEADER_SIZE) AMQP_FRAME_END) (\<lambda>out5.
       Inr (out5, encoded, payload_len, False))))))"

text \<open>
  The output function gets its context and the bytes and returns the number of bytes it took, which
  is not looked at.
\<close>

type_synonym 'c output_fn = "'c \<Rightarrow> byte list \<Rightarrow> (c_error + nat) \<times> 'c"

fun send_all :: "'c output_fn \<Rightarrow> 'c \<Rightarrow> byte list list \<Rightarrow> (c_error + unit) \<times> 'c" where
  "send_all fn context [] = (Inr (), context)"
| "send_all fn context (ws # wss) =
     (case fn context ws of
        (Inl e, context') \<Rightarrow> (Inl e, context')
      | (Inr _, context') \<Rightarrow> send_all fn context' wss)"

definition amqp_send_frame_to ::
  "amqp_connection \<Rightarrow> amqp_frame \<Rightarrow> 'c output_fn \<Rightarrow> 'c \<Rightarrow> amqp_connection \<times> (c_error + unit) \<times> 'c" where
  "amqp_send_frame_to st frame fn context =
     (case inner_send_frame (outbound_buffer st) frame of
        Inl e \<Rightarrow> (st, Inl e, context)
      | Inr (out, encoded, payload_len, separate_body) \<Rightarrow>
          (st\<lparr>outbound_buffer := out\<rparr>,
           send_all fn context
             (if separate_body
              then [take HEADER_SIZE (buf_bytes out), encoded, [AMQP_FRAME_END]]
              else [take (payload_len + (HEADER_SIZE + FOOTER_SIZE)) (buf_bytes out)])))"

section \<open>The socket side of a connection\<close>

text \<open>
  What \<open>read\<close>/\<open>SSL_read\<close> and \<open>write\<close>/\<open>SSL_write\<close> will do.  \<open>Data bs\<close>: bytes that arrived, read in one
  call or in several; \<open>End_Of_Stream\<close>: EOF or \<open>close_notify\<close>, for ever; \<open>Fault syscall errno\<close>: an
  error, with what \<open>SSL_get_error\<close> and \<open>errno\<close> tell.  \<open>accepts\<close> are the numbers of bytes the next
  writes take at most, or their errors; when it is used up, every write takes all.  When \<open>incoming\<close>
  is used up, a read blocks for ever.  \<open>socket_timeout\<close>: the seconds that the login gave the kernel for
  reads and writes, which only show as an error of one of them.
\<close>

datatype io_outcome = Data "byte list" | End_Of_Stream | Fault bool nat

datatype write_outcome = Accept nat | Write_Fault bool nat

record client =
  conn :: amqp_connection
  sockfd :: int
  ssl :: bool
  socket_timeout :: "int option"
  sock_inbound_buffer :: cbuf
  sock_inbound_offset :: nat
  sock_inbound_limit :: nat
  queued_frames :: "amqp_frame list"
  incoming :: "io_outcome list"
  accepts :: "write_outcome list"
  outgoing :: "byte list"

definition ssl_error :: "client \<Rightarrow> bool \<Rightarrow> nat \<Rightarrow> c_error" where
  "ssl_error c syscall errno = (if ssl c \<and> \<not> (syscall \<and> errno \<noteq> 0) then EIO else Os_Error errno)"

text \<open>The number of bytes written; a TLS write of nothing is an error.\<close>

definition amqp_ssl_write :: "client output_fn" where
  "amqp_ssl_write c buf =
     (case accepts c of
        [] \<Rightarrow> (Inr (length buf), c\<lparr>outgoing := outgoing c @ buf\<rparr>)
      | Accept k # rest \<Rightarrow>
          let n = min k (length buf); c' = c\<lparr>accepts := rest, outgoing := outgoing c @ take n buf\<rparr>
          in if ssl c \<and> n = 0 then (Inl EIO, c') else (Inr n, c')
      | Write_Fault syscall errno # rest \<Rightarrow> (Inl (ssl_error c syscall errno), c\<lparr>accepts := rest\<rparr>))"

text \<open>At most \<open>len\<close> bytes; no bytes at all is the result 0.  \<open>None\<close>: the call does not return.\<close>

definition amqp_ssl_read :: "client \<Rightarrow> nat \<Rightarrow> ((c_error + byte list) \<times> client) option" where
  "amqp_ssl_read c len =
     (case incoming c of
        [] \<Rightarrow> None
      | Data bs # rest \<Rightarrow>
          Some (Inr (take len bs), c\<lparr>incoming := (if length bs \<le> len then rest else Data (drop len bs) # rest)\<rparr>)
      | End_Of_Stream # rest \<Rightarrow> Some (Inr [], c)
      | Fault syscall errno # rest \<Rightarrow> Some (Inl (ssl_error c syscall errno), c\<lparr>incoming := rest\<rparr>))"

definition amqp_send_frame :: "client \<Rightarrow> amqp_frame \<Rightarrow> (c_error + unit) \<times> client" where
  "amqp_send_frame c frame =
     (case amqp_send_frame_to (conn c) frame amqp_ssl_write c of
        (st, r, c') \<Rightarrow> (r, c'\<lparr>conn := st\<rparr>))"

section \<open>Tuning, creating, releasing\<close>

text \<open>A negative \<open>frame_max\<close> is a huge \<open>size_t\<close>.  On \<open>-ENOMEM\<close> the connection was destroyed.\<close>

definition amqp_tune_connection ::
  "memory \<Rightarrow> amqp_connection \<Rightarrow> int \<Rightarrow> int \<Rightarrow> int \<Rightarrow> unit step" where
  "amqp_tune_connection mem st channel_max1 frame_max1 heartbeat1 =
     (if phase st \<noteq> CONNECTION_STATE_IDLE then (st, Inl Aborted)
      else
        let n = nat (frame_max1 mod 2 ^ 64);
            st1 = st\<lparr>channel_max := channel_max1, frame_max := frame_max1, heartbeat := heartbeat1,
                     inbound_buffer := (inbound_buffer st)\<lparr>buf_len := n\<rparr>,
                     outbound_buffer := (outbound_buffer st)\<lparr>buf_len := n\<rparr>\<rparr>
        in if \<not> malloc_ok mem n then (st1\<lparr>destroyed := True\<rparr>, Inl ENOMEM)
           else
             let old = buf_bytes (outbound_buffer st)
             in (st1\<lparr>outbound_buffer := \<lparr>buf_len = n,
                        buf_bytes = take n (old @ drop (length old) (block_bytes mem n))\<rparr>\<rparr>, Inr ()))"

definition INITIAL_FRAME_POOL_PAGE_SIZE :: nat where "INITIAL_FRAME_POOL_PAGE_SIZE = 65536"

definition INITIAL_INBOUND_SOCK_BUFFER_SIZE :: nat where "INITIAL_INBOUND_SOCK_BUFFER_SIZE = 131072"

text \<open>\<open>calloc\<close> of the \<open>struct\<close>.\<close>

definition zero_connection :: amqp_connection where
  "zero_connection =
     \<lparr>phase = CONNECTION_STATE_IDLE, channel_max = 0, frame_max = 0, heartbeat = 0,
      inbound_buffer = \<lparr>buf_len = 0, buf_bytes = []\<rparr>, inbound_offset = 0, target_size = 0,
      outbound_buffer = \<lparr>buf_len = 0, buf_bytes = []\<rparr>, has_callback = False, returned = [],
      destroyed = False\<rparr>"

text \<open>
  \<open>sizeof (struct amqp_connection_state_t_)\<close> on 64-bit platforms.  A failed tuning has freed the
  pools and the \<open>struct\<close>, and the error path frees them again.  \<open>Inr None\<close> is NULL.
\<close>

definition sizeof_connection :: nat where "sizeof_connection = 272"

definition amqp_new_connection :: "memory \<Rightarrow> c_error + client option" where
  "amqp_new_connection mem =
     (if \<not> malloc_ok mem sizeof_connection then Inr None
      else case amqp_tune_connection mem zero_connection 0 (int INITIAL_FRAME_POOL_PAGE_SIZE) 0 of
          (st, Inl e) \<Rightarrow> Inl (Undefined Use_After_Free)
        | (st, Inr _) \<Rightarrow>
            if \<not> malloc_ok mem INITIAL_INBOUND_SOCK_BUFFER_SIZE then Inr None
            else Inr (Some
              \<lparr>conn = st\<lparr>inbound_offset := 0, target_size := HEADER_SIZE\<rparr>, sockfd = - 1, ssl = False, socket_timeout = None,
               sock_inbound_buffer = \<lparr>buf_len = INITIAL_INBOUND_SOCK_BUFFER_SIZE,
                 buf_bytes = block_bytes mem INITIAL_INBOUND_SOCK_BUFFER_SIZE\<rparr>,
               sock_inbound_offset = 0, sock_inbound_limit = 0, queued_frames = [],
               incoming = [], accepts = [], outgoing = []\<rparr>))"

definition amqp_destroy_connection :: "client \<Rightarrow> client" where
  "amqp_destroy_connection c = c\<lparr>ssl := False, conn := (conn c)\<lparr>destroyed := True\<rparr>\<rparr>"

definition amqp_get_sockfd :: "client \<Rightarrow> int" where "amqp_get_sockfd c = sockfd c"

definition amqp_set_sockfd :: "client \<Rightarrow> int \<Rightarrow> client" where "amqp_set_sockfd c fd = c\<lparr>sockfd := fd\<rparr>"

definition amqp_get_channel_max :: "client \<Rightarrow> int" where
  "amqp_get_channel_max c = channel_max (conn c)"

definition amqp_set_basic_return_cb :: "client \<Rightarrow> bool \<Rightarrow> client" where
  "amqp_set_basic_return_cb c f = c\<lparr>conn := (conn c)\<lparr>has_callback := f\<rparr>\<rparr>"

definition amqp_release_buffers_ok :: "client \<Rightarrow> bool" where
  "amqp_release_buffers_ok c \<longleftrightarrow> phase (conn c) = CONNECTION_STATE_IDLE \<and> queued_frames c = []"

text \<open>The pools are recycled: no frame that was handed out may be used any more.\<close>

definition amqp_release_buffers :: "client \<Rightarrow> c_error + client" where
  "amqp_release_buffers c =
     (if phase (conn c) \<noteq> CONNECTION_STATE_IDLE then Inl Aborted
      else if queued_frames c \<noteq> [] then Inl Aborted
      else Inr c)"

definition amqp_maybe_release_buffers :: "client \<Rightarrow> c_error + client" where
  "amqp_maybe_release_buffers c = (if amqp_release_buffers_ok c then amqp_release_buffers c else Inr c)"

end
