(* ===== verification/Connection_Laws.thy ===== *)
theory Connection_Laws
  imports Connection
begin

text \<open>
  The laws of framing: the invariant of a connection and what \<open>amqp_handle_input\<close> may return, the
  independence of the way the bytes of a frame are split, and the round trip of a frame.
\<close>

section \<open>Arithmetic of the collected bytes\<close>

lemma sint_small:
  assumes "- (2 ^ 31) \<le> k" and "k < 2 ^ 31"
  shows "sint (word_of_int k :: 32 word) = k"
proof -
  have "sint (word_of_int k :: 32 word) = signed_take_bit 31 k" by (simp add: signed_of_int)
  also have "\<dots> = k" using assms by (intro signed_take_bit_int_eq_self) simp_all
  finally show ?thesis .
qed

lemma sint_bounds: "- (2 ^ 31) \<le> sint (w :: 32 word)" "sint (w :: 32 word) < 2 ^ 31"
  using sint_range_size [of w] by (simp_all add: word_size)

lemma sint_large:
  assumes "2 ^ 31 \<le> k" and "k < 2 ^ 32"
  shows "sint (word_of_int k :: 32 word) = k - 2 ^ 32"
proof -
  have eq: "(word_of_int k :: 32 word) = word_of_int (k - 2 ^ 32)" by simp
  show ?thesis unfolding eq by (rule sint_small) (use assms in simp_all)
qed

text \<open>A short target, or one that was passed already, does not limit what is taken.\<close>

lemma bytes_consumed_eq:
  assumes "target_size st < 2 ^ 32" and "inbound_offset st < 2 ^ 31" and "len < 2 ^ 31"
  shows "bytes_consumed st len =
    (if inbound_offset st \<le> target_size st then min len (target_size st - inbound_offset st) else len)"
proof -
  let ?k = "int (target_size st) - int (inbound_offset st)"
  let ?w = "sint (word_of_int ?k :: 32 word)"
  have len: "int len < 2 ^ 31" using assms(3) by simp
  have neg: "?w mod 2 ^ 64 = ?w + 2 ^ 64" if "?w < 0"
    using that sint_bounds(1) [of "word_of_int ?k"] by (intro int_mod_pos_eq [where q = "- 1"]) simp_all
  consider "?k < 0" | "0 \<le> ?k" "?k < 2 ^ 31" | "2 ^ 31 \<le> ?k" by linarith
  then show ?thesis
  proof cases
    case 1
    then have w: "?w = ?k" using assms by (intro sint_small) simp_all
    with 1 neg len assms show ?thesis by (simp add: bytes_consumed_def Let_def)
  next
    case 2
    then have w: "?w = ?k" by (intro sint_small) simp_all
    with 2 have "?w mod 2 ^ 64 = ?k" by simp
    with w 2 show ?thesis by (auto simp: bytes_consumed_def Let_def min_def)
  next
    case 3
    then have "?w = ?k - 2 ^ 32" using assms by (intro sint_large) simp_all
    with 3 neg len assms show ?thesis by (simp add: bytes_consumed_def Let_def)
  qed
qed

section \<open>Reading an honest buffer\<close>

lemma D_honest:
  assumes "honest b" and "off + k \<le> buf_len b" and "k < 2 ^ 33"
  shows "D_BYTES b off k = Inr (take k (drop off (buf_bytes b)))" and "D_CHECK b off k = Inr ()"
  using assms by (auto simp: D_BYTES_def D_CHECK_def CHECK_LIMIT_def honest_def)

lemma D_fixed_honest:
  assumes "honest b"
  shows "off + 1 \<le> buf_len b \<Longrightarrow> D_8 b off = Inr (buf_bytes b ! off)"
    and "off + 2 \<le> buf_len b \<Longrightarrow> \<exists>v. D_16 b off = Inr v"
    and "off + 4 \<le> buf_len b \<Longrightarrow> \<exists>v. D_32 b off = Inr v"
    and "off + 8 \<le> buf_len b \<Longrightarrow> \<exists>v. D_64 b off = Inr v"
proof -
  show "off + 1 \<le> buf_len b \<Longrightarrow> D_8 b off = Inr (buf_bytes b ! off)"
    using assms by (simp add: D_8_def D_honest honest_def take_Suc hd_drop_conv_nth)
qed (use assms in \<open>auto simp: D_16_def D_32_def D_64_def D_honest\<close>)

lemma header_target_honest:
  assumes "honest b" and "7 \<le> buf_len b"
  obtains ph t where "header_target b = Inr (ph, t)" and "t < 2 ^ 32"
    and "ph = CONNECTION_STATE_WAITING_FOR_BODY \<or> ph = CONNECTION_STATE_WAITING_FOR_PROTOCOL_HEADER \<and> t = 8"
proof -
  obtain size ch where d: "D_32 b 3 = Inr size" "D_16 b (Suc 0) = Inr ch"
    using D_fixed_honest(2) [OF assms(1), of 1] D_fixed_honest(3) [OF assms(1), of 3] assms(2) by auto
  have bound: "unat (size + 8) < 2 ^ 32" for size :: u32 using unat_bound [of "size + 8"] by simp
  have "D_8 b 0 = Inr (buf_bytes b ! 0)" using D_fixed_honest(1) [OF assms(1), of 0] assms(2) by simp
  with d have "header_target b =
      (if buf_bytes b ! 0 = AMQP_PSEUDOFRAME_PROTOCOL_HEADER \<and> ch = AMQP_PSEUDOFRAME_PROTOCOL_CHANNEL
       then Inr (CONNECTION_STATE_WAITING_FOR_PROTOCOL_HEADER, 8)
       else Inr (CONNECTION_STATE_WAITING_FOR_BODY, unat (size + 8)))"
    by (simp add: header_target_def)
  then show thesis using that bound by (auto split: if_splits)
qed

lemma header_target_bound: "header_target b = Inr (ph, t) \<Longrightarrow> t < 2 ^ 32"
  using unat_bound [where 'a = 32]
  by (auto simp: header_target_def check_Inr split: if_splits)

text \<open>Only the first seven bytes matter.\<close>

lemma header_target_front:
  assumes "take 7 (buf_bytes b) = take 7 (buf_bytes b')" and "buf_len b = buf_len b'"
    and "honest b" and "honest b'" and "7 \<le> buf_len b"
  shows "header_target b = header_target b'"
proof -
  have "D_BYTES b off k = D_BYTES b' off k" if "off + k \<le> 7" for off k
  proof -
    have "take k (drop off (buf_bytes b)) = take k (drop off (take 7 (buf_bytes b)))"
      using that by (simp add: drop_take)
    also have "\<dots> = take k (drop off (buf_bytes b'))"
      unfolding assms(1) using that by (simp add: drop_take)
    finally show ?thesis using that assms by (simp add: D_honest)
  qed
  then have D: "D_8 b 0 = D_8 b' 0" "D_16 b 1 = D_16 b' 1" "D_32 b 3 = D_32 b' 3"
    by (simp_all add: D_8_def D_16_def D_32_def)
  show ?thesis unfolding header_target_def D by (rule refl)
qed

lemma take_splice: "n \<le> off \<Longrightarrow> off \<le> length bs \<Longrightarrow> take n (splice bs off ws) = take n bs"
  by (simp add: splice_def)

text \<open>A header that claims the size \<open>2 ^ 32 - 1\<close>: the target wraps to the end of the header.\<close>

lemma header_target_wraps:
  assumes "honest b" and "7 \<le> buf_len b" and "header_target b = Inr (CONNECTION_STATE_WAITING_FOR_BODY, 7)"
  shows "buf_bytes b ! 6 = 255"
proof -
  let ?ws = "take 3 (drop 3 (buf_bytes b))"
  have len: "6 < length (buf_bytes b)" using assms(1,2) by (simp add: honest_def)
  then have ws: "take 4 (drop 3 (buf_bytes b)) = ?ws @ [buf_bytes b ! 6]"
    using take_Suc_conv_app_nth [of 3 "drop 3 (buf_bytes b)"] by simp
  let ?N = "be_nat (take 4 (drop 3 (buf_bytes b)))"
  from assms(3) obtain size where d: "D_32 b 3 = Inr size" "unat (size + 8) = 7"
    by (auto simp: header_target_def check_Inr split: if_splits)
  have "unat (size + 8) = unat (7 :: u32)" using d(2) by simp
  then have "size + 8 = 7" by (simp only: word_unat_eq_iff)
  then have "size = - 1" by (simp add: eq_diff_eq [symmetric])
  moreover have "size = word_of_nat ?N" using d(1) assms(1,2) by (simp add: D_32_def D_honest)
  moreover have "?N < 2 ^ 32" using be_nat_less [of "take 4 (drop 3 (buf_bytes b))"] len by simp
  then have "unat (word_of_nat ?N :: u32) = ?N" by (simp add: unat_of_nat)
  ultimately have "?N = unat (- 1 :: u32)" by metis
  then have "256 * be_nat ?ws + unat (buf_bytes b ! 6) = 4294967295"
    unfolding ws be_nat_snoc by (simp add: unsigned_minus_1_eq_mask mask_eq_exp_minus_1)
  moreover have "unat (buf_bytes b ! 6) < 256" using unat_bound [of "buf_bytes b ! 6"] by simp
  moreover have "v = 255" if "256 * u + v = 4294967295" "v < 256" for u v :: nat using that by presburger
  ultimately have "unat (buf_bytes b ! 6) = 255" by blast
  then show ?thesis by (simp add: word_unat_eq_iff)
qed

section \<open>The invariant\<close>

text \<open>
  Between two calls: in the idle state nothing was collected; in the other states the inbound buffer
  is a whole block, what was collected fits it, and the target is the one of the state, or the one the
  frame header in the buffer claims.
\<close>

definition framing_ok :: "amqp_connection \<Rightarrow> bool" where
  "framing_ok st \<longleftrightarrow>
     (case phase st of
        CONNECTION_STATE_IDLE \<Rightarrow>
          buf_len (inbound_buffer st) < 2 ^ 31 \<and> buf_bytes (inbound_buffer st) = [] \<and>
          inbound_offset st = 0 \<and> target_size st = HEADER_SIZE
      | CONNECTION_STATE_WAITING_FOR_HEADER \<Rightarrow>
          honest (inbound_buffer st) \<and> inbound_offset st \<le> buf_len (inbound_buffer st) \<and>
          inbound_offset st \<le> HEADER_SIZE \<and> target_size st = HEADER_SIZE
      | CONNECTION_STATE_WAITING_FOR_BODY \<Rightarrow>
          honest (inbound_buffer st) \<and> inbound_offset st \<le> buf_len (inbound_buffer st) \<and>
          HEADER_SIZE \<le> inbound_offset st \<and>
          header_target (inbound_buffer st) = Inr (CONNECTION_STATE_WAITING_FOR_BODY, target_size st)
      | CONNECTION_STATE_WAITING_FOR_PROTOCOL_HEADER \<Rightarrow>
          honest (inbound_buffer st) \<and> inbound_offset st \<le> buf_len (inbound_buffer st) \<and>
          HEADER_SIZE \<le> inbound_offset st \<and> inbound_offset st \<le> 8 \<and> target_size st = 8)"

text \<open>A frame is being collected.\<close>

definition collecting :: "amqp_connection \<Rightarrow> bool" where
  "collecting st \<longleftrightarrow> framing_ok st \<and> phase st \<noteq> CONNECTION_STATE_IDLE"

lemma collecting_bounds:
  assumes "collecting st"
  shows "honest (inbound_buffer st)" and "inbound_offset st \<le> buf_len (inbound_buffer st)"
    and "target_size st < 2 ^ 32" and "inbound_offset st < 2 ^ 31"
  using assms
  by (auto simp: collecting_def framing_ok_def honest_def HEADER_SIZE_def dest: header_target_bound
      split: connection_phase.splits)

lemma begin_frame_collecting:
  assumes "framing_ok st" and "\<And>n. pool_ok mem n"
  shows "collecting (begin_frame mem st)"
  using assms
  by (auto simp: collecting_def framing_ok_def begin_frame_def Let_def honest_def
      split: connection_phase.splits)

lemma begin_frame_id [simp]: "phase st \<noteq> CONNECTION_STATE_IDLE \<Longrightarrow> begin_frame mem st = st"
  by (simp add: begin_frame_def)

lemma framing_ok_idle [simp]: "honest (inbound_buffer st) \<Longrightarrow> framing_ok (return_to_idle st)"
  by (simp add: framing_ok_def return_to_idle_def honest_def)

lemma framing_ok_call_back [simp]: "framing_ok (call_back f st) = framing_ok st"
  by (cases f) (auto simp: framing_ok_def split: connection_phase.splits)

lemma phase_idle [simp]:
  "phase (return_to_idle st) = CONNECTION_STATE_IDLE" "phase (call_back f st) = phase st"
  by (cases f; simp add: return_to_idle_def)+

text \<open>Bytes that were collected.\<close>

definition absorb :: "amqp_connection \<Rightarrow> byte list \<Rightarrow> amqp_connection" where
  "absorb st ws =
     st\<lparr>inbound_buffer := (inbound_buffer st)
          \<lparr>buf_bytes := splice (buf_bytes (inbound_buffer st)) (inbound_offset st) ws\<rparr>,
        inbound_offset := inbound_offset st + length ws\<rparr>"

lemma absorb_simps [simp]:
  "phase (absorb st ws) = phase st" "inbound_offset (absorb st ws) = inbound_offset st + length ws"
  "target_size (absorb st ws) = target_size st"
  "buf_len (inbound_buffer (absorb st ws)) = buf_len (inbound_buffer st)"
  by (simp_all add: absorb_def)

lemma absorb_absorb:
  "honest (inbound_buffer st) \<Longrightarrow> inbound_offset st + length ws + length vs \<le> buf_len (inbound_buffer st) \<Longrightarrow>
     absorb (absorb st ws) vs = absorb st (ws @ vs)"
  by (simp add: absorb_def splice_splice honest_def)

lemma honest_absorb:
  "honest (inbound_buffer st) \<Longrightarrow> inbound_offset st + length ws \<le> buf_len (inbound_buffer st) \<Longrightarrow>
     honest (inbound_buffer (absorb st ws))"
  by (simp add: absorb_def)

text \<open>What a frame header says, without the error returns that cannot happen.\<close>

definition header_read :: "amqp_connection \<Rightarrow> amqp_connection" where
  "header_read st =
     (case header_target (inbound_buffer st) of
        Inl e \<Rightarrow> st | Inr (ph, target) \<Rightarrow> st\<lparr>target_size := target, phase := ph\<rparr>)"

lemma header_read_simps [simp]:
  "inbound_buffer (header_read st) = inbound_buffer st" "inbound_offset (header_read st) = inbound_offset st"
  by (auto simp: header_read_def split: sum.splits)

lemma E_BYTES_honest:
  assumes "honest b" and "off \<le> buf_len b" and "length ws < 2 ^ 31"
  shows "E_BYTES b off ws =
    (if buf_len b < off + length ws then Inl EFAULT
     else Inr (b\<lparr>buf_bytes := splice (buf_bytes b) off ws\<rparr>))"
  using assms CHECK_LIMIT_honest [OF assms(1,2), of "length ws"] by (simp add: E_BYTES_def honest_def)

section \<open>One round of the loop\<close>

definition wanted :: "amqp_connection \<Rightarrow> nat \<Rightarrow> nat" where
  "wanted st len =
     (if inbound_offset st \<le> target_size st then min len (target_size st - inbound_offset st) else len)"

lemma wanted_le [simp]: "wanted st len \<le> len"
  by (simp add: wanted_def)

lemma read_more_nil [simp]: "read_more mem st [] k = (st, Inr (k, No_Frame))"
  by (simp add: read_more.simps)

lemma read_more_start:
  "data \<noteq> [] \<Longrightarrow> read_more mem st data k = read_more mem (begin_frame mem st) data k"
  by (subst (1 2) read_more.simps) (simp add: begin_frame_phase Let_def)

lemma read_more_eq:
  assumes "collecting st" and "data \<noteq> []" and "length data < 2 ^ 31"
  defines "n \<equiv> wanted st (length data)" and "st2 \<equiv> absorb st (take (wanted st (length data)) data)"
  shows "read_more mem st data k =
    (if buf_len (inbound_buffer st) < inbound_offset st + n then (st, Inl EFAULT)
     else if target_size st < inbound_offset st + n then (st2, Inl Aborted)
     else if inbound_offset st + n < target_size st then (st2, Inr (k + n, No_Frame))
     else if phase st = CONNECTION_STATE_WAITING_FOR_HEADER
     then read_more mem (header_read st2) (drop n data) (k + n)
     else if phase st = CONNECTION_STATE_WAITING_FOR_BODY then counted (k + n) (finish_frame mem st2)
     else counted (k + n) (finish_protocol_header st2))"
proof -
  note b = collecting_bounds [OF assms(1)]
  have idle: "phase st \<noteq> CONNECTION_STATE_IDLE" using assms(1) by (simp add: collecting_def)
  have n: "bytes_consumed st (length data) = n" "length (take n data) = n"
    using bytes_consumed_eq [OF b(3,4) assms(3)] by (simp_all add: n_def wanted_def)
  have e: "E_BYTES (inbound_buffer st) (inbound_offset st) (take n data) =
      (if buf_len (inbound_buffer st) < inbound_offset st + n then Inl EFAULT else Inr (inbound_buffer st2))"
  proof -
    have "length (take n data) < 2 ^ 31" using assms(3) by simp
    from E_BYTES_honest [OF b(1,2) this] n(2) show ?thesis by (simp add: st2_def absorb_def n_def)
  qed
  have st2: "st\<lparr>inbound_buffer := inbound_buffer st2, inbound_offset := inbound_offset st + n\<rparr> = st2"
    using n(2) by (simp add: st2_def absorb_def n_def)
  have head: "\<exists>ph t. header_target (inbound_buffer st2) = Inr (ph, t)"
    if "phase st = CONNECTION_STATE_WAITING_FOR_HEADER" "inbound_offset st + n = target_size st"
       "\<not> buf_len (inbound_buffer st) < inbound_offset st + n"
  proof -
    from assms(1) that(1) have t: "target_size st = 7"
      by (simp add: collecting_def framing_ok_def HEADER_SIZE_def)
    with that have "7 \<le> buf_len (inbound_buffer st2)" by (simp add: st2_def)
    moreover have "honest (inbound_buffer st2)"
      unfolding st2_def using that(3) n(2) by (intro honest_absorb b(1)) (simp add: n_def)
    ultimately obtain ph t where "header_target (inbound_buffer st2) = Inr (ph, t)"
      using header_target_honest by blast
    then show ?thesis by blast
  qed
  have proj: "target_size st2 = target_size st" "inbound_offset st2 = inbound_offset st + n" "phase st2 = phase st"
    using n(2) by (simp_all add: st2_def n_def)
  note unfold = read_more.simps [of mem st data k, unfolded begin_frame_id [OF idle] Let_def n(1)]
  let ?full = "buf_len (inbound_buffer st) < inbound_offset st + n"
  show ?thesis
  proof (cases "?full \<or> target_size st \<noteq> inbound_offset st + n")
    case True
    with assms(2) idle show ?thesis
      by (subst unfold) (auto simp: e st2 proj)
  next
    case False
    then have t: "\<not> ?full" "target_size st = inbound_offset st + n" by auto
    show ?thesis
    proof (cases "phase st = CONNECTION_STATE_WAITING_FOR_HEADER")
      case True
      with head t obtain ph u where h: "header_target (inbound_buffer st2) = Inr (ph, u)" by auto
      have hr: "header_read st2 = st\<lparr>inbound_buffer := inbound_buffer st2,
          inbound_offset := inbound_offset st + n, target_size := u, phase := ph\<rparr>"
        using arg_cong [OF st2, of "\<lambda>s. s\<lparr>target_size := u, phase := ph\<rparr>"] h
        by (simp add: header_read_def)
      from assms(2) t True h show ?thesis
        by (subst unfold) (simp add: e st2 proj hr)
    next
      case False
      with assms(2) idle t show ?thesis
        by (subst unfold) (simp add: e st2 proj split: connection_phase.splits)
    qed
  qed
qed

lemma collecting_absorb:
  assumes "collecting st" and "inbound_offset st + length ws \<le> buf_len (inbound_buffer st)"
    and "phase st \<noteq> CONNECTION_STATE_WAITING_FOR_BODY \<Longrightarrow> inbound_offset st + length ws \<le> target_size st"
  shows "collecting (absorb st ws)"
proof -
  note b = collecting_bounds [OF assms(1)]
  have hon: "honest (inbound_buffer (absorb st ws))" using assms(2) b(1) by (rule honest_absorb [rotated])
  have "header_target (inbound_buffer (absorb st ws)) = header_target (inbound_buffer st)"
    if "7 \<le> inbound_offset st"
    using that b(1,2) hon
    by (intro header_target_front) (simp_all add: absorb_def take_splice honest_def)
  with hon assms show ?thesis
    by (auto simp: collecting_def framing_ok_def HEADER_SIZE_def split: connection_phase.splits)
qed

lemma collecting_header_read:
  assumes "collecting st" and "inbound_offset st = HEADER_SIZE"
  shows "collecting (header_read st)" and "phase (header_read st) \<noteq> CONNECTION_STATE_WAITING_FOR_HEADER"
proof -
  note b = collecting_bounds [OF assms(1)]
  from b(2) assms(2) have "7 \<le> buf_len (inbound_buffer st)" by (simp add: HEADER_SIZE_def)
  then obtain ph t where "header_target (inbound_buffer st) = Inr (ph, t)" "t < 2 ^ 32"
      "ph = CONNECTION_STATE_WAITING_FOR_BODY \<or> ph = CONNECTION_STATE_WAITING_FOR_PROTOCOL_HEADER \<and> t = 8"
    using header_target_honest [OF b(1)] by metis
  with b assms(2) show "collecting (header_read st)"
      and "phase (header_read st) \<noteq> CONNECTION_STATE_WAITING_FOR_HEADER"
    by (auto simp: header_read_def collecting_def framing_ok_def HEADER_SIZE_def)
qed

section \<open>What a frame decodes to\<close>

lemma size_minus_eq: "k \<le> n \<Longrightarrow> n < 2 ^ 63 \<Longrightarrow> size_minus n k = n - k"
  by (simp add: size_minus_def) (simp add: mod_if)

lemma sub_buffer_honest:
  "honest b \<Longrightarrow> off + len \<le> buf_len b \<Longrightarrow> honest (sub_buffer b off len)"
  by (auto simp: honest_def sub_buffer_def)

text \<open>
  The frames on which \<open>amqp_handle_input\<close> leaves the frame it was given: a HEADER frame too short
  for the class, the weight and the body size, whose fields are read from what the buffer held before
  and without a limit, and one whose properties start with three flag words.
\<close>

definition risky_frame :: "cbuf \<Rightarrow> nat \<Rightarrow> bool" where
  "risky_frame b target \<longleftrightarrow> buf_bytes b ! 0 = AMQP_FRAME_HEADER \<and>
     (target < HEADER_SIZE + 12 + FOOTER_SIZE \<or>
      three_flag_words (sub_buffer b (HEADER_SIZE + 12) (target - (HEADER_SIZE + 12 + FOOTER_SIZE))))"

text \<open>
  A METHOD frame too short for a method number is refused: the number is read across the end marker,
  and no method number has a byte 206.
\<close>

lemma no_end_marker_in_ids: "i \<in> set encode_cases \<Longrightarrow> AMQP_FRAME_END \<notin> set (be_bytes 4 (unat i))"
  unfolding encode_cases_def method_ids AMQP_FRAME_END_def
  by (auto simp: be_bytes_numeral)

lemma be_bytes_be_nat: "be_bytes (length bs) (be_nat bs) = bs"
proof (induction bs rule: rev_induct)
  case (snoc b bs)
  have "unat b < 256" using unat_bound [of b] by simp
  then have "(word_of_nat (256 * be_nat bs + unat b) :: byte) = b"
    by (simp only: word_unat_eq_iff unat_of_nat) simp
  with snoc \<open>unat b < 256\<close> show ?case by (simp del: of_nat_add of_nat_mult)
qed simp

lemma short_method_frame_refused:
  assumes "honest b" and "7 \<le> off" and "off < 11" and "11 \<le> buf_len b" and "buf_bytes b ! off = AMQP_FRAME_END"
    and "D_32 b 7 = Inr i"
  shows "amqp_decode_method mem i c = Inl ENOENT"
proof -
  let ?ws = "take 4 (drop 7 (buf_bytes b))"
  have len: "length ?ws = 4" using assms(1,4) by (simp add: honest_def)
  have "i = word_of_nat (be_nat ?ws)" using assms(1,4,6) by (simp add: D_32_def D_honest)
  moreover have "be_nat ?ws < 2 ^ 32" using be_nat_less [of ?ws] len by simp
  ultimately have "unat i = be_nat ?ws" by (simp add: unat_of_nat)
  then have eq: "be_bytes 4 (unat i) = ?ws" using be_bytes_be_nat [of ?ws] len by simp
  have "?ws ! (off - 7) = AMQP_FRAME_END" using assms len by (simp add: honest_def)
  moreover have "off - 7 < length ?ws" using assms(2,3) unfolding len by simp
  ultimately have "AMQP_FRAME_END \<in> set ?ws" by (metis nth_mem)
  then have "i \<notin> set encode_cases" using no_end_marker_in_ids [of i] unfolding eq by blast
  then have "map_of (method_decoders mem) i = None" by (metis keys_decoders(1) map_of_eq_None_iff set_map)
  then show ?thesis by (simp add: amqp_decode_method_def)
qed

lemma method_frame_defined:
  assumes "honest b" and "8 \<le> target" and "target \<le> buf_len b" and pool: "\<And>n. pool_ok mem n"
    and marker: "buf_bytes b ! (target - 1) = AMQP_FRAME_END"
  shows "decode_method_frame mem b target ch \<noteq> Inl (Undefined u)"
proof -
  have lt: "target < 2 ^ 31" "buf_len b < 2 ^ 31" using assms(1,3) by (simp_all add: honest_def)
  note D = D_honest [OF assms(1)] D_fixed_honest [OF assms(1)]
  consider "12 \<le> target" | "target < 12" "11 \<le> buf_len b" | "buf_len b < 11" by linarith
  then show ?thesis
  proof cases
    case 1
    then have len: "size_minus target (HEADER_SIZE + 4 + FOOTER_SIZE) = target - 12"
      using lt by (subst size_minus_eq) (simp_all add: HEADER_SIZE_def FOOTER_SIZE_def)
    have "honest (sub_buffer b 11 (target - 12))" using 1 assms(3) by (intro sub_buffer_honest assms(1)) simp
    from decode_method_defined [OF pool this] show ?thesis
      using D(2) [of 11 "target - 12"] D(5) [of 7] 1 assms(3) lt
      unfolding decode_method_frame_def Let_def len
      by (auto simp: HEADER_SIZE_def check_Inl)
  next
    case 2
    then obtain i where i: "D_32 b 7 = Inr i" using D(5) [of 7] by auto
    have "7 \<le> target - 1" using assms(2) by simp
    with 2 marker i have "amqp_decode_method mem i c = Inl ENOENT" for c
      by (intro short_method_frame_refused [OF assms(1), of "target - 1"]) simp_all
    with i show ?thesis
      by (auto simp: decode_method_frame_def Let_def check_Inl HEADER_SIZE_def D_CHECK_def split: if_splits)
  next
    case 3
    then have "D_32 b 7 = Inl EFAULT"
      using assms(1) CHECK_LIMIT_honest [OF assms(1), of 7 4] assms(2,3)
      by (simp add: D_32_def D_BYTES_def)
    then show ?thesis
      by (auto simp: decode_method_frame_def Let_def check_Inl HEADER_SIZE_def D_CHECK_def split: if_splits)
  qed
qed

lemma header_frame_defined:
  assumes "honest b" and "target \<le> buf_len b" and pool: "\<And>n. pool_ok mem n"
    and "20 \<le> target" and "\<not> three_flag_words (sub_buffer b 19 (target - 20))"
  shows "decode_header_frame mem b target ch \<noteq> Inl (Undefined u)"
proof -
  have lt: "target < 2 ^ 31" "buf_len b < 2 ^ 31" using assms(1,2) by (simp_all add: honest_def)
  note D = D_honest [OF assms(1)] D_fixed_honest [OF assms(1)]
  have len: "size_minus target (HEADER_SIZE + 12 + FOOTER_SIZE) = target - 20"
    using lt assms(4) by (subst size_minus_eq) (simp_all add: HEADER_SIZE_def FOOTER_SIZE_def)
  have "honest (sub_buffer b 19 (target - 20))" using assms(2,4) by (intro sub_buffer_honest assms(1)) simp
  from decode_properties_undefined [OF pool this] show ?thesis
    using D(2) [of 19 "target - 20"] D(4) [of 7] D(6) [of 11] assms(2,4,5) lt
    unfolding decode_header_frame_def Let_def len
    by (auto simp: HEADER_SIZE_def check_Inl)
qed

lemma body_frame_defined:
  assumes "honest b" and "8 \<le> target" and "target \<le> buf_len b"
  shows "decode_body_frame b target ch \<noteq> Inl (Undefined u)"
proof -
  have lt: "target < 2 ^ 31" "buf_len b < 2 ^ 31" using assms(1,3) by (simp_all add: honest_def)
  have len: "size_minus target (HEADER_SIZE + FOOTER_SIZE) = target - 8"
    using lt assms(2) by (subst size_minus_eq) (simp_all add: HEADER_SIZE_def FOOTER_SIZE_def)
  show ?thesis
    using D_honest(1) [OF assms(1), of 7 "target - 8"] assms(2,3) lt
    unfolding decode_body_frame_def len by (simp add: HEADER_SIZE_def)
qed

lemma decode_frame_undefined:
  assumes "honest b" and "7 \<le> target" and "target \<le> buf_len b" and pool: "\<And>n. pool_ok mem n"
    and hd: "header_target b = Inr (CONNECTION_STATE_WAITING_FOR_BODY, target)"
    and "decode_frame mem b target = Inl (Undefined u)"
  shows "risky_frame b target"
proof (rule ccontr)
  assume safe: "\<not> risky_frame b target"
  have lt: "target < 2 ^ 31" "buf_len b < 2 ^ 31" using assms(1,3) by (simp_all add: honest_def)
  note D = D_honest [OF assms(1)] D_fixed_honest [OF assms(1)]
  from D(4) [of 1] assms(2,3) obtain ch where ch: "D_16 b 1 = Inr ch" by auto
  let ?marked = "buf_bytes b ! (target - 1) = AMQP_FRAME_END"
  have eight: "8 \<le> target" if ?marked
    using that header_target_wraps [OF assms(1)] hd assms(2,3) by (cases "target = 7") (auto simp: AMQP_FRAME_END_def)
  have hdr: "decode_header_frame mem b target ch \<noteq> Inl (Undefined u)" if "buf_bytes b ! 0 = AMQP_FRAME_HEADER"
    using that safe by (intro header_frame_defined assms(1,3) pool)
      (auto simp: risky_frame_def HEADER_SIZE_def FOOTER_SIZE_def)
  have last: "size_minus target 1 = target - 1" using assms(2) lt by (subst size_minus_eq) simp_all
  show False
    using assms(2,3) assms(6) method_frame_defined [OF assms(1) eight assms(3) pool, of ch u]
      body_frame_defined [OF assms(1) eight assms(3), of ch u] hdr ch D(3) [of 0] D(3) [of "target - 1"]
    unfolding decode_frame_def last by (auto split: if_splits)
qed

section \<open>What a call returns\<close>

definition outcome :: "nat \<Rightarrow> nat \<Rightarrow> (nat \<times> amqp_frame) step \<Rightarrow> bool" where
  "outcome k len r \<longleftrightarrow>
     framing_ok (fst r) \<and>
     (case snd r of
        Inr (consumed, frame) \<Rightarrow> k \<le> consumed \<and> consumed \<le> k + len
      | Inl e \<Rightarrow> (\<forall>u. e = Undefined u \<longrightarrow>
          phase (fst r) = CONNECTION_STATE_WAITING_FOR_BODY \<and>
          risky_frame (inbound_buffer (fst r)) (target_size (fst r))))"

lemma finish_frame_outcome:
  assumes "collecting st" and "phase st = CONNECTION_STATE_WAITING_FOR_BODY"
    and "inbound_offset st = target_size st" and "\<And>n. pool_ok mem n" and "n \<le> len"
  shows "outcome k len (counted (k + n) (finish_frame mem st))"
proof -
  note b = collecting_bounds [OF assms(1)]
  have t: "7 \<le> target_size st"
    using assms(1-3) by (auto simp: collecting_def framing_ok_def HEADER_SIZE_def)
  have hd: "header_target (inbound_buffer st) = Inr (CONNECTION_STATE_WAITING_FOR_BODY, target_size st)"
    using assms(1,2) by (simp add: collecting_def framing_ok_def)
  show ?thesis
  proof (cases "decode_frame mem (inbound_buffer st) (target_size st)")
    case (Inl e)
    with decode_frame_undefined [OF b(1) t _ assms(4) hd] b(2) assms show ?thesis
      by (auto simp: outcome_def finish_frame_def counted_def collecting_def)
  next
    case (Inr f)
    with b(1) assms(5) show ?thesis
      by (simp add: outcome_def finish_frame_def counted_def)
  qed
qed

lemma finish_protocol_header_outcome:
  assumes "collecting st" and "phase st = CONNECTION_STATE_WAITING_FOR_PROTOCOL_HEADER"
    and "inbound_offset st = target_size st" and "n \<le> len"
  shows "outcome k len (counted (k + n) (finish_protocol_header st))"
proof -
  note b = collecting_bounds [OF assms(1)]
  have "8 \<le> buf_len (inbound_buffer st)"
    using assms(1-3) b(2) by (auto simp: collecting_def framing_ok_def)
  with b(1) assms(1,4) show ?thesis
    by (simp add: finish_protocol_header_def Let_def D_fixed_honest(1) outcome_def counted_def collecting_def)
qed

lemma read_more_rest_outcome:
  assumes "collecting st" and "phase st \<noteq> CONNECTION_STATE_WAITING_FOR_HEADER"
    and "\<And>n. pool_ok mem n" and "length data < 2 ^ 31"
  shows "outcome k (length data) (read_more mem st data k)"
proof (cases "data = []")
  case True
  with assms(1) show ?thesis by (simp add: outcome_def collecting_def)
next
  case False
  define n where "n = wanted st (length data)"
  let ?st = "absorb st (take n data)"
  have len: "n \<le> length data" "length (take n data) = n" by (simp_all add: n_def)
  note eq = read_more_eq [OF assms(1) False assms(4), of mem k, folded n_def]
  have idle: "phase st \<noteq> CONNECTION_STATE_IDLE" using assms(1) by (simp add: collecting_def)
  consider "buf_len (inbound_buffer st) < inbound_offset st + n"
    | "inbound_offset st + n \<le> buf_len (inbound_buffer st)" "target_size st < inbound_offset st + n"
    | "inbound_offset st + n \<le> buf_len (inbound_buffer st)" "inbound_offset st + n \<le> target_size st"
    by linarith
  then show ?thesis
  proof cases
    case 1
    with eq assms(1) show ?thesis by (simp add: outcome_def collecting_def)
  next
    case 2
    have "phase st = CONNECTION_STATE_WAITING_FOR_BODY"
    proof (rule ccontr)
      assume "phase st \<noteq> CONNECTION_STATE_WAITING_FOR_BODY"
      with assms(1,2) have "inbound_offset st \<le> target_size st"
        by (auto simp: collecting_def framing_ok_def split: connection_phase.splits)
      with 2(2) show False by (simp add: n_def wanted_def)
    qed
    with 2 len have "collecting ?st" by (intro collecting_absorb assms(1)) simp_all
    with 2 eq show ?thesis by (simp add: outcome_def collecting_def)
  next
    case 3
    with len have st: "collecting ?st" by (intro collecting_absorb assms(1)) simp_all
    show ?thesis
    proof (cases "inbound_offset st + n < target_size st")
      case True
      with 3 eq st len show ?thesis by (simp add: outcome_def collecting_def)
    next
      case False
      with 3 len have off: "inbound_offset ?st = target_size ?st" by simp
      show ?thesis
      proof (cases "phase st = CONNECTION_STATE_WAITING_FOR_BODY")
        case True
        have "outcome k (length data) (counted (k + n) (finish_frame mem ?st))"
          by (rule finish_frame_outcome [OF st _ off assms(3) len(1)]) (simp add: True)
        with True 3 False eq show ?thesis by simp
      next
        case pr: False
        then have "phase ?st = CONNECTION_STATE_WAITING_FOR_PROTOCOL_HEADER"
          using assms(2) idle by (cases "phase st") simp_all
        from finish_protocol_header_outcome [OF st this off len(1)] pr 3 False assms(2) eq
        show ?thesis by simp
      qed
    qed
  qed
qed

lemma outcome_skip:
  "outcome (k + n) (len - n) r \<Longrightarrow> n \<le> len \<Longrightarrow> outcome k len r"
  by (auto simp: outcome_def split: sum.splits)

lemma read_more_outcome:
  assumes "collecting st" and "\<And>n. pool_ok mem n" and "length data < 2 ^ 31"
  shows "outcome k (length data) (read_more mem st data k)"
proof (cases "data = [] \<or> phase st \<noteq> CONNECTION_STATE_WAITING_FOR_HEADER")
  case True
  then show ?thesis
  proof
    assume "data = []"
    with assms(1) show ?thesis by (simp add: outcome_def collecting_def)
  next
    assume "phase st \<noteq> CONNECTION_STATE_WAITING_FOR_HEADER"
    then show ?thesis by (rule read_more_rest_outcome [OF assms(1) _ assms(2,3)])
  qed
next
  case False
  define n where "n = wanted st (length data)"
  let ?st = "absorb st (take n data)"
  have len: "n \<le> length data" "length (take n data) = n" by (simp_all add: n_def)
  from False have "data \<noteq> []" by simp
  note eq = read_more_eq [OF assms(1) this assms(3), of mem k, folded n_def]
  have hd: "inbound_offset st \<le> HEADER_SIZE" "target_size st = HEADER_SIZE"
    using assms(1) False by (simp_all add: collecting_def framing_ok_def)
  then have n: "inbound_offset st + n \<le> target_size st" by (simp add: n_def wanted_def)
  show ?thesis
  proof (cases "buf_len (inbound_buffer st) < inbound_offset st + n")
    case True
    with eq assms(1) show ?thesis by (simp add: outcome_def collecting_def)
  next
    case fits: False
    with n len have st: "collecting ?st" by (intro collecting_absorb assms(1)) simp_all
    show ?thesis
    proof (cases "inbound_offset st + n < target_size st")
      case True
      with fits eq st len show ?thesis by (simp add: outcome_def collecting_def)
    next
      case whole: False
      with n hd len have "inbound_offset ?st = HEADER_SIZE" by simp
      note rd = collecting_header_read [OF st this]
      have "outcome (k + n) (length data - n) (read_more mem (header_read ?st) (drop n data) (k + n))"
        using read_more_rest_outcome [OF rd assms(2), where data = "drop n data" and k = "k + n"] assms(3)
        by simp
      from outcome_skip [OF this len(1)] fits whole n False eq show ?thesis by simp
    qed
  qed
qed

section \<open>METHOD frames without room for a method number\<close>

lemma short_method_frame_error:
  assumes "honest b" and "8 \<le> target" and "target \<le> buf_len b" and "target < 12"
    and marker: "buf_bytes b ! (target - 1) = AMQP_FRAME_END"
  shows "decode_method_frame mem b target ch \<noteq> Inr f"
proof (cases "11 \<le> buf_len b")
  case True
  then obtain i where i: "D_32 b 7 = Inr i" using D_fixed_honest(3) [OF assms(1), of 7] by auto
  have "7 \<le> target - 1" using assms(2) by simp
  with True assms(4) marker i have "amqp_decode_method mem i c = Inl ENOENT" for c
    by (intro short_method_frame_refused [OF assms(1), of "target - 1"]) simp_all
  with i show ?thesis
    by (auto simp: decode_method_frame_def Let_def check_Inr HEADER_SIZE_def)
next
  case False
  then have "D_32 b 7 = Inl EFAULT"
    using assms(1) CHECK_LIMIT_honest [OF assms(1), of 7 4] assms(2,3)
    by (simp add: D_32_def D_BYTES_def)
  then show ?thesis by (auto simp: decode_method_frame_def Let_def check_Inr HEADER_SIZE_def)
qed

lemma decode_frame_method_long:
  assumes "honest b" and "7 \<le> target" and "target \<le> buf_len b"
    and hd: "header_target b = Inr (CONNECTION_STATE_WAITING_FOR_BODY, target)"
    and frame: "decode_frame mem b target = Inr (Method_Frame ch i m)"
  shows "12 \<le> target"
proof (rule ccontr)
  assume "\<not> 12 \<le> target"
  then have short: "target < 12" by simp
  have lt: "target < 2 ^ 31" "buf_len b < 2 ^ 31" using assms(1,3) by (simp_all add: honest_def)
  note D = D_honest [OF assms(1)] D_fixed_honest [OF assms(1)]
  have last: "size_minus target 1 = target - 1" using assms(2) lt by (subst size_minus_eq) simp_all
  have marked: "buf_bytes b ! (target - 1) = AMQP_FRAME_END"
    using frame assms(2,3) D(3) [of "target - 1"]
    unfolding decode_frame_def last by (auto simp: check_Inr split: if_splits)
  have "target \<noteq> 7"
    using marked header_target_wraps [OF assms(1)] hd assms(3) by (auto simp: AMQP_FRAME_END_def)
  then have "8 \<le> target" using assms(2) by simp
  from short_method_frame_error [OF assms(1) this assms(3) short marked] frame show False
    by (auto simp: decode_frame_def decode_header_frame_def decode_body_frame_def Let_def check_Inr
        split: if_splits)
qed

lemma protocol_header_no_method:
  "counted n (finish_protocol_header st) \<noteq> (st', Inr (c, Method_Frame ch i m))"
  by (auto simp: counted_def finish_protocol_header_def Let_def check_Inr split: sum.splits if_splits)

lemma read_more_rest_method:
  assumes "collecting st" and "phase st \<noteq> CONNECTION_STATE_WAITING_FOR_HEADER" and "length data < 2 ^ 31"
    and "read_more mem st data k = (st', Inr (c, Method_Frame ch i m))"
  shows "k + 12 \<le> inbound_offset st + c"
proof -
  have ne: "data \<noteq> []" using assms(4) by auto
  define n where "n = wanted st (length data)"
  let ?st = "absorb st (take n data)"
  have len: "length (take n data) = n" by (simp add: n_def)
  note eq = read_more_eq [OF assms(1) ne assms(3), of mem k, folded n_def]
  have fits: "inbound_offset st + n \<le> buf_len (inbound_buffer st)" "inbound_offset st + n = target_size st"
    and body: "phase st = CONNECTION_STATE_WAITING_FOR_BODY"
    and done': "counted (k + n) (finish_frame mem ?st) = (st', Inr (c, Method_Frame ch i m))"
    using eq assms(2,4) protocol_header_no_method [of "k + n" ?st st' c ch i m]
    by (auto split: if_splits)
  have c: "c = k + n" and frame:
      "decode_frame mem (inbound_buffer ?st) (target_size ?st) = Inr (Method_Frame ch i m)"
    using done' by (auto simp: counted_def finish_frame_def split: sum.splits)
  have st: "collecting ?st" using fits len by (intro collecting_absorb assms(1)) simp_all
  note b = collecting_bounds [OF st]
  have "header_target (inbound_buffer ?st) = Inr (CONNECTION_STATE_WAITING_FOR_BODY, target_size ?st)"
    and "7 \<le> target_size ?st"
    using st body fits len by (simp_all add: collecting_def framing_ok_def HEADER_SIZE_def)
  from decode_frame_method_long [OF b(1) this(2) _ this(1) frame] fits c show ?thesis by simp
qed

lemma read_more_method:
  assumes "collecting st" and "length data < 2 ^ 31"
    and "read_more mem st data k = (st', Inr (c, Method_Frame ch i m))"
  shows "k + 12 \<le> inbound_offset st + c"
proof (cases "phase st = CONNECTION_STATE_WAITING_FOR_HEADER")
  case False
  then show ?thesis using read_more_rest_method [OF assms(1) _ assms(2,3)] by blast
next
  case True
  have ne: "data \<noteq> []" using assms(3) by auto
  define n where "n = wanted st (length data)"
  have len: "length (take n data) = n" by (simp add: n_def)
  note eq = read_more_eq [OF assms(1) ne assms(2), of mem k, folded n_def]
  have hd: "inbound_offset st \<le> HEADER_SIZE" "target_size st = HEADER_SIZE"
    using assms(1) True by (simp_all add: collecting_def framing_ok_def)
  then have n: "inbound_offset st + n \<le> target_size st" by (simp add: n_def wanted_def)
  let ?st = "absorb st (take n data)"
  have step: "inbound_offset st + n \<le> buf_len (inbound_buffer st)" "inbound_offset st + n = HEADER_SIZE"
      "read_more mem (header_read ?st) (drop n data) (k + n) = (st', Inr (c, Method_Frame ch i m))"
    using eq assms(3) True n hd by (auto split: if_splits)
  have c: "collecting ?st" using step(1) n len by (intro collecting_absorb assms(1)) simp_all
  have "inbound_offset ?st = HEADER_SIZE" using step(2) len by simp
  from read_more_rest_method [OF collecting_header_read [OF c this] _ step(3)] assms(2) len show ?thesis
    by simp
qed

section \<open>How the bytes are split does not matter\<close>

text \<open>
  The same result and the same state, unless a frame does not fit the buffer.  (Then the bytes that
  did fit were stored if they came first.)
\<close>

definition agrees :: "(nat \<times> amqp_frame) step \<Rightarrow> (nat \<times> amqp_frame) step \<Rightarrow> bool" where
  "agrees r r' \<longleftrightarrow>
     snd r = snd r' \<and>
     (fst r = fst r' \<or>
      snd r = Inl EFAULT \<and> buf_len (inbound_buffer (fst r)) < target_size (fst r))"

lemma agrees_refl [simp]: "agrees r r"
  by (simp add: agrees_def)

lemma finish_idle:
  "counted n (finish_frame mem st) = (st', Inr r) \<Longrightarrow> phase st' = CONNECTION_STATE_IDLE"
  "counted n (finish_protocol_header st) = (st', Inr r) \<Longrightarrow> phase st' = CONNECTION_STATE_IDLE"
  by (auto simp: counted_def finish_frame_def finish_protocol_header_def Let_def split: sum.splits)

lemma split_partial:
  assumes "collecting st" and "b \<noteq> []" and "length (a @ b) < 2 ^ 31"
    and "inbound_offset st + length a \<le> buf_len (inbound_buffer st)"
    and "inbound_offset st + length a < target_size st"
  shows "agrees (read_more mem st (a @ b) k) (read_more mem (absorb st a) b (k + length a))"
proof -
  let ?st = "absorb st a"
  have st: "collecting ?st" using assms(4,5) by (intro collecting_absorb assms(1)) simp_all
  define m where "m = wanted ?st (length b)"
  have m: "wanted st (length (a @ b)) = length a + m" "m \<le> length b"
    using assms(5) by (auto simp: m_def wanted_def)
  have ab: "a @ b \<noteq> []" "length b < 2 ^ 31" using assms(2,3) by auto
  note e1 = read_more_eq [OF assms(1) ab(1) assms(3), of mem k, unfolded m(1)]
  note e2 = read_more_eq [OF st assms(2) ab(2), of mem "k + length a", folded m_def]
  have tk: "take (length a + m) (a @ b) = a @ take m b" "drop (length a + m) (a @ b) = drop m b" by simp_all
  have same: "absorb ?st (take m b) = absorb st (a @ take m b)"
    if "inbound_offset st + (length a + m) \<le> buf_len (inbound_buffer st)"
    using that m(2) by (intro absorb_absorb collecting_bounds(1) [OF assms(1)]) simp
  show ?thesis
  proof (cases "buf_len (inbound_buffer st) < inbound_offset st + (length a + m)")
    case True
    have "inbound_offset st + (length a + m) \<le> target_size st"
      using assms(5) by (auto simp: m_def wanted_def)
    with True e1 e2 show ?thesis by (simp add: agrees_def add.assoc)
  next
    case False
    with same have "absorb ?st (take m b) = absorb st (a @ take m b)" by simp
    with False show ?thesis unfolding e1 e2 tk by (simp add: add.assoc)
  qed
qed

lemma read_more_cases:
  assumes "collecting st" and "a \<noteq> []" and "length a < 2 ^ 31"
    and "read_more mem st a k = (st1, Inr (k + length a, No_Frame))" and "phase st1 \<noteq> CONNECTION_STATE_IDLE"
  obtains (partial) "st1 = absorb st a" "inbound_offset st + length a \<le> buf_len (inbound_buffer st)"
      "inbound_offset st + length a < target_size st"
  | (head) n where "phase st = CONNECTION_STATE_WAITING_FOR_HEADER" "inbound_offset st + n = target_size st"
      "n \<le> length a" "inbound_offset st + n \<le> buf_len (inbound_buffer st)"
      "read_more mem (header_read (absorb st (take n a))) (drop n a) (k + n) = (st1, Inr (k + length a, No_Frame))"
proof -
  define n where "n = wanted st (length a)"
  note eq = read_more_eq [OF assms(1-3), of mem k, folded n_def]
  have n: "n \<le> length a" by (simp add: n_def)
  from assms(4) eq have fits: "inbound_offset st + n \<le> buf_len (inbound_buffer st)"
    and le: "inbound_offset st + n \<le> target_size st"
    by (auto split: if_splits)
  show thesis
  proof (cases "inbound_offset st + n < target_size st")
    case True
    with eq fits assms(4) show ?thesis by (intro that(1)) auto
  next
    case False
    have "phase st = CONNECTION_STATE_WAITING_FOR_HEADER"
    proof (rule ccontr)
      let ?st = "absorb st (take n a)" and ?r = "(st1, Inr (k + length a, No_Frame))"
      assume "phase st \<noteq> CONNECTION_STATE_WAITING_FOR_HEADER"
      with eq fits le False assms(4)
      have "counted (k + n) (finish_frame mem ?st) = ?r \<or> counted (k + n) (finish_protocol_header ?st) = ?r"
        by (auto split: if_splits)
      with finish_idle assms(5) show False by blast
    qed
    with eq fits le False assms(4) n show ?thesis by (intro that(2) [of n]) auto
  qed
qed

lemma read_more_split:
  assumes "collecting st" and "length (a @ b) < 2 ^ 31"
    and "read_more mem st a k = (st1, Inr (k + length a, No_Frame))" and "phase st1 \<noteq> CONNECTION_STATE_IDLE"
  shows "agrees (read_more mem st (a @ b) k) (read_more mem st1 b (k + length a))"
proof (cases "a = [] \<or> b = []")
  case True
  with assms(3) show ?thesis by auto
next
  case False
  then have ab: "a \<noteq> []" "b \<noteq> []" "length a < 2 ^ 31" using assms(2) by auto
  show ?thesis
  proof (cases rule: read_more_cases [OF assms(1) ab(1,3) assms(3,4)])
    case 1
    with split_partial [OF assms(1) ab(2) assms(2)] show ?thesis by simp
  next
    case (2 n)
    let ?st = "header_read (absorb st (take n a))"
    have len: "length (take n a) = n" using 2(3) by simp
    have "inbound_offset st \<le> HEADER_SIZE" "target_size st = HEADER_SIZE"
      using assms(1) 2(1) by (simp_all add: collecting_def framing_ok_def)
    with 2 len have "collecting (absorb st (take n a))"
      by (intro collecting_absorb assms(1)) simp_all
    moreover have "inbound_offset (absorb st (take n a)) = HEADER_SIZE"
      using 2(2) len \<open>target_size st = HEADER_SIZE\<close> by simp
    ultimately have rd: "collecting ?st" "phase ?st \<noteq> CONNECTION_STATE_WAITING_FOR_HEADER"
      by (rule collecting_header_read)+
    have "wanted st (length (a @ b)) = n" using 2(2,3) by (simp add: wanted_def)
    then have "read_more mem st (a @ b) k = read_more mem ?st (drop n a @ b) (k + n)"
      using read_more_eq [OF assms(1) _ assms(2), of mem k] ab 2(1-4) by simp
    moreover have "agrees (read_more mem ?st (drop n a @ b) (k + n)) (read_more mem st1 b (k + length a))"
    proof (cases "drop n a = []")
      case True
      have e: "st1 = ?st" "k + length a = k + n"
        using 2(5) unfolding True read_more_nil prod.inject sum.inject by auto
      show ?thesis unfolding e True by simp
    next
      case False
      have len': "length (drop n a @ b) < 2 ^ 31" "length (drop n a) < 2 ^ 31" using assms(2) by simp_all
      have k: "k + length a = k + n + length (drop n a)" using 2(3) by simp
      show ?thesis
      proof (cases rule: read_more_cases [OF rd(1) False len'(2) 2(5) [unfolded k] assms(4)])
        case 1
        with split_partial [OF rd(1) ab(2) len'(1)] show ?thesis unfolding k by simp
      next
        case (2 m)
        with rd(2) show ?thesis by simp
      qed
    qed
    ultimately show ?thesis by simp
  qed
qed

lemma counted_shift:
  "counted (n + d) r = map_prod id (map_sum id (map_prod (\<lambda>n. n + d) id)) (counted n r)"
proof (cases r)
  case (Pair st x)
  then show ?thesis by (cases x) (simp_all add: counted_def)
qed

lemma read_more_shift:
  "read_more mem st data (k + d) = map_prod id (map_sum id (map_prod (\<lambda>n. n + d) id)) (read_more mem st data k)"
proof (induction mem st data k rule: read_more.induct)
  case (1 mem st data k)
  let ?st1 = "begin_frame mem st"
  define n where "n = bytes_consumed ?st1 (length data)"
  note unfold = read_more.simps [of mem st data, unfolded Let_def, folded n_def]
  show ?case
  proof (cases "data = []")
    case nonempty: False
    show ?thesis
    proof (cases "E_BYTES (inbound_buffer ?st1) (inbound_offset ?st1) (take n data)")
      case (Inl e)
      with nonempty show ?thesis by (simp add: unfold)
    next
      case (Inr buf)
      define st2 where "st2 = ?st1\<lparr>inbound_buffer := buf, inbound_offset := inbound_offset ?st1 + n\<rparr>"
      have step: "read_more mem st data m =
         (if target_size st2 < inbound_offset st2 then (st2, Inl Aborted)
          else if inbound_offset st2 < target_size st2 then (st2, Inr (m + n, No_Frame))
          else case phase st2 of
              CONNECTION_STATE_WAITING_FOR_HEADER \<Rightarrow>
                (case header_target buf of
                   Inl e \<Rightarrow> (st2, Inl e)
                 | Inr (ph, target) \<Rightarrow>
                     read_more mem (st2\<lparr>target_size := target, phase := ph\<rparr>) (drop n data) (m + n))
            | CONNECTION_STATE_WAITING_FOR_BODY \<Rightarrow> counted (m + n) (finish_frame mem st2)
            | CONNECTION_STATE_WAITING_FOR_PROTOCOL_HEADER \<Rightarrow> counted (m + n) (finish_protocol_header st2)
            | CONNECTION_STATE_IDLE \<Rightarrow> (st2, Inl Aborted))" for m
        by (subst unfold, unfold Inr st2_def) (simp only: nonempty if_False sum.case)
      show ?thesis
      proof (cases "inbound_offset st2 = target_size st2 \<and> phase st2 = CONNECTION_STATE_WAITING_FOR_HEADER")
        case False
        have shift: "counted (k + d + n) r = map_prod id (map_sum id (map_prod (\<lambda>n. n + d) id)) (counted (k + n) r)"
          for r :: "amqp_frame step" using counted_shift [of "k + n" d r] by (simp only: ac_simps)
        from False show ?thesis
          unfolding step by (auto simp: shift id_def split: connection_phase.splits)
      next
        case 3: True
        show ?thesis
        proof (cases "header_target buf")
          case (Inl e)
          with 3 show ?thesis unfolding step by simp
        next
          case h: (Inr p)
          obtain ph t where p: "p = (ph, t)" by fastforce
          have "\<not> target_size st2 < inbound_offset st2" "\<not> inbound_offset st2 < target_size st2"
            using 3 by simp_all
          from 1 [OF nonempty refl refl Inr [unfolded n_def] refl this [unfolded st2_def n_def] _ h p [symmetric]]
          have "read_more mem (st2\<lparr>target_size := t, phase := ph\<rparr>) (drop n data) (k + n + d) =
              map_prod id (map_sum id (map_prod (\<lambda>n. n + d) id))
                (read_more mem (st2\<lparr>target_size := t, phase := ph\<rparr>) (drop n data) (k + n))"
            using 3 by (simp add: st2_def n_def id_def)
          then have "read_more mem (st2\<lparr>target_size := t, phase := ph\<rparr>) (drop n data) (k + d + n) =
              map_prod id (map_sum id (map_prod (\<lambda>n. n + d) id))
                (read_more mem (st2\<lparr>target_size := t, phase := ph\<rparr>) (drop n data) (k + n))"
            by (simp only: ac_simps)
          with 3 h p show ?thesis unfolding step by (simp add: id_def)
        qed
      qed
    qed
  qed simp
qed

end
