(* ===== verification/Frames.thy ===== *)
theory Frames
  imports Connection_Laws
begin

text \<open>
  Whole frames: the bytes of a frame on the wire, what the sender writes, and what the receiver makes
  of any part of them.
\<close>

section \<open>The bytes of a frame\<close>

fun frame_payload :: "amqp_frame \<Rightarrow> byte list" where
  "frame_payload (Method_Frame _ i m) = wire_32 i @ wire_method m"
| "frame_payload (Header_Frame _ c sz p) = wire_16 c @ wire_16 0 @ wire_64 sz @ wire_properties p"
| "frame_payload (Body_Frame _ fragment) = fragment"
| "frame_payload _ = []"

definition wire_frame :: "amqp_frame \<Rightarrow> byte list" where
  "wire_frame f =
     [frame_type f] @ wire_16 (frame_channel f) @ wire_32 (word_of_nat (length (frame_payload f))) @
     frame_payload f @ [AMQP_FRAME_END]"

text \<open>A frame that one side sends and the other side builds again.\<close>

fun valid_frame :: "amqp_frame \<Rightarrow> bool" where
  "valid_frame (Method_Frame _ i m) \<longleftrightarrow> i = id_method m \<and> valid_method m"
| "valid_frame (Header_Frame _ c _ p) \<longleftrightarrow> c = class_of p \<and> valid_properties p"
| "valid_frame (Body_Frame _ _) \<longleftrightarrow> True"
| "valid_frame (Heartbeat_Frame _) \<longleftrightarrow> True"
| "valid_frame _ \<longleftrightarrow> False"

lemma length_wire_ints [simp]:
  "length (wire_8 a) = 1" "length (wire_16 b) = 2" "length (wire_32 c) = 4" "length (wire_64 d) = 8"
  by (simp_all add: wire_8_def wire_16_def wire_32_def wire_64_def)

lemma length_wire_frame: "length (wire_frame f) = length (frame_payload f) + 8"
  by (simp add: wire_frame_def)

lemma wire_frame_nonempty [simp]: "wire_frame f \<noteq> []"
  by (simp add: wire_frame_def)

section \<open>Writing and reading in the middle of a buffer\<close>

lemma E_BYTES_at:
  assumes "honest b" and "buf_bytes b = pre @ old @ post" and "length pre = off" and "length old = length ws"
  shows "E_BYTES b off ws = Inr (b\<lparr>buf_bytes := pre @ ws @ post\<rparr>)"
proof -
  have len: "off + length ws \<le> buf_len b" "buf_len b < 2 ^ 31" using assms by (simp_all add: honest_def)
  then have "E_BYTES b off ws = Inr (b\<lparr>buf_bytes := splice (buf_bytes b) off ws\<rparr>)"
    using E_BYTES_honest [OF assms(1), of off ws] by simp
  with assms(2-4) show ?thesis by (simp add: splice_def)
qed

lemma E_at:
  assumes "honest b" and "buf_bytes b = pre @ old @ post" and "length pre = off"
  shows "length old = 1 \<Longrightarrow> E_8 b off v8 = Inr (b\<lparr>buf_bytes := pre @ [v8] @ post\<rparr>)"
    and "length old = 2 \<Longrightarrow> E_16 b off v16 = Inr (b\<lparr>buf_bytes := pre @ wire_16 v16 @ post\<rparr>)"
    and "length old = 4 \<Longrightarrow> E_32 b off v32 = Inr (b\<lparr>buf_bytes := pre @ wire_32 v32 @ post\<rparr>)"
  using E_BYTES_at [OF assms] by (simp_all add: E_8_def E_16_def E_32_def wire_16_def wire_32_def)

lemma E_64_at:
  assumes "honest b" and "buf_bytes b = pre @ old @ post" and "length pre = off" and "length old = 8"
  shows "E_64 b off v = Inr (b\<lparr>buf_bytes := pre @ wire_64 v @ post\<rparr>)"
proof -
  let ?hi = "ucast (drop_bit 32 v) :: u32" and ?lo = "ucast v :: u32"
  have old: "old = take 4 old @ drop 4 old" by simp
  have "E_32 b off ?hi = Inr (b\<lparr>buf_bytes := pre @ wire_32 ?hi @ (drop 4 old @ post)\<rparr>)"
    using assms(2,4) by (intro E_at(3) [OF assms(1) _ assms(3), where old = "take 4 old"]) simp_all
  moreover have "honest (b\<lparr>buf_bytes := pre @ wire_32 ?hi @ (drop 4 old @ post)\<rparr>)"
    using assms(1,2,4) by (simp add: honest_def)
  then have "E_32 (b\<lparr>buf_bytes := pre @ wire_32 ?hi @ (drop 4 old @ post)\<rparr>) (off + 4) ?lo =
      Inr (b\<lparr>buf_bytes := (pre @ wire_32 ?hi) @ wire_32 ?lo @ post\<rparr>)"
    using assms(3,4) E_at(3) [of "b\<lparr>buf_bytes := pre @ wire_32 ?hi @ (drop 4 old @ post)\<rparr>"
        "pre @ wire_32 ?hi" "drop 4 old" post "off + 4" ?lo] by simp
  ultimately show ?thesis by (simp add: E_64_def wire_64_def)
qed

lemma D_at:
  assumes "honest b" and "length pre = off"
  shows "buf_bytes b = pre @ [v8] @ post \<Longrightarrow> D_8 b off = Inr v8"
    and "buf_bytes b = pre @ wire_16 v16 @ post \<Longrightarrow> D_16 b off = Inr v16"
    and "buf_bytes b = pre @ wire_32 v32 @ post \<Longrightarrow> D_32 b off = Inr v32"
    and "buf_bytes b = pre @ wire_64 v64 @ post \<Longrightarrow> D_64 b off = Inr v64"
    and "buf_bytes b = pre @ ws @ post \<Longrightarrow> D_BYTES b off (length ws) = Inr ws"
proof -
  have get: "d b off = Inr (v, off + k)" if "parses d ws v" "buf_bytes b = pre @ ws @ post" "length ws = k"
    for d ws k and v :: 'a
    using that assms unfolding parses_def by metis
  show "buf_bytes b = pre @ [v8] @ post \<Longrightarrow> D_8 b off = Inr v8"
    using get [OF parses_8] by (auto simp: get_8_def advance_Inr)
  show "buf_bytes b = pre @ wire_16 v16 @ post \<Longrightarrow> D_16 b off = Inr v16"
    using get [OF parses_16] by (auto simp: get_16_def advance_Inr wire_16_def)
  show "buf_bytes b = pre @ wire_32 v32 @ post \<Longrightarrow> D_32 b off = Inr v32"
    using get [OF parses_32] by (auto simp: get_32_def advance_Inr wire_32_def)
  show "buf_bytes b = pre @ wire_64 v64 @ post \<Longrightarrow> D_64 b off = Inr v64"
    using get [OF parses_64] by (auto simp: get_64_def advance_Inr wire_64_def wire_32_def)
  show "D_BYTES b off (length ws) = Inr ws" if "buf_bytes b = pre @ ws @ post"
  proof -
    from that assms(1) have "length ws < 2 ^ 33" by (simp add: honest_def)
    with D_BYTES_mid [OF assms(1) that] assms(2) show ?thesis by simp
  qed
qed

section \<open>What is sent\<close>

definition writes_front :: "(cbuf \<Rightarrow> c_error + (cbuf \<times> nat)) \<Rightarrow> byte list \<Rightarrow> bool" where
  "writes_front enc ws \<longleftrightarrow>
     (\<forall>b. honest b \<longrightarrow> length ws \<le> buf_len b \<longrightarrow>
        enc b = Inr (b\<lparr>buf_bytes := ws @ drop (length ws) (buf_bytes b)\<rparr>, length ws))"

lemma writes_front_codec:
  "valid_method m \<Longrightarrow> writes_front (amqp_encode_method (id_method m) m) (wire_method m)"
  "valid_properties p \<Longrightarrow> writes_front (amqp_encode_properties (class_of p) p) (wire_properties p)"
  by (simp_all add: writes_front_def encode_method_eq emits_front [OF emits_method]
      encode_properties_eq emits_front [OF emits_properties] del: enc_all.simps)

lemma encode_into_at:
  assumes "writes_front enc ws" and "honest out" and "buf_bytes out = A @ Q @ F @ R"
    and "length A = off" and "length Q = length ws" and "length F = 1"
  shows "encode_into out off (size_minus (buf_len out) (off + 1)) enc =
    Inr (out\<lparr>buf_bytes := A @ ws @ F @ R\<rparr>, length ws)"
proof -
  have len: "buf_len out = off + length ws + 1 + length R" "buf_len out < 2 ^ 31"
    using assms by (simp_all add: honest_def)
  let ?k = "length ws + length R"
  have k: "size_minus (buf_len out) (off + 1) = ?k"
    using len by (subst size_minus_eq) simp_all
  let ?sub = "sub_buffer out off ?k"
  have sub: "?sub = \<lparr>buf_len = ?k, buf_bytes = Q @ take (length R) (F @ R)\<rparr>"
    using assms(3-5) by (simp add: sub_buffer_def)
  have "honest ?sub" using len by (intro sub_buffer_honest assms(2)) simp
  with assms(1) have "enc ?sub = Inr (?sub\<lparr>buf_bytes := ws @ drop (length ws) (buf_bytes ?sub)\<rparr>, length ws)"
    by (simp add: writes_front_def sub_buffer_def)
  also have "ws @ drop (length ws) (buf_bytes ?sub) = ws @ take (length R) (F @ R)"
    unfolding sub using assms(5) by simp
  finally have enc: "enc ?sub = Inr (?sub\<lparr>buf_bytes := ws @ take (length R) (F @ R)\<rparr>, length ws)" .
  have "splice (A @ Q @ G) off (ws @ take k G) = A @ ws @ G" if "k \<le> length G" for G k
    using that assms(4,5) by (simp add: splice_def)
  from this [of "length R" "F @ R"] have "splice (buf_bytes out) off (ws @ take (length R) (F @ R)) = A @ ws @ F @ R"
    by (simp add: assms(3))
  moreover have "D_CHECK out off ?k = Inr ()" using len by (intro D_honest(2) [OF assms(2)]) simp_all
  ultimately show ?thesis unfolding encode_into_def k by (simp add: enc)
qed

lemma split_at: "n \<le> length xs \<Longrightarrow> \<exists>a b. xs = a @ b \<and> length a = n"
  by (rule exI [of _ "take n xs"], rule exI [of _ "drop n xs"]) simp

text \<open>A buffer with room for a frame, cut where the parts of the frame go.\<close>

lemma frame_room:
  assumes "p + 8 \<le> length xs"
  obtains T C S P F R where "xs = T @ C @ S @ P @ F @ R" and "length T = 1" and "length C = 2"
    and "length S = 4" and "length P = p" and "length F = 1"
proof -
  from assms split_at [of 1 xs] obtain T xs1 where 1: "xs = T @ xs1" "length T = 1" by auto
  from assms 1 split_at [of 2 xs1] obtain C xs2 where 2: "xs1 = C @ xs2" "length C = 2" by auto
  from assms 1 2 split_at [of 4 xs2] obtain S xs3 where 3: "xs2 = S @ xs3" "length S = 4" by auto
  from assms 1 2 3 split_at [of p xs3] obtain P xs4 where 4: "xs3 = P @ xs4" "length P = p" by auto
  from assms 1 2 3 4 split_at [of 1 xs4] obtain F R where "xs4 = F @ R" "length F = 1" by auto
  with 1 2 3 4 that show thesis by simp
qed

lemma encode_payload_at:
  assumes "valid_frame f" and "honest out" and "buf_bytes out = H @ P @ F @ R"
    and "length H = 7" and "length P = length (frame_payload f)" and "length F = 1"
  obtains enc sep where "encode_payload f out =
      Inr (out\<lparr>buf_bytes := H @ (if sep then P else frame_payload f) @ F @ R\<rparr>, enc, length (frame_payload f), sep)"
    and "sep \<Longrightarrow> enc = frame_payload f" and "sep \<longleftrightarrow> (\<exists>ch ws. f = Body_Frame ch ws)"
proof (cases f)
  case (Method_Frame ch i m)
  with assms(5) split_at [of 4 P] obtain I Q where P: "P = I @ Q" "length I = 4" "length Q = length (wire_method m)"
    by auto
  let ?o1 = "out\<lparr>buf_bytes := H @ wire_32 i @ (Q @ F @ R)\<rparr>"
  have 1: "E_32 out HEADER_SIZE i = Inr ?o1"
    using assms(3,4) P by (intro E_at(3) [OF assms(2), where old = I]) (simp_all add: HEADER_SIZE_def)
  have hon: "honest ?o1" using assms(2,3) P by (simp add: honest_def)
  have "encode_into ?o1 (HEADER_SIZE + 4) (size_minus (buf_len ?o1) (HEADER_SIZE + 4 + 1)) (amqp_encode_method i m) =
      Inr (?o1\<lparr>buf_bytes := (H @ wire_32 i) @ wire_method m @ F @ R\<rparr>, length (wire_method m))"
    by (rule encode_into_at [OF _ hon, where Q = Q])
       (use assms(1,4,6) P Method_Frame in \<open>simp_all add: HEADER_SIZE_def writes_front_codec\<close>)
  with 1 Method_Frame show ?thesis
    by (intro that [of False]) (simp_all add: FOOTER_SIZE_def)
next
  case (Header_Frame ch c sz p)
  with assms(5) split_at [of 2 P] obtain I1 Q1 where P1: "P = I1 @ Q1" "length I1 = 2"
      "length Q1 = 10 + length (wire_properties p)" by auto
  from P1(3) split_at [of 2 Q1] obtain I2 Q2 where P2: "Q1 = I2 @ Q2" "length I2 = 2"
      "length Q2 = 8 + length (wire_properties p)" by auto
  from P2(3) split_at [of 8 Q2] obtain I3 Q where P3: "Q2 = I3 @ Q" "length I3 = 8"
      "length Q = length (wire_properties p)" by auto
  note P = P1 P2 P3
  let ?o1 = "out\<lparr>buf_bytes := H @ wire_16 c @ (I2 @ I3 @ Q @ F @ R)\<rparr>"
  let ?o2 = "out\<lparr>buf_bytes := (H @ wire_16 c) @ wire_16 0 @ (I3 @ Q @ F @ R)\<rparr>"
  let ?o3 = "out\<lparr>buf_bytes := (H @ wire_16 c @ wire_16 0) @ wire_64 sz @ (Q @ F @ R)\<rparr>"
  have hon: "honest ?o1" "honest ?o2" "honest ?o3" using assms(2,3) P by (simp_all add: honest_def)
  have 1: "E_16 out HEADER_SIZE c = Inr ?o1"
    using assms(3,4) P by (intro E_at(2) [OF assms(2), where old = I1]) (simp_all add: HEADER_SIZE_def)
  have 2: "E_16 ?o1 (HEADER_SIZE + 2) 0 = Inr ?o2"
    using assms(4) P E_at(2) [OF hon(1), of "H @ wire_16 c" I2 "I3 @ Q @ F @ R" "HEADER_SIZE + 2" 0]
    by (simp add: HEADER_SIZE_def)
  have 3: "E_64 ?o2 (HEADER_SIZE + 4) sz = Inr ?o3"
    using assms(4) P E_64_at [OF hon(2), of "H @ wire_16 c @ wire_16 0" I3 "Q @ F @ R" "HEADER_SIZE + 4" sz]
    by (simp add: HEADER_SIZE_def)
  have "encode_into ?o3 (HEADER_SIZE + 12) (size_minus (buf_len ?o3) (HEADER_SIZE + 12 + 1)) (amqp_encode_properties c p) =
      Inr (?o3\<lparr>buf_bytes := (H @ wire_16 c @ wire_16 0 @ wire_64 sz) @ wire_properties p @ F @ R\<rparr>,
           length (wire_properties p))"
    by (rule encode_into_at [OF _ hon(3), where Q = Q])
       (use assms(1,4,6) P Header_Frame in \<open>simp_all add: HEADER_SIZE_def writes_front_codec\<close>)
  with 1 2 3 Header_Frame show ?thesis
    by (intro that [of False]) (simp_all add: FOOTER_SIZE_def)
next
  case (Body_Frame ch fragment)
  with assms(2,3) show ?thesis
    by (intro that [of True fragment]) (cases out; simp)+
next
  case (Heartbeat_Frame ch)
  with assms(2,3,5) show ?thesis
    by (intro that [of False "[]"]) (cases out; simp)+
qed (use assms(1) in simp_all)

definition frame_pieces :: "cbuf \<Rightarrow> byte list \<Rightarrow> nat \<Rightarrow> bool \<Rightarrow> byte list list" where
  "frame_pieces out encoded payload_len separate_body =
     (if separate_body
      then [take HEADER_SIZE (buf_bytes out), encoded, [AMQP_FRAME_END]]
      else [take (payload_len + (HEADER_SIZE + FOOTER_SIZE)) (buf_bytes out)])"

lemma inner_send_at:
  assumes "valid_frame f" and "honest out" and "length (wire_frame f) \<le> buf_len out"
  obtains out' enc sep where "inner_send_frame out f = Inr (out', enc, length (frame_payload f), sep)"
    and "honest out'" and "buf_len out' = buf_len out"
    and "concat (frame_pieces out' enc (length (frame_payload f)) sep) = wire_frame f"
    and "sep \<longleftrightarrow> (\<exists>ch ws. f = Body_Frame ch ws)"
proof -
  let ?p = "length (frame_payload f)"
  from assms(2,3) have "?p + 8 \<le> length (buf_bytes out)" by (simp add: length_wire_frame honest_def)
  then obtain T C S P F R where buf: "buf_bytes out = T @ C @ S @ P @ F @ R" and len: "length T = 1"
      "length C = 2" "length S = 4" "length P = ?p" "length F = 1" by (rule frame_room)
  let ?b = "\<lambda>bs. out\<lparr>buf_bytes := bs\<rparr>"
  let ?ty = "[frame_type f]" and ?ch = "wire_16 (frame_channel f)" and ?n = "wire_32 (word_of_nat ?p)"
  have hon: "honest (?b bs)" if "length bs = length (buf_bytes out)" for bs
    using that assms(2) by (simp add: honest_def)
  let ?o1 = "?b ([] @ ?ty @ (C @ S @ P @ F @ R))"
  have 1: "E_8 out 0 (frame_type f) = Inr ?o1"
    using buf len by (intro E_at(1) [OF assms(2), where old = T]) simp_all
  have h1: "honest ?o1" using buf len by (intro hon) simp
  let ?o2 = "?b (?ty @ ?ch @ (S @ P @ F @ R))"
  have 2: "E_16 ?o1 1 (frame_channel f) = Inr ?o2"
    using E_at(2) [OF h1, of ?ty C "S @ P @ F @ R" 1] len by simp
  have h2: "honest ?o2" using buf len by (intro hon) simp
  have b2: "buf_bytes ?o2 = (?ty @ ?ch @ S) @ P @ F @ R" "length (?ty @ ?ch @ S) = 7" using len by simp_all
  obtain enc sep where e: "encode_payload f ?o2 =
      Inr (?o2\<lparr>buf_bytes := (?ty @ ?ch @ S) @ (if sep then P else frame_payload f) @ F @ R\<rparr>, enc, ?p, sep)"
      and enc: "sep \<Longrightarrow> enc = frame_payload f" and is_body: "sep \<longleftrightarrow> (\<exists>ch ws. f = Body_Frame ch ws)"
    by (rule encode_payload_at [OF assms(1) h2 b2 len(4,5)]) (assumption | blast)+
  then have 3: "encode_payload f ?o2 =
      Inr (?b ((?ty @ ?ch @ S) @ (if sep then P else frame_payload f) @ F @ R), enc, ?p, sep)" by simp
  let ?X = "if sep then P else frame_payload f"
  have X: "length ?X = ?p" using len by simp
  let ?o4 = "?b ((?ty @ ?ch) @ ?n @ (?X @ F @ R))"
  have "honest (?b ((?ty @ ?ch @ S) @ ?X @ F @ R))" using buf len X by (intro hon) simp
  from E_at(3) [OF this, of "?ty @ ?ch" S "?X @ F @ R" 3] len
  have 4: "E_32 (?b ((?ty @ ?ch @ S) @ ?X @ F @ R)) 3 (word_of_nat ?p) = Inr ?o4" by simp
  have h4: "honest ?o4" using buf len X by (intro hon) simp
  show thesis
  proof (cases sep)
    case True
    with 1 2 3 4 have "inner_send_frame out f = Inr (?o4, enc, ?p, sep)" by (simp add: inner_send_frame_def)
    then show ?thesis
      by (rule that [OF _ h4]) (use True enc is_body in \<open>simp_all add: frame_pieces_def wire_frame_def HEADER_SIZE_def\<close>)
  next
    case False
    let ?o5 = "?b (wire_frame f @ R)"
    have 5: "E_8 ?o4 (?p + HEADER_SIZE) AMQP_FRAME_END = Inr ?o5"
      using E_at(1) [OF h4, of "?ty @ ?ch @ ?n @ frame_payload f" F R "?p + HEADER_SIZE"] len False
      by (simp add: HEADER_SIZE_def wire_frame_def)
    have "honest ?o5" using buf len X False by (intro hon) (simp add: wire_frame_def)
    moreover from False 1 2 3 4 5 have "inner_send_frame out f = Inr (?o5, enc, ?p, sep)"
      by (simp add: inner_send_frame_def)
    ultimately show ?thesis
      by (intro that [of ?o5 enc sep])
         (use False is_body in \<open>simp_all add: frame_pieces_def length_wire_frame HEADER_SIZE_def FOOTER_SIZE_def\<close>)
  qed
qed

lemma send_all_accepted:
  "accepts c = [] \<Longrightarrow> send_all amqp_ssl_write c wss = (Inr (), c\<lparr>outgoing := outgoing c @ concat wss\<rparr>)"
proof (induction wss arbitrary: c)
  case (Cons ws wss)
  let ?c = "c\<lparr>outgoing := outgoing c @ ws\<rparr>"
  have "amqp_ssl_write c ws = (Inr (length ws), ?c)" using Cons.prems by (simp add: amqp_ssl_write_def)
  moreover have "send_all amqp_ssl_write ?c wss = (Inr (), ?c\<lparr>outgoing := outgoing ?c @ concat wss\<rparr>)"
    using Cons.prems by (intro Cons.IH) simp
  ultimately show ?case by simp
qed simp

lemma send_frame_accepted:
  assumes "valid_frame f" and "honest (outbound_buffer (conn c))"
    and "length (wire_frame f) \<le> buf_len (outbound_buffer (conn c))" and "accepts c = []"
  obtains out where "amqp_send_frame c f =
      (Inr (), c\<lparr>outgoing := outgoing c @ wire_frame f, conn := (conn c)\<lparr>outbound_buffer := out\<rparr>\<rparr>)"
    and "honest out" and "buf_len out = buf_len (outbound_buffer (conn c))"
proof -
  obtain out enc sep where s: "inner_send_frame (outbound_buffer (conn c)) f =
      Inr (out, enc, length (frame_payload f), sep)" "honest out"
      "buf_len out = buf_len (outbound_buffer (conn c))"
      "concat (frame_pieces out enc (length (frame_payload f)) sep) = wire_frame f"
    using inner_send_at [OF assms(1-3)] by blast
  have "amqp_send_frame_to (conn c) f amqp_ssl_write c =
      ((conn c)\<lparr>outbound_buffer := out\<rparr>, Inr (), c\<lparr>outgoing := outgoing c @ wire_frame f\<rparr>)"
    using send_all_accepted [OF assms(4), of "frame_pieces out enc (length (frame_payload f)) sep"] s(4)
    by (simp add: amqp_send_frame_to_def s(1) frame_pieces_def)
  then have "amqp_send_frame c f =
      (Inr (), c\<lparr>outgoing := outgoing c @ wire_frame f, conn := (conn c)\<lparr>outbound_buffer := out\<rparr>\<rparr>)"
    by (simp add: amqp_send_frame_def)
  with s(2,3) show thesis by (intro that)
qed

section \<open>A sink of frames\<close>

text \<open>
  The interface of everything that sends frames: a sink that is ready takes any frame that is valid and
  fits its room, writes the bytes of it and is ready again.
\<close>

fun send_frames ::
  "('c \<Rightarrow> amqp_frame \<Rightarrow> (c_error + unit) \<times> 'c) \<Rightarrow> amqp_frame list \<Rightarrow> 'c \<Rightarrow> (c_error + unit) \<times> 'c" where
  "send_frames send [] c = (Inr (), c)"
| "send_frames send (f # fs) c =
     (case send c f of
        (Inl e, c') \<Rightarrow> (Inl e, c')
      | (Inr _, c') \<Rightarrow> send_frames send fs c')"

locale frame_sink =
  fixes send :: "'c \<Rightarrow> amqp_frame \<Rightarrow> (c_error + unit) \<times> 'c"
    and ready :: "'c \<Rightarrow> bool" and room :: nat and written :: "'c \<Rightarrow> byte list"
  assumes send_next: "ready c \<Longrightarrow> valid_frame f \<Longrightarrow> length (wire_frame f) \<le> room \<Longrightarrow>
    \<exists>c'. send c f = (Inr (), c') \<and> ready c' \<and> written c' = written c @ wire_frame f"
begin

lemma send_all:
  "ready c \<Longrightarrow> list_all (\<lambda>f. valid_frame f \<and> length (wire_frame f) \<le> room) fs \<Longrightarrow>
    \<exists>c'. send_frames send fs c = (Inr (), c') \<and> ready c' \<and>
      written c' = written c @ concat (map wire_frame fs)"
proof (induction fs arbitrary: c)
  case (Cons f fs)
  then obtain c1 where "send c f = (Inr (), c1)" "ready c1" "written c1 = written c @ wire_frame f"
    using send_next [of c f] by auto
  with Cons.IH [of c1] Cons.prems(2) show ?case by auto
qed simp

end

text \<open>The socket is a sink as long as its writes are taken in full, and so is a buffer that collects.\<close>

definition can_send :: "nat \<Rightarrow> client \<Rightarrow> bool" where
  "can_send n c \<longleftrightarrow>
     accepts c = [] \<and> honest (outbound_buffer (conn c)) \<and> buf_len (outbound_buffer (conn c)) = n"

interpretation socket_sink: frame_sink amqp_send_frame "can_send n" n outgoing for n
proof (unfold_locales, goal_cases)
  case (1 c f)
  obtain out where s: "amqp_send_frame c f =
      (Inr (), c\<lparr>outgoing := outgoing c @ wire_frame f, conn := (conn c)\<lparr>outbound_buffer := out\<rparr>\<rparr>)"
      "honest out" "buf_len out = buf_len (outbound_buffer (conn c))"
    using send_frame_accepted [OF 1(2)] 1(1,3) unfolding can_send_def by blast
  then show ?case using 1(1) by (simp add: can_send_def)
qed

definition collect :: "byte list output_fn" where
  "collect context ws = (Inr (length ws), context @ ws)"

definition send_collected :: "amqp_connection \<times> byte list \<Rightarrow> amqp_frame \<Rightarrow> (c_error + unit) \<times> (amqp_connection \<times> byte list)" where
  "send_collected s f = (case amqp_send_frame_to (fst s) f collect (snd s) of (st', r, context') \<Rightarrow> (r, (st', context')))"

lemma send_all_collect: "send_all collect ws wss = (Inr (), ws @ concat wss)"
  by (induction wss arbitrary: ws) (simp_all add: collect_def)

interpretation collector: frame_sink send_collected
  "\<lambda>s. honest (outbound_buffer (fst s)) \<and> buf_len (outbound_buffer (fst s)) = n" n snd for n
proof (unfold_locales, goal_cases)
  case (1 s f)
  let ?p = "length (frame_payload f)"
  obtain out enc sep where s: "inner_send_frame (outbound_buffer (fst s)) f = Inr (out, enc, ?p, sep)" "honest out"
      "buf_len out = buf_len (outbound_buffer (fst s))" "concat (frame_pieces out enc ?p sep) = wire_frame f"
    using inner_send_at [OF 1(2)] 1(1,3) by blast
  then have "amqp_send_frame_to (fst s) f collect (snd s) =
      ((fst s)\<lparr>outbound_buffer := out\<rparr>, Inr (), snd s @ wire_frame f)"
    using send_all_collect [of "snd s" "frame_pieces out enc ?p sep"]
    by (simp add: amqp_send_frame_to_def frame_pieces_def)
  with 1(1) s(2,3) show ?case by (simp add: send_collected_def)
qed

section \<open>What is received\<close>

lemma parses_exactly:
  "parses d ws v \<Longrightarrow> length ws < 2 ^ 31 \<Longrightarrow> d \<lparr>buf_len = length ws, buf_bytes = ws\<rparr> 0 = Inr (v, length ws)"
  using parses_at [of d ws v "\<lparr>buf_len = length ws, buf_bytes = ws\<rparr>" "[]" "[]" 0] by (simp add: honest_def)

lemma decode_exactly:
  assumes "enough_memory mem"
  shows "valid_method m \<Longrightarrow> length (wire_method m) < 2 ^ 31 \<Longrightarrow>
      amqp_decode_method mem (id_method m) \<lparr>buf_len = length (wire_method m), buf_bytes = wire_method m\<rparr> = Inr m"
    and "valid_properties p \<Longrightarrow> length (wire_properties p) < 2 ^ 31 \<Longrightarrow>
      amqp_decode_properties mem (class_of p) \<lparr>buf_len = length (wire_properties p), buf_bytes = wire_properties p\<rparr> = Inr p"
proof -
  assume m: "valid_method m" "length (wire_method m) < 2 ^ 31"
  obtain d where "map_of (method_decoders mem) (id_method m) = Some d" "parses d (wire_method m) m"
    using parses_method [OF assms m(1)] by blast
  with parses_exactly [OF this(2) m(2)]
  show "amqp_decode_method mem (id_method m) \<lparr>buf_len = length (wire_method m), buf_bytes = wire_method m\<rparr> = Inr m"
    by (simp add: amqp_decode_method_def)
next
  assume p: "valid_properties p" "length (wire_properties p) < 2 ^ 31"
  from parses_exactly [OF parses_properties [OF assms p(1)] p(2)]
  show "amqp_decode_properties mem (class_of p) \<lparr>buf_len = length (wire_properties p), buf_bytes = wire_properties p\<rparr> = Inr p"
    by (simp add: amqp_decode_properties_def)
qed

lemma decode_wire_frame:
  assumes "valid_frame f" and "honest b" and buf: "buf_bytes b = wire_frame f @ rest" and mem: "enough_memory mem"
  shows "decode_frame mem b (length (wire_frame f)) = Inr f"
proof -
  let ?L = "length (wire_frame f)" and ?p = "length (frame_payload f)"
  let ?H = "[frame_type f] @ wire_16 (frame_channel f) @ wire_32 (word_of_nat ?p)"
  have L: "?L = ?p + 8" "?L < 2 ^ 31" using assms(2,3) by (simp_all add: length_wire_frame honest_def)
  note at = buf [unfolded wire_frame_def]
  have sm: "size_minus ?L k = ?L - k" if "k \<le> ?L" for k using that L(2) by (intro size_minus_eq) simp_all
  have ty: "D_8 b 0 = Inr (frame_type f)" using at by (intro D_at(1) [OF assms(2), where pre = "[]"]) simp_all
  have ch: "D_16 b 1 = Inr (frame_channel f)"
    using at by (intro D_at(2) [OF assms(2), where pre = "[frame_type f]"]) simp_all
  have fin: "D_8 b (?L - 1) = Inr AMQP_FRAME_END"
    using at L(1) by (intro D_at(1) [OF assms(2), where pre = "?H @ frame_payload f"]) simp_all
  have last: "size_minus ?L 1 = ?L - 1" using L(1) by (intro sm) simp
  have start: "decode_frame mem b ?L =
      (if frame_type f = AMQP_FRAME_METHOD then decode_method_frame mem b ?L (frame_channel f)
       else if frame_type f = AMQP_FRAME_HEADER then decode_header_frame mem b ?L (frame_channel f)
       else if frame_type f = AMQP_FRAME_BODY then decode_body_frame b ?L (frame_channel f)
       else if frame_type f = AMQP_FRAME_HEARTBEAT then Inr (Heartbeat_Frame (frame_channel f))
       else Inr No_Frame)"
    unfolding decode_frame_def ty check_simps last fin ch by simp
  have fit: "?L \<le> buf_len b" using assms(2) buf by (simp add: honest_def)
  show ?thesis
  proof (cases f)
    case (Method_Frame c i m)
    have pl: "?p = 4 + length (wire_method m)" using Method_Frame by simp
    have i: "D_32 b 7 = Inr i"
      using at Method_Frame by (intro D_at(3) [OF assms(2), where pre = ?H]) simp_all
    have sub: "sub_buffer b 11 (?L - 12) = \<lparr>buf_len = length (wire_method m), buf_bytes = wire_method m\<rparr>"
      using at Method_Frame L(1) by (simp add: sub_buffer_def)
    have "D_CHECK b 11 (?L - 12) = Inr ()" using L fit pl by (intro D_honest(2) [OF assms(2)]) simp_all
    moreover have "size_minus ?L (HEADER_SIZE + 4 + FOOTER_SIZE) = ?L - 12"
      using sm [of 12] L(1) pl by (simp add: HEADER_SIZE_def FOOTER_SIZE_def)
    moreover have "amqp_decode_method mem i (sub_buffer b 11 (?L - 12)) = Inr m"
      unfolding sub using decode_exactly(1) [OF mem, of m] assms(1) Method_Frame L pl by simp
    ultimately have "decode_method_frame mem b ?L c = Inr f"
      using i Method_Frame by (simp add: decode_method_frame_def Let_def) (simp add: HEADER_SIZE_def)
    with start Method_Frame show ?thesis by simp
  next
    case (Header_Frame c cid sz p)
    have pl: "?p = 12 + length (wire_properties p)" using Header_Frame by simp
    have i: "D_16 b 7 = Inr cid"
      using at Header_Frame by (intro D_at(2) [OF assms(2), where pre = ?H]) simp_all
    have s: "D_64 b 11 = Inr sz"
      using at Header_Frame
      by (intro D_at(4) [OF assms(2), where pre = "?H @ wire_16 cid @ wire_16 0"]) simp_all
    have sub: "sub_buffer b 19 (?L - 20) = \<lparr>buf_len = length (wire_properties p), buf_bytes = wire_properties p\<rparr>"
      using at Header_Frame L(1) by (simp add: sub_buffer_def)
    have "D_CHECK b 19 (?L - 20) = Inr ()" using L fit pl by (intro D_honest(2) [OF assms(2)]) simp_all
    moreover have "size_minus ?L (HEADER_SIZE + 12 + FOOTER_SIZE) = ?L - 20"
      using sm [of 20] L(1) pl by (simp add: HEADER_SIZE_def FOOTER_SIZE_def)
    moreover have "amqp_decode_properties mem cid (sub_buffer b 19 (?L - 20)) = Inr p"
      unfolding sub using decode_exactly(2) [OF mem, of p] assms(1) Header_Frame L pl by simp
    ultimately have "decode_header_frame mem b ?L c = Inr f"
      using i s Header_Frame by (simp add: decode_header_frame_def Let_def) (simp add: HEADER_SIZE_def)
    with start Header_Frame show ?thesis by (simp add: frame_codes)
  next
    case (Body_Frame c fragment)
    have "D_BYTES b 7 (?L - 8) = Inr fragment"
      using at Body_Frame L(1) D_at(5) [OF assms(2), of ?H 7 fragment "[AMQP_FRAME_END] @ rest"] by simp
    moreover have "size_minus ?L (HEADER_SIZE + FOOTER_SIZE) = ?L - 8"
      using sm [of 8] L(1) by (simp add: HEADER_SIZE_def FOOTER_SIZE_def)
    ultimately have "decode_body_frame b ?L c = Inr f"
      using Body_Frame by (simp add: decode_body_frame_def) (simp add: HEADER_SIZE_def)
    with start Body_Frame show ?thesis by (simp add: frame_codes)
  next
    case (Heartbeat_Frame c)
    with start show ?thesis by (simp add: frame_codes)
  qed (use assms(1) in simp_all)
qed

section \<open>A frame that arrives\<close>

definition idle :: "amqp_connection \<Rightarrow> bool" where
  "idle st \<longleftrightarrow> framing_ok st \<and> phase st = CONNECTION_STATE_IDLE"

lemma idle_iff:
  "idle st \<longleftrightarrow> phase st = CONNECTION_STATE_IDLE \<and> buf_len (inbound_buffer st) < 2 ^ 31 \<and>
     buf_bytes (inbound_buffer st) = [] \<and> inbound_offset st = 0 \<and> target_size st = HEADER_SIZE"
  by (auto simp: idle_def framing_ok_def)

lemma return_to_idle_idle [simp]: "idle st \<Longrightarrow> return_to_idle st = st"
  by (cases st) (auto simp: idle_iff return_to_idle_def)

lemma begin_idle:
  assumes "idle st" and "\<And>n. pool_ok mem n"
  shows "collecting (begin_frame mem st)" "phase (begin_frame mem st) = CONNECTION_STATE_WAITING_FOR_HEADER"
    "inbound_offset (begin_frame mem st) = 0" "target_size (begin_frame mem st) = 7"
    "buf_len (inbound_buffer (begin_frame mem st)) = buf_len (inbound_buffer st)"
    "return_to_idle (begin_frame mem st) = st"
proof -
  show "collecting (begin_frame mem st)"
    using assms by (intro begin_frame_collecting) (simp_all add: idle_def)
  have "return_to_idle (begin_frame mem st) = return_to_idle st"
    by (simp add: begin_frame_def return_to_idle_def Let_def)
  with assms(1) show "return_to_idle (begin_frame mem st) = st" by simp
qed (use assms in \<open>simp_all add: begin_frame_def Let_def idle_iff HEADER_SIZE_def\<close>)

lemma return_to_idle_absorb [simp]:
  "return_to_idle (absorb st ws) = return_to_idle st" "return_to_idle (header_read st) = return_to_idle st"
  by (auto simp: return_to_idle_def absorb_def header_read_def split: sum.splits)

definition frame_header :: "amqp_frame \<Rightarrow> byte list" where
  "frame_header f =
     [frame_type f] @ wire_16 (frame_channel f) @ wire_32 (word_of_nat (length (frame_payload f)))"

lemma wire_frame_header: "wire_frame f = frame_header f @ frame_payload f @ [AMQP_FRAME_END]"
  by (simp add: wire_frame_def frame_header_def)

lemma length_frame_header [simp]: "length (frame_header f) = 7"
  by (simp add: frame_header_def)

text \<open>The connection when the frame header was read.\<close>

definition after_header :: "memory \<Rightarrow> amqp_connection \<Rightarrow> amqp_frame \<Rightarrow> amqp_connection" where
  "after_header mem st f = header_read (absorb (begin_frame mem st) (frame_header f))"

lemma target_of_wire:
  assumes "n + 8 < 2 ^ 31"
  shows "unat (word_of_nat n + 8 :: u32) = n + 8"
proof -
  have "(word_of_nat n + 8 :: u32) = word_of_nat (n + 8)" by simp
  then have "unat (word_of_nat n + 8 :: u32) = (n + 8) mod 2 ^ 32" by (simp only: unat_of_nat) simp
  also have "\<dots> = n + 8" using assms by simp
  finally show ?thesis .
qed

lemma after_header_facts:
  assumes st: "idle st" and mem: "\<And>n. pool_ok mem n" and f: "valid_frame f"
    and fits: "length (wire_frame f) \<le> buf_len (inbound_buffer st)"
  shows "collecting (after_header mem st f)" "phase (after_header mem st f) = CONNECTION_STATE_WAITING_FOR_BODY"
    "inbound_offset (after_header mem st f) = 7" "target_size (after_header mem st f) = length (wire_frame f)"
    "buf_len (inbound_buffer (after_header mem st f)) = buf_len (inbound_buffer st)"
    "\<exists>rest. buf_bytes (inbound_buffer (after_header mem st f)) = frame_header f @ rest"
    "return_to_idle (after_header mem st f) = st"
proof -
  let ?s1 = "begin_frame mem st"
  let ?s2 = "absorb ?s1 (frame_header f)"
  note s1 = begin_idle [OF st mem]
  note b = collecting_bounds [OF s1(1)]
  have L: "length (frame_payload f) + 8 < 2 ^ 31" "7 \<le> buf_len (inbound_buffer st)"
    using st fits by (simp_all add: length_wire_frame idle_iff)
  have c2: "collecting ?s2" using L s1 by (intro collecting_absorb) simp_all
  have bytes: "buf_bytes (inbound_buffer ?s2) = frame_header f @ drop 7 (buf_bytes (inbound_buffer ?s1))"
    using s1 by (simp add: absorb_def splice_def)
  have hon: "honest (inbound_buffer ?s2)" by (rule collecting_bounds(1) [OF c2])
  have "D_8 (inbound_buffer ?s2) 0 = Inr (frame_type f)"
    using bytes by (intro D_at(1) [OF hon, where pre = "[]"]) (simp_all add: frame_header_def)
  moreover have "D_32 (inbound_buffer ?s2) 3 = Inr (word_of_nat (length (frame_payload f)))"
    using bytes
    by (intro D_at(3) [OF hon, where pre = "[frame_type f] @ wire_16 (frame_channel f)"])
       (simp_all add: frame_header_def)
  moreover have "frame_type f \<noteq> AMQP_PSEUDOFRAME_PROTOCOL_HEADER"
    using f by (cases f) (simp_all add: frame_codes)
  ultimately have "header_target (inbound_buffer ?s2) =
      Inr (CONNECTION_STATE_WAITING_FOR_BODY, length (wire_frame f))"
    using target_of_wire [OF L(1)] by (simp add: header_target_def length_wire_frame)
  then have eq: "after_header mem st f = ?s2\<lparr>target_size := length (wire_frame f), phase := CONNECTION_STATE_WAITING_FOR_BODY\<rparr>"
    by (simp add: after_header_def header_read_def)
  show "collecting (after_header mem st f)"
    unfolding after_header_def using s1 by (intro collecting_header_read c2) (simp add: HEADER_SIZE_def)
  show "return_to_idle (after_header mem st f) = st" by (simp add: after_header_def s1(6))
  show "\<exists>rest. buf_bytes (inbound_buffer (after_header mem st f)) = frame_header f @ rest"
    using bytes by (simp add: eq)
  show "phase (after_header mem st f) = CONNECTION_STATE_WAITING_FOR_BODY"
    "inbound_offset (after_header mem st f) = 7" "target_size (after_header mem st f) = length (wire_frame f)"
    "buf_len (inbound_buffer (after_header mem st f)) = buf_len (inbound_buffer st)"
    using s1 by (simp_all add: eq)
qed

lemma read_header:
  assumes st: "idle st" and mem: "\<And>n. pool_ok mem n" and f: "valid_frame f"
    and fits: "length (wire_frame f) \<le> buf_len (inbound_buffer st)" and len: "length d + 7 < 2 ^ 31"
  shows "read_more mem st (frame_header f @ d) k = read_more mem (after_header mem st f) d (k + 7)"
proof -
  note s1 = begin_idle [OF st mem]
  have ne: "frame_header f @ d \<noteq> []" by (simp add: frame_header_def)
  have "wanted (begin_frame mem st) (length (frame_header f @ d)) = 7" using s1 by (simp add: wanted_def)
  moreover have "7 \<le> buf_len (inbound_buffer st)" using fits by (simp add: length_wire_frame)
  ultimately show ?thesis
    using read_more_eq [OF s1(1) ne, of mem k] s1 len read_more_start [OF ne, of mem st k]
    by (simp add: after_header_def)
qed

lemma read_body:
  assumes st: "idle st" and mem: "enough_memory mem" and f: "valid_frame f"
    and fits: "length (wire_frame f) \<le> buf_len (inbound_buffer st)" and len: "length (wire_frame f @ d) < 2 ^ 31"
  shows "read_more mem (after_header mem st f) (frame_payload f @ [AMQP_FRAME_END] @ d) k =
    (call_back f st, Inr (k + length (frame_payload f) + 1, f))"
proof -
  let ?s3 = "after_header mem st f" and ?p = "frame_payload f @ [AMQP_FRAME_END]"
  let ?s4 = "absorb ?s3 ?p"
  have pool: "\<And>n. pool_ok mem n" using mem by (simp add: enough_memory_def)
  note s3 = after_header_facts [OF st pool f fits]
  have w: "wanted ?s3 (length (?p @ d)) = length ?p" using s3 by (simp add: wanted_def length_wire_frame)
  obtain rest where "buf_bytes (inbound_buffer ?s3) = frame_header f @ rest" using s3(6) by blast
  then have "buf_bytes (inbound_buffer ?s4) = wire_frame f @ drop (length ?p) rest"
    using s3(3) by (simp add: absorb_def splice_def wire_frame_header)
  moreover have "collecting ?s4"
    using s3 fits by (intro collecting_absorb) (simp_all add: length_wire_frame)
  ultimately have "finish_frame mem ?s4 = (call_back f st, Inr f)"
    using decode_wire_frame [OF f collecting_bounds(1) _ mem, of ?s4] s3 st
    by (simp add: finish_frame_def)
  moreover have "read_more mem ?s3 (?p @ d) k = counted (k + length ?p) (finish_frame mem ?s4)"
    using read_more_eq [OF s3(1), of "?p @ d" mem k] w s3 fits len
    by (simp add: length_wire_frame)
  ultimately show ?thesis by (simp add: counted_def)
qed

lemma receive_frame:
  assumes "idle st" and "enough_memory mem" and "valid_frame f"
    and "length (wire_frame f) \<le> buf_len (inbound_buffer st)" and "length (wire_frame f @ d) < 2 ^ 31"
  shows "amqp_handle_input mem st (wire_frame f @ d) = (call_back f st, Inr (length (wire_frame f), f))"
proof -
  have pool: "\<And>n. pool_ok mem n" using assms(2) by (simp add: enough_memory_def)
  have "length (frame_payload f @ [AMQP_FRAME_END] @ d) + 7 < 2 ^ 31"
    using assms(5) by (simp add: length_wire_frame)
  from read_header [OF assms(1) pool assms(3,4) this, of 0] read_body [OF assms, of 7]
  show ?thesis by (simp add: amqp_handle_input_def wire_frame_header)
qed

text \<open>A proper part of a frame: all of it is taken and no frame is reported.\<close>

lemma receive_part:
  assumes st: "idle st" and mem: "enough_memory mem" and f: "valid_frame f"
    and fits: "length (wire_frame f) \<le> buf_len (inbound_buffer st)"
    and a: "wire_frame f = a @ b" "a \<noteq> []" "b \<noteq> []"
  obtains st1 where "amqp_handle_input mem st a = (st1, Inr (length a, No_Frame))" and "collecting st1"
proof -
  have pool: "\<And>n. pool_ok mem n" using mem by (simp add: enough_memory_def)
  have len: "length a < length (wire_frame f)" using a by simp
  moreover have "length (wire_frame f) < 2 ^ 31" using st fits by (simp add: idle_iff)
  ultimately have alen: "length a < 2 ^ 31" by simp
  note s1 = begin_idle [OF st pool]
  show thesis
  proof (cases "length a < 7")
    case True
    then have w: "wanted (begin_frame mem st) (length a) = length a" using s1 by (simp add: wanted_def)
    let ?st = "absorb (begin_frame mem st) a"
    have "read_more mem st a 0 = (?st, Inr (length a, No_Frame))"
      using read_more_eq [OF s1(1) a(2) alen, of mem 0] w s1 True fits len read_more_start [OF a(2), of mem st 0]
      by simp
    moreover have "collecting ?st" using s1 True fits len by (intro collecting_absorb) simp_all
    ultimately show ?thesis by (intro that) (simp add: amqp_handle_input_def)
  next
    case False
    then have "take 7 a = take 7 (wire_frame f)" using a(1) by simp
    also have "\<dots> = frame_header f" by (simp add: wire_frame_header)
    finally obtain d where d: "a = frame_header f @ d" by (metis append_take_drop_id)
    note s3 = after_header_facts [OF st pool f fits]
    have start: "read_more mem st a 0 = read_more mem (after_header mem st f) d 7"
      unfolding d using read_header [OF st pool f fits, of d 0] alen d by simp
    show ?thesis
    proof (cases "d = []")
      case True
      with start s3(1) d show ?thesis by (intro that) (simp_all add: amqp_handle_input_def)
    next
      case ne: False
      let ?st = "absorb (after_header mem st f) d"
      have dl: "7 + length d < length (wire_frame f)" using len d by simp
      then have w: "wanted (after_header mem st f) (length d) = length d" using s3 by (simp add: wanted_def)
      have "read_more mem (after_header mem st f) d 7 = (?st, Inr (length a, No_Frame))"
        using read_more_eq [OF s3(1) ne, of mem 7] w s3 dl fits alen d by simp
      moreover have "collecting ?st" using s3 dl fits by (intro collecting_absorb) simp_all
      ultimately show ?thesis using start by (intro that) (simp add: amqp_handle_input_def)
    qed
  qed
qed

section \<open>A frame that is refused\<close>

lemma refused_rest:
  assumes "collecting st" and "phase st \<noteq> CONNECTION_STATE_WAITING_FOR_HEADER" and "length data < 2 ^ 31"
    and "read_more mem st data k = (st', Inl e)" and "phase st' = CONNECTION_STATE_WAITING_FOR_BODY"
    and "inbound_offset st' = target_size st'"
  shows "decode_frame mem (inbound_buffer st') (target_size st') = Inl e"
proof -
  have ne: "data \<noteq> []" using assms(4) by auto
  define n where "n = wanted st (length data)"
  have len: "length (take n data) = n" by (simp add: n_def)
  note eq = read_more_eq [OF assms(1) ne assms(3), of mem k, folded n_def]
  have "inbound_offset st + n \<le> buf_len (inbound_buffer st)"
  proof (rule ccontr)
    assume "\<not> inbound_offset st + n \<le> buf_len (inbound_buffer st)"
    with eq assms(4) have "st' = st" and over: "buf_len (inbound_buffer st) < inbound_offset st + n" by auto
    with assms(6) have "n = 0" by (simp add: n_def wanted_def)
    with over collecting_bounds(2) [OF assms(1)] show False by simp
  qed
  with eq assms(2,4,5,6) len show ?thesis
    by (auto simp: counted_def finish_frame_def finish_protocol_header_def Let_def
        split: if_splits sum.splits)
qed

lemma refused_frame:
  assumes "collecting st" and "length data < 2 ^ 31"
    and "read_more mem st data k = (st', Inl e)" and "phase st' = CONNECTION_STATE_WAITING_FOR_BODY"
    and "inbound_offset st' = target_size st'"
  shows "decode_frame mem (inbound_buffer st') (target_size st') = Inl e"
proof (cases "phase st = CONNECTION_STATE_WAITING_FOR_HEADER")
  case False
  then show ?thesis using refused_rest [OF assms(1) _ assms(2-5)] by blast
next
  case True
  have ne: "data \<noteq> []" using assms(3) by auto
  define n where "n = wanted st (length data)"
  have len: "length (take n data) = n" by (simp add: n_def)
  note eq = read_more_eq [OF assms(1) ne assms(2), of mem k, folded n_def]
  have hd: "inbound_offset st \<le> HEADER_SIZE" "target_size st = HEADER_SIZE"
    using assms(1) True by (simp_all add: collecting_def framing_ok_def)
  then have n: "inbound_offset st + n \<le> target_size st" by (simp add: n_def wanted_def)
  let ?st = "absorb st (take n data)"
  have step: "inbound_offset st + n \<le> buf_len (inbound_buffer st)" "inbound_offset st + n = HEADER_SIZE"
      "read_more mem (header_read ?st) (drop n data) (k + n) = (st', Inl e)"
    using eq assms(3,4) True n hd by (auto split: if_splits)
  have c: "collecting ?st" using step(1) n len by (intro collecting_absorb assms(1)) simp_all
  have "inbound_offset ?st = HEADER_SIZE" using step(2) len by simp
  from refused_rest [OF collecting_header_read [OF c this] _ step(3) assms(4,5)] assms(2) show ?thesis by simp
qed

lemma refused_again:
  assumes "collecting st" and "phase st = CONNECTION_STATE_WAITING_FOR_BODY"
    and "inbound_offset st = target_size st" and "decode_frame mem (inbound_buffer st) (target_size st) = Inl e"
    and "data \<noteq> []" and "length data < 2 ^ 31"
  shows "read_more mem st data k = (st, Inl e)"
proof -
  have w: "wanted st (length data) = 0" using assms(3) by (simp add: wanted_def)
  have "absorb st [] = st" by (simp add: absorb_def splice_def)
  with read_more_eq [OF assms(1,5,6), of mem k] w assms collecting_bounds(2) [OF assms(1)] show ?thesis
    by (simp add: finish_frame_def counted_def)
qed

section \<open>Properties\<close>

lemma handle_input_outcome:
  assumes "framing_ok st" and "\<And>n. pool_ok mem n" and "length data < 2 ^ 31"
  shows "outcome 0 (length data) (amqp_handle_input mem st data)"
proof (cases "data = []")
  case True
  with assms(1) show ?thesis by (simp add: amqp_handle_input_def outcome_def)
next
  case False
  then show ?thesis
    using read_more_outcome [OF begin_frame_collecting [OF assms(1,2)] assms(2,3), where k = 0]
      read_more_start [of data mem st 0] by (simp add: amqp_handle_input_def)
qed

lemma handle_input_method:
  assumes "framing_ok st" and "\<And>n. pool_ok mem n" and "length data < 2 ^ 31"
    and "amqp_handle_input mem st data = (st', Inr (consumed, Method_Frame ch i m))"
  shows "12 \<le> inbound_offset st + consumed"
proof -
  have "data \<noteq> []" using assms(4) by (auto simp: amqp_handle_input_def)
  then have "read_more mem (begin_frame mem st) data 0 = (st', Inr (consumed, Method_Frame ch i m))"
    using assms(4) read_more_start [of data mem st 0] by (simp add: amqp_handle_input_def)
  from read_more_method [OF begin_frame_collecting [OF assms(1,2)] assms(3) this] show ?thesis
    by (simp add: begin_frame_def Let_def split: if_splits)
qed

text \<open>C27: Whatever bytes arrive (fewer than \<open>2 ^ 31\<close> in one call), in whatever state of a frame, and
  provided that the pool grants every request, \<open>amqp_handle_input\<close> keeps the invariant of the
  connection, takes no more bytes than it was given, and shows undefined behaviour only on a complete
  HEADER frame that is shorter than its fixed part or starts its properties with three flag words.
  A METHOD frame too short for a method number is refused: a METHOD frame is only ever reported when the bytes
  collected before the call and those it took make up at least 12.\<close>

theorem handle_input_safe:
  assumes "framing_ok st" and "\<And>n. pool_ok mem n" and "length data < 2 ^ 31"
    and "amqp_handle_input mem st data = (st', r)"
  shows "framing_ok st' \<and>
    (case r of
       Inr (consumed, frame) \<Rightarrow> consumed \<le> length data \<and>
         (\<forall>ch i m. frame = Method_Frame ch i m \<longrightarrow> 12 \<le> inbound_offset st + consumed)
     | Inl e \<Rightarrow> \<forall>u. e = Undefined u \<longrightarrow>
         phase st' = CONNECTION_STATE_WAITING_FOR_BODY \<and> risky_frame (inbound_buffer st') (target_size st'))"
  using handle_input_outcome [OF assms(1-3)] assms(4) handle_input_method [OF assms(1-3)]
  by (auto simp: outcome_def split: sum.splits)

lemma handle_input_pieces:
  assumes "framing_ok st" and "\<And>n. pool_ok mem n" and "length (a @ b) < 2 ^ 31"
    and "amqp_handle_input mem st a = (st1, Inr (length a, No_Frame))" and "phase st1 \<noteq> CONNECTION_STATE_IDLE"
    and "amqp_handle_input mem st1 b = (st', r)" and "amqp_handle_input mem st (a @ b) = (st'', r'')"
  shows "r'' = map_sum id (map_prod (\<lambda>n. n + length a) id) r \<and>
    (st'' = st' \<or> r'' = Inl EFAULT \<and> buf_len (inbound_buffer st'') < target_size st'')"
proof -
  have b: "read_more mem st1 b (0 + length a) = (st', map_sum id (map_prod (\<lambda>n. n + length a) id) r)"
    using assms(6) read_more_shift [of mem st1 b 0 "length a"] by (simp add: amqp_handle_input_def)
  show ?thesis
  proof (cases "a = []")
    case True
    with assms(4,7) b show ?thesis by (simp add: amqp_handle_input_def)
  next
    case False
    then have "read_more mem (begin_frame mem st) a 0 = (st1, Inr (0 + length a, No_Frame))"
      using assms(4) read_more_start [of a mem st 0] by (simp add: amqp_handle_input_def)
    from read_more_split [OF begin_frame_collecting [OF assms(1,2)] assms(3) this assms(5)]
    have "agrees (read_more mem st (a @ b) 0) (read_more mem st1 b (0 + length a))"
      using False read_more_start [of "a @ b" mem st 0] by simp
    with b assms(7) show ?thesis by (auto simp: agrees_def amqp_handle_input_def)
  qed
qed

text \<open>C26: TCP may cut a frame anywhere: when a first piece was taken without completing a frame, the
  second piece gives the result that both pieces together give, with the bytes of the first counted,
  and the same state unless the frame does not fit the buffer: the refusal is then \<open>-EFAULT\<close>, and the
  size of the frame, known from its header, is larger than the buffer.\<close>

theorem handle_input_split:
  assumes "framing_ok st" and "\<And>n. pool_ok mem n" and "length (a @ b) < 2 ^ 31"
    and "amqp_handle_input mem st a = (st1, Inr (length a, No_Frame))" and "phase st1 \<noteq> CONNECTION_STATE_IDLE"
    and "amqp_handle_input mem st1 b = (st', r)" and "amqp_handle_input mem st (a @ b) = (st'', r'')"
  shows "r'' = map_sum id (map_prod (\<lambda>n. n + length a) id) r \<and>
    (st'' = st' \<or> r'' = Inl EFAULT \<and> buf_len (inbound_buffer st'') < target_size st'')"
  by (rule handle_input_pieces [OF assms])


text \<open>A frame that is complete and refused stays: every later input, whatever its bytes, is
  refused with the same error and nothing of it is taken, so the connection is of no more use.\<close>

theorem refused_frame_sticks:
  assumes "framing_ok st" and "\<And>n. pool_ok mem n" and "length data < 2 ^ 31"
    and "amqp_handle_input mem st data = (st', Inl e)" and "phase st' = CONNECTION_STATE_WAITING_FOR_BODY"
    and "inbound_offset st' = target_size st'" and "later \<noteq> []" and "length later < 2 ^ 31"
  shows "amqp_handle_input mem st' later = (st', Inl e)"
proof -
  have "data \<noteq> []" using assms(4) by (auto simp: amqp_handle_input_def)
  then have "read_more mem (begin_frame mem st) data 0 = (st', Inl e)"
    using assms(4) read_more_start [of data mem st 0] by (simp add: amqp_handle_input_def)
  from refused_frame [OF begin_frame_collecting [OF assms(1,2)] assms(3) this assms(5,6)]
  have "decode_frame mem (inbound_buffer st') (target_size st') = Inl e" .
  moreover have "collecting st'"
    using handle_input_outcome [OF assms(1-3)] assms(4,5) by (simp add: outcome_def collecting_def)
  ultimately show ?thesis
    unfolding amqp_handle_input_def using assms(5-8) by (intro refused_again)
qed

section \<open>Concrete connections\<close>

definition demo_conn :: amqp_connection where
  "demo_conn =
     \<lparr>phase = CONNECTION_STATE_IDLE, channel_max = 0, frame_max = 64, heartbeat = 0,
      inbound_buffer = \<lparr>buf_len = 64, buf_bytes = []\<rparr>, inbound_offset = 0, target_size = 7,
      outbound_buffer = demo_buffer 64, has_callback = False, returned = [], destroyed = False\<rparr>"

definition demo_client :: client where
  "demo_client =
     \<lparr>conn = demo_conn, sockfd = 3, ssl = False, socket_timeout = None, sock_inbound_buffer = demo_buffer 128,
      sock_inbound_offset = 0, sock_inbound_limit = 0, queued_frames = [], incoming = [], accepts = [],
      outgoing = []\<rparr>"

definition demo_frame :: amqp_frame where
  "demo_frame = Method_Frame 0 AMQP_CONNECTION_TUNE_METHOD demo_method"

lemma demo_frames [simp]:
  "idle demo_conn" "framing_ok demo_conn" "valid_frame demo_frame"
  "length (wire_frame demo_frame) = 20" "buf_len (inbound_buffer demo_conn) = 64"
  "outbound_buffer demo_conn = demo_buffer 64" "call_back demo_frame demo_conn = demo_conn"
  "pool_ok demo_memory n" "enough_memory demo_memory"
  by (simp_all add: idle_iff framing_ok_def demo_conn_def HEADER_SIZE_def demo_frame_def demo_method_id
      length_wire_frame demo_method_wire AMQP_CONNECTION_TUNE_METHOD_def AMQP_BASIC_RETURN_METHOD_def)

lemmas run_frames =
  demo_conn_def amqp_handle_input_def read_more.simps begin_frame_def bytes_consumed_def
  E_BYTES_def CHECK_LIMIT_def splice_def block_bytes_def demo_memory_def header_target_def D_8_def
  D_16_def D_32_def D_BYTES_def be_nat_def decode_frame_def size_minus_def finish_frame_def
  counted_def frame_codes HEADER_SIZE_def FOOTER_SIZE_def Let_def

lemma demo_bad_end:
  obtains st' where "amqp_handle_input demo_memory demo_conn [8, 0, 0, 0, 0, 0, 0, 7] = (st', Inl EINVAL)"
    and "phase st' = CONNECTION_STATE_WAITING_FOR_BODY" and "inbound_offset st' = target_size st'"
  by (simp add: run_frames)

lemma handle_input_safe_witness:
  "\<exists>st' r. amqp_handle_input demo_memory demo_conn [8, 0, 0, 0, 0, 0, 0, 7] = (st', r) \<and> framing_ok st'"
proof -
  obtain st' r where r: "amqp_handle_input demo_memory demo_conn [8, 0, 0, 0, 0, 0, 0, 7] = (st', r)"
    by fastforce
  from handle_input_safe [OF _ _ _ r] have "framing_ok st'" by simp
  with r show ?thesis by blast
qed

lemma handle_input_split_witness:
  "\<exists>st1. amqp_handle_input demo_memory demo_conn (take 10 (wire_frame demo_frame)) = (st1, Inr (10, No_Frame)) \<and>
     snd (amqp_handle_input demo_memory st1 (drop 10 (wire_frame demo_frame))) = Inr (10, demo_frame)"
proof -
  let ?a = "take 10 (wire_frame demo_frame)" and ?b = "drop 10 (wire_frame demo_frame)"
  have ne: "?a \<noteq> []" "?b \<noteq> []" by simp_all
  obtain st1 where 1: "amqp_handle_input demo_memory demo_conn ?a = (st1, Inr (length ?a, No_Frame))"
      "collecting st1"
    by (rule receive_part [of demo_conn demo_memory demo_frame ?a ?b]) (simp_all add: ne del: length_take)
  obtain st' r where 2: "amqp_handle_input demo_memory st1 ?b = (st', r)" by fastforce
  have 3: "amqp_handle_input demo_memory demo_conn (?a @ ?b) = (demo_conn, Inr (20, demo_frame))"
    using receive_frame [of demo_conn demo_memory demo_frame "[]"] by simp
  from handle_input_split [OF _ _ _ 1(1) _ 2 3] 1(2)
  have "Inr (20, demo_frame) = map_sum id (map_prod (\<lambda>n. n + 10) id) r" by (simp add: collecting_def)
  then have "r = Inr (10, demo_frame)" by (cases r) auto
  with 1 2 show ?thesis by simp
qed


lemma refused_frame_sticks_witness:
  "\<exists>st'. amqp_handle_input demo_memory demo_conn [8, 0, 0, 0, 0, 0, 0, 7] = (st', Inl EINVAL) \<and>
     amqp_handle_input demo_memory st' [8, 0, 0, 0, 0, 0, 0, 206] = (st', Inl EINVAL)"
proof -
  obtain st' where bad: "amqp_handle_input demo_memory demo_conn [8, 0, 0, 0, 0, 0, 0, 7] = (st', Inl EINVAL)"
      "phase st' = CONNECTION_STATE_WAITING_FOR_BODY" "inbound_offset st' = target_size st'"
    by (rule demo_bad_end)
  from refused_frame_sticks [OF _ _ _ bad, of "[8, 0, 0, 0, 0, 0, 0, 206]"] bad(1) show ?thesis by simp
qed

section \<open>Where the code is weaker\<close>

text \<open>
  A frame header that claims a size of \<open>2 ^ 32 - 8\<close> to \<open>2 ^ 32 - 2\<close> bytes: the target wraps to less
  than what was read, and the next byte trips the assertion, which aborts the process.
\<close>

theorem wrapped_size_aborts:
  assumes "idle st" and "\<And>n. pool_ok mem n" and "8 \<le> buf_len (inbound_buffer st)"
    and "ty \<noteq> AMQP_PSEUDOFRAME_PROTOCOL_HEADER" and "unat (sz + 8) < 7"
  shows "\<exists>st'. amqp_handle_input mem st ([ty] @ wire_16 ch @ wire_32 sz @ [x]) = (st', Inl Aborted)"
proof -
  let ?H = "ty # wire_16 ch @ wire_32 sz"
  let ?s1 = "begin_frame mem st"
  let ?s2 = "absorb ?s1 ?H"
  note s1 = begin_idle [OF assms(1,2)]
  have c2: "collecting ?s2" using assms(3) s1 by (intro collecting_absorb) simp_all
  note hon = collecting_bounds(1) [OF c2]
  have bytes: "buf_bytes (inbound_buffer ?s2) = ?H @ drop 7 (buf_bytes (inbound_buffer ?s1))"
    using s1 by (simp add: absorb_def splice_def)
  have "D_8 (inbound_buffer ?s2) 0 = Inr ty"
    using bytes by (intro D_at(1) [OF hon, where pre = "[]"]) simp_all
  moreover have "D_32 (inbound_buffer ?s2) 3 = Inr sz"
    using bytes by (intro D_at(3) [OF hon, where pre = "ty # wire_16 ch"]) simp_all
  ultimately have "header_target (inbound_buffer ?s2) = Inr (CONNECTION_STATE_WAITING_FOR_BODY, unat (sz + 8))"
    using assms(4) by (simp add: header_target_def)
  then have s3: "header_read ?s2 = ?s2\<lparr>target_size := unat (sz + 8), phase := CONNECTION_STATE_WAITING_FOR_BODY\<rparr>"
    by (simp add: header_read_def)
  have c3: "collecting (header_read ?s2)"
    using s1 by (intro collecting_header_read c2) (simp add: HEADER_SIZE_def)
  have w3: "wanted (header_read ?s2) 1 = 1" using s1 assms(5) by (simp add: s3 wanted_def)
  have 3: "\<exists>st'. read_more mem (header_read ?s2) [x] 7 = (st', Inl Aborted)"
    using read_more_eq [OF c3, of "[x]" mem 7] w3 s1 assms(3,5) by (simp add: s3)
  have w1: "wanted ?s1 8 = 7" using s1 by (simp add: wanted_def)
  have "read_more mem ?s1 (?H @ [x]) 0 = read_more mem (header_read ?s2) [x] 7"
    using read_more_eq [OF s1(1), of "?H @ [x]" mem 0] w1 s1 assms(3) by simp
  with 3 read_more_start [of "?H @ [x]" mem st 0] show ?thesis by (simp add: amqp_handle_input_def)
qed

lemma wrapped_size_aborts_witness:
  "\<exists>st'. amqp_handle_input demo_memory demo_conn ([1] @ wire_16 0 @ wire_32 (- 4) @ [0]) = (st', Inl Aborted)"
  by (rule wrapped_size_aborts) (simp_all add: frame_codes)

text \<open>
  A broker that tunes \<open>frame_max\<close> to 11: the space for the arguments wraps to \<open>2 ^ 64 - 1\<close> bytes, and
  the answer \<open>tune-ok\<close> is written past the end of the outbound buffer.
\<close>

theorem tiny_frame_max_overflows:
  assumes "honest out" and "buf_len out = 11"
  shows "inner_send_frame out (Method_Frame ch AMQP_CONNECTION_TUNE_OK_METHOD
      (M_Connection (AMQP_Connection_Tune_Ok cm fm hb))) = Inl (Undefined Out_Of_Bounds)"
proof -
  have len: "length (buf_bytes out) = 11" using assms by (simp add: honest_def)
  have E: "E_BYTES b off ws = Inr (b\<lparr>buf_bytes := splice (buf_bytes b) off ws\<rparr>)"
    if "buf_len b = 11" "length (buf_bytes b) = 11" "off + length ws \<le> 11" for b off ws
    using that E_BYTES_honest [of b off ws] by (simp add: honest_def)
  have enc: "amqp_encode_method AMQP_CONNECTION_TUNE_OK_METHOD (M_Connection (AMQP_Connection_Tune_Ok cm fm hb))
      \<lparr>buf_len = 18446744073709551615, buf_bytes = []\<rparr> = Inl (Undefined Out_Of_Bounds)"
    using encode_method_eq [of "M_Connection (AMQP_Connection_Tune_Ok cm fm hb)"]
    by (simp add: encode_connection.simps enc_connection_tune_ok_def put_16_def put_at_def E_16_def E_BYTES_def CHECK_LIMIT_def)
  show ?thesis
    using len assms(2)
    by (simp add: inner_send_frame_def E_8_def E_16_def E_32_def E encode_into_def D_CHECK_def CHECK_LIMIT_def
        size_minus_def sub_buffer_def enc HEADER_SIZE_def FOOTER_SIZE_def)
qed

text \<open>A write that takes a part of a frame only is not noticed: the rest is never sent.\<close>

theorem short_write_reported_as_sent:
  assumes "valid_frame f" and "honest (outbound_buffer (conn c))"
    and "length (wire_frame f) \<le> buf_len (outbound_buffer (conn c))" and "accepts c = [Accept k]"
    and "0 < k" and "k < length (wire_frame f)" and "\<And>ch ws. f \<noteq> Body_Frame ch ws"
  shows "\<exists>c'. amqp_send_frame c f = (Inr (), c') \<and> outgoing c' = outgoing c @ take k (wire_frame f)"
proof -
  obtain out enc sep where s: "inner_send_frame (outbound_buffer (conn c)) f =
      Inr (out, enc, length (frame_payload f), sep)"
      "concat (frame_pieces out enc (length (frame_payload f)) sep) = wire_frame f" "\<not> sep"
    using inner_send_at [OF assms(1-3)] assms(7) by metis
  then have "take (length (frame_payload f) + (HEADER_SIZE + FOOTER_SIZE)) (buf_bytes out) = wire_frame f"
    by (simp add: frame_pieces_def)
  with s(1,3) assms(4-6) show ?thesis
    by (simp add: amqp_send_frame_def amqp_send_frame_to_def amqp_ssl_write_def Let_def min_def)
qed

end
