(* ===== verification/Socket.thy ===== *)
theory Socket
  imports Frames
begin

text \<open>
  Waiting for frames, remote procedure calls and the login, \<open>src/src/librabbitmq/amqp_socket.c\<close>:
  the loop that reads the socket until a frame is complete, the queue of frames that arrive while a
  reply is awaited, the handshake and its negotiation.
\<close>

section \<open>Calls that may block\<close>

text \<open>
  A call has a result or an error, and leaves the connection in some state either way; \<open>None\<close> is a
  call that never returns, because it waits for bytes that never come.
\<close>

type_synonym 'a blocking = "client \<Rightarrow> ((c_error + 'a) \<times> client) option"

definition io_ret :: "'a \<Rightarrow> 'a blocking" where
  "io_ret x c = Some (Inr x, c)"

definition io_fail :: "c_error \<Rightarrow> 'a blocking" where
  "io_fail e c = Some (Inl e, c)"

definition io_bind :: "'a blocking \<Rightarrow> ('a \<Rightarrow> 'b blocking) \<Rightarrow> 'b blocking" where
  "io_bind m f c =
     (case m c of
        None \<Rightarrow> None
      | Some (Inl e, c') \<Rightarrow> Some (Inl e, c')
      | Some (Inr x, c') \<Rightarrow> f x c')"

definition io_of :: "(client \<Rightarrow> (c_error + 'a) \<times> client) \<Rightarrow> 'a blocking" where
  "io_of m c = Some (m c)"

text \<open>\<open>amqp_assert\<close>, and the functions of the connection that abort.\<close>

definition amqp_assert :: "bool \<Rightarrow> unit blocking" where
  "amqp_assert b = (if b then io_ret () else io_fail Aborted)"

definition io_state :: "(client \<Rightarrow> c_error + client) \<Rightarrow> unit blocking" where
  "io_state m c = (case m c of Inl e \<Rightarrow> Some (Inl e, c) | Inr c' \<Rightarrow> Some (Inr (), c'))"

text \<open>Errors that no caller sees: the process is gone, or anything may happen.\<close>

fun fatal :: "c_error \<Rightarrow> bool" where
  "fatal Aborted \<longleftrightarrow> True"
| "fatal (Undefined _) \<longleftrightarrow> True"
| "fatal _ \<longleftrightarrow> False"

section \<open>The protocol header and SASL\<close>

definition AMQP_PROTOCOL_VERSION_MAJOR :: byte where "AMQP_PROTOCOL_VERSION_MAJOR = 8"
definition AMQP_PROTOCOL_VERSION_MINOR :: byte where "AMQP_PROTOCOL_VERSION_MINOR = 0"

definition header :: "byte list" where
  "header = [65, 77, 81, 80, 1, 1, AMQP_PROTOCOL_VERSION_MAJOR, AMQP_PROTOCOL_VERSION_MINOR]"

definition amqp_send_header :: "client \<Rightarrow> (c_error + nat) \<times> client" where
  "amqp_send_header c = amqp_ssl_write c header"

definition amqp_send_header_to :: "'c output_fn \<Rightarrow> 'c \<Rightarrow> (c_error + nat) \<times> 'c" where
  "amqp_send_header_to fn context = fn context header"

definition bytes_of :: "string \<Rightarrow> byte list" where
  "bytes_of s = map (\<lambda>ch. word_of_nat (of_char ch)) s"

definition AMQP_SASL_METHOD_PLAIN :: nat where "AMQP_SASL_METHOD_PLAIN = 0"

definition sasl_method_name :: "nat \<Rightarrow> c_error + byte list" where
  "sasl_method_name method =
     (if method = AMQP_SASL_METHOD_PLAIN then Inr (bytes_of ''PLAIN'') else Inl Aborted)"

text \<open>The memory from the pool is written without a look at the pointer.\<close>

definition sasl_response :: "memory \<Rightarrow> nat \<Rightarrow> byte list \<Rightarrow> byte list \<Rightarrow> c_error + byte list" where
  "sasl_response mem method username password =
     (if method \<noteq> AMQP_SASL_METHOD_PLAIN then Inl Aborted
      else if \<not> pool_ok mem (length username + length password + 2) then Inl (Undefined Null_Pointer)
      else Inr ([0] @ username @ [0] @ password))"

section \<open>Waiting for a frame\<close>

definition amqp_frames_enqueued :: "client \<Rightarrow> bool" where
  "amqp_frames_enqueued c \<longleftrightarrow> queued_frames c \<noteq> []"

definition amqp_data_in_buffer :: "client \<Rightarrow> bool" where
  "amqp_data_in_buffer c \<longleftrightarrow> sock_inbound_offset c < sock_inbound_limit c"

definition unread :: "client \<Rightarrow> byte list" where
  "unread c = take (sock_inbound_limit c - sock_inbound_offset c)
     (drop (sock_inbound_offset c) (buf_bytes (sock_inbound_buffer c)))"

text \<open>How much is left to read; a faulty read counts as well.\<close>

fun io_size :: "io_outcome \<Rightarrow> nat" where
  "io_size (Data bs) = length bs + 1"
| "io_size _ = 1"

definition refill :: "client \<Rightarrow> byte list \<Rightarrow> client" where
  "refill c bs =
     c\<lparr>sock_inbound_buffer := (sock_inbound_buffer c)\<lparr>buf_bytes := splice (buf_bytes (sock_inbound_buffer c)) 0 bs\<rparr>,
       sock_inbound_limit := length bs, sock_inbound_offset := 0\<rparr>"

definition consume :: "client \<Rightarrow> amqp_connection \<Rightarrow> nat \<Rightarrow> client" where
  "consume c st n = c\<lparr>conn := st, sock_inbound_offset := sock_inbound_offset c + n\<rparr>"

text \<open>The results: \<open>Some frame\<close> is 1, \<open>None\<close> is 0, the end of the stream.\<close>

function wait_frame_inner :: "memory \<Rightarrow> amqp_frame option blocking" where
  "wait_frame_inner mem c =
     (if amqp_data_in_buffer c
      then
        case amqp_handle_input mem (conn c) (unread c) of
          (st, Inl e) \<Rightarrow> Some (Inl e, c\<lparr>conn := st\<rparr>)
        | (st, Inr (result, frame)) \<Rightarrow>
            let c' = consume c st result
            in if frame \<noteq> No_Frame then Some (Inr (Some frame), c')
               else if result = 0 then Some (Inl Aborted, c')
               else wait_frame_inner mem c'
      else
        case amqp_ssl_read c (buf_len (sock_inbound_buffer c)) of
          None \<Rightarrow> None
        | Some (Inl e, c') \<Rightarrow> Some (Inl e, c')
        | Some (Inr bs, c') \<Rightarrow>
            if bs = [] then Some (Inr None, c') else wait_frame_inner mem (refill c' bs))"
  by pat_completeness auto

lemma read_smaller:
  "amqp_ssl_read c len = Some (Inr bs, c') \<Longrightarrow> bs \<noteq> [] \<Longrightarrow>
     sum_list (map io_size (incoming c')) < sum_list (map io_size (incoming c))"
  by (auto simp: amqp_ssl_read_def split: list.splits io_outcome.splits if_splits)

termination wait_frame_inner
  by (relation "measures [\<lambda>(mem, c). sum_list (map io_size (incoming c)),
        \<lambda>(mem, c). sock_inbound_limit c - sock_inbound_offset c]")
     (auto simp: consume_def refill_def amqp_data_in_buffer_def dest: read_smaller)

declare wait_frame_inner.simps [simp del]

definition amqp_simple_wait_frame :: "memory \<Rightarrow> amqp_frame option blocking" where
  "amqp_simple_wait_frame mem c =
     (case queued_frames c of
        f # fs \<Rightarrow> Some (Inr (Some f), c\<lparr>queued_frames := fs\<rparr>)
      | [] \<Rightarrow> wait_frame_inner mem c)"

fun method_of :: "amqp_frame \<Rightarrow> (u32 \<times> amqp_method) option" where
  "method_of (Method_Frame _ i m) = Some (i, m)"
| "method_of _ = None"

definition amqp_simple_wait_method :: "memory \<Rightarrow> u16 \<Rightarrow> u32 \<Rightarrow> (u32 \<times> amqp_method) option blocking" where
  "amqp_simple_wait_method mem expected_channel expected_method =
     io_bind (amqp_simple_wait_frame mem) (\<lambda>r.
     case r of
       None \<Rightarrow> io_ret None
     | Some frame \<Rightarrow>
         io_bind (amqp_assert (frame_channel frame = expected_channel)) (\<lambda>_.
         io_bind (amqp_assert (frame_type frame = AMQP_FRAME_METHOD)) (\<lambda>_.
         io_bind (amqp_assert (map_option fst (method_of frame) = Some expected_method)) (\<lambda>_.
         io_ret (method_of frame)))))"

section \<open>Remote procedure calls\<close>

definition amqp_send_method :: "client \<Rightarrow> u16 \<Rightarrow> u32 \<Rightarrow> amqp_method \<Rightarrow> (c_error + unit) \<times> client" where
  "amqp_send_method c channel i decoded = amqp_send_frame c (Method_Frame channel i decoded)"

text \<open>The list ends at the first 0.\<close>

fun amqp_id_in_reply_list :: "u32 \<Rightarrow> u32 list \<Rightarrow> bool" where
  "amqp_id_in_reply_list expected [] \<longleftrightarrow> False"
| "amqp_id_in_reply_list expected (i # is) \<longleftrightarrow>
     i \<noteq> 0 \<and> (i = expected \<or> amqp_id_in_reply_list expected is)"

text \<open>\<open>library_errno\<close> 0, \<open>None\<close> here, is the end of the stream.\<close>

datatype amqp_rpc_reply =
    AMQP_RESPONSE_NONE
  | AMQP_RESPONSE_NORMAL "(u32 \<times> amqp_method) option"
  | AMQP_RESPONSE_LIBRARY_EXCEPTION "c_error option"
  | AMQP_RESPONSE_SERVER_EXCEPTION u32 amqp_method

text \<open>A frame that ends the call, with the method it carries.\<close>

fun answers :: "u16 \<Rightarrow> u32 list \<Rightarrow> amqp_frame \<Rightarrow> bool" where
  "answers channel replies (Method_Frame ch i m) \<longleftrightarrow>
     ch = channel \<and> (amqp_id_in_reply_list i replies \<or> i = AMQP_CHANNEL_CLOSE_METHOD) \<or>
     ch = 0 \<and> i = AMQP_CONNECTION_CLOSE_METHOD"
| "answers channel replies _ \<longleftrightarrow> False"

fun reply_of :: "u32 list \<Rightarrow> amqp_frame \<Rightarrow> amqp_rpc_reply" where
  "reply_of replies (Method_Frame ch i m) =
     (if amqp_id_in_reply_list i replies then AMQP_RESPONSE_NORMAL (Some (i, m))
      else AMQP_RESPONSE_SERVER_EXCEPTION i m)"
| "reply_of replies _ = AMQP_RESPONSE_LIBRARY_EXCEPTION None"

definition sizeof_frame :: nat where "sizeof_frame = 32"
definition sizeof_link :: nat where "sizeof_link = 16"

definition enqueue :: "memory \<Rightarrow> amqp_frame \<Rightarrow> unit blocking" where
  "enqueue mem frame c =
     (if pool_ok mem sizeof_frame \<and> pool_ok mem sizeof_link
      then Some (Inr (), c\<lparr>queued_frames := queued_frames c @ [frame]\<rparr>)
      else Some (Inl (Undefined Null_Pointer), c))"

text \<open>The label \<open>retry\<close>.  The loop reads as long as other frames arrive.\<close>

partial_function (option) rpc_wait ::
  "memory \<Rightarrow> u16 \<Rightarrow> u32 list \<Rightarrow> client \<Rightarrow> ((c_error + amqp_rpc_reply) \<times> client) option" where
  "rpc_wait mem channel replies c =
     (case wait_frame_inner mem c of
        None \<Rightarrow> None
      | Some (Inl e, c') \<Rightarrow>
          Some (if fatal e then Inl e else Inr (AMQP_RESPONSE_LIBRARY_EXCEPTION (Some e)), c')
      | Some (Inr None, c') \<Rightarrow> Some (Inr (AMQP_RESPONSE_LIBRARY_EXCEPTION None), c')
      | Some (Inr (Some frame), c') \<Rightarrow>
          if answers channel replies frame then Some (Inr (reply_of replies frame), c')
          else case enqueue mem frame c' of
              Some (Inr _, c'') \<Rightarrow> rpc_wait mem channel replies c''
            | Some (Inl e, c'') \<Rightarrow> Some (Inl e, c'')
            | None \<Rightarrow> None)"

definition amqp_simple_rpc ::
  "memory \<Rightarrow> u16 \<Rightarrow> u32 \<Rightarrow> u32 list \<Rightarrow> amqp_method \<Rightarrow> amqp_rpc_reply blocking" where
  "amqp_simple_rpc mem channel request_id expected_reply_ids decoded_request_method c =
     (case amqp_send_method c channel request_id decoded_request_method of
        (Inl e, c') \<Rightarrow>
          Some (if fatal e then Inl e else Inr (AMQP_RESPONSE_LIBRARY_EXCEPTION (Some e)), c')
      | (Inr _, c') \<Rightarrow> rpc_wait mem channel expected_reply_ids c')"

section \<open>Logging in\<close>

text \<open>
  The negotiation.  \<open>server_channel_max\<close> and \<open>server_heartbeat\<close> are compared as \<open>int\<close>,
  \<open>server_frame_max\<close> with \<open>frame_max\<close> as \<open>uint32_t\<close>.
\<close>

definition negotiate :: "u16 \<Rightarrow> u32 \<Rightarrow> u16 \<Rightarrow> int \<Rightarrow> int \<Rightarrow> int \<Rightarrow> int \<times> int \<times> int" where
  "negotiate server_channel_max server_frame_max server_heartbeat cm fm hb =
     (if server_channel_max \<noteq> 0 \<and> (uint server_channel_max < cm \<or> cm = 0)
      then uint server_channel_max else cm,
      if server_frame_max \<noteq> 0 \<and> server_frame_max < word_of_int fm then sint server_frame_max else fm,
      if server_heartbeat \<noteq> 0 \<and> uint server_heartbeat < hb then uint server_heartbeat else hb)"

definition io_tune :: "memory \<Rightarrow> int \<Rightarrow> int \<Rightarrow> int \<Rightarrow> unit blocking" where
  "io_tune mem cm fm hb c =
     (case amqp_tune_connection mem (conn c) cm fm hb of (st, r) \<Rightarrow> Some (r, c\<lparr>conn := st\<rparr>))"

definition io_lift :: "c_error + 'a \<Rightarrow> 'a blocking" where
  "io_lift r c = Some (r, c)"

fun start_versions :: "amqp_method \<Rightarrow> byte \<times> byte" where
  "start_versions (M_Connection (AMQP_Connection_Start major minor _ _ _)) = (major, minor)"
| "start_versions _ = (0, 0)"

fun tune_values :: "amqp_method \<Rightarrow> u16 \<times> u32 \<times> u16" where
  "tune_values (M_Connection (AMQP_Connection_Tune cm fm hb)) = (cm, fm, hb)"
| "tune_values _ = (0, 0, 0)"

text \<open>
  The last part: the answer to \<open>connection.tune\<close>.  The timeouts set with \<open>setsockopt\<close> are part of
  what \<open>incoming\<close> and \<open>accepts\<close> will do.
\<close>

text \<open>The two \<open>setsockopt\<close> calls for the heartbeat, with \<open>2*heartbeat\<close> seconds.\<close>

definition set_heartbeat_timeout :: "int \<Rightarrow> client \<Rightarrow> client" where
  "set_heartbeat_timeout hb c = (if hb \<noteq> 0 then c\<lparr>socket_timeout := Some (int32 (2 * hb))\<rparr> else c)"

definition login_tune :: "memory \<Rightarrow> int \<Rightarrow> int \<Rightarrow> int \<Rightarrow> amqp_method \<Rightarrow> bool blocking" where
  "login_tune mem cm0 fm0 hb0 method =
     (case tune_values method of (scm, sfm, shb) \<Rightarrow>
      case negotiate scm sfm shb cm0 fm0 hb0 of (cm, fm, hb) \<Rightarrow>
        io_bind (\<lambda>c. Some (Inr (), set_heartbeat_timeout hb c)) (\<lambda>_.
        io_bind (io_tune mem cm fm hb) (\<lambda>_.
        io_bind (io_of (\<lambda>c. amqp_send_method c 0 AMQP_CONNECTION_TUNE_OK_METHOD
                   (M_Connection (AMQP_Connection_Tune_Ok (word_of_int cm) (word_of_int fm) (word_of_int hb))))) (\<lambda>_.
        io_bind (io_state amqp_release_buffers) (\<lambda>_. io_ret True)))))"

text \<open>The result 0, \<open>False\<close> here, is the end of the stream.\<close>

definition amqp_login_inner ::
  "memory \<Rightarrow> int \<Rightarrow> int \<Rightarrow> int \<Rightarrow> nat \<Rightarrow> byte list \<Rightarrow> byte list \<Rightarrow> bool blocking" where
  "amqp_login_inner mem cm fm hb sasl_method username password =
     io_bind (\<lambda>c. Some (Inr (), set_heartbeat_timeout hb c)) (\<lambda>_.
     io_bind (\<lambda>c. Some (Inr (), snd (amqp_send_header c))) (\<lambda>_.
     io_bind (amqp_simple_wait_method mem 0 AMQP_CONNECTION_START_METHOD) (\<lambda>r.
     case r of
       None \<Rightarrow> io_ret False
     | Some (_, method) \<Rightarrow>
         if start_versions method \<noteq> (AMQP_PROTOCOL_VERSION_MAJOR, AMQP_PROTOCOL_VERSION_MINOR)
         then io_fail EPROTOTYPE
         else
           io_bind (io_lift (sasl_response mem sasl_method username password)) (\<lambda>response.
           io_bind (io_lift (sasl_method_name sasl_method)) (\<lambda>mechanism.
           io_bind (io_of (\<lambda>c. amqp_send_method c 0 AMQP_CONNECTION_START_OK_METHOD
                      (M_Connection (AMQP_Connection_Start_Ok [] mechanism response (bytes_of ''en_US''))))) (\<lambda>_.
           io_bind (io_state amqp_release_buffers) (\<lambda>_.
           io_bind (amqp_simple_wait_method mem 0 AMQP_CONNECTION_TUNE_METHOD) (\<lambda>r.
           case r of
             None \<Rightarrow> io_ret False
           | Some (_, tune) \<Rightarrow> login_tune mem cm fm hb tune))))))))"

definition login_open :: "memory \<Rightarrow> byte list \<Rightarrow> amqp_rpc_reply blocking" where
  "login_open mem vhost =
     io_bind (amqp_simple_rpc mem 0 AMQP_CONNECTION_OPEN_METHOD [AMQP_CONNECTION_OPEN_OK_METHOD, 0]
                (M_Connection (AMQP_Connection_Open vhost [] True))) (\<lambda>result.
     case result of
       AMQP_RESPONSE_NORMAL _ \<Rightarrow>
         io_bind (io_state amqp_maybe_release_buffers) (\<lambda>_. io_ret (AMQP_RESPONSE_NORMAL None))
     | _ \<Rightarrow> io_ret result)"

text \<open>
  \<open>amqp_login\<close> does not look at the result of \<open>amqp_login_inner\<close>; after a failed tuning it uses a
  connection that was freed.
\<close>

definition amqp_login ::
  "memory \<Rightarrow> byte list \<Rightarrow> int \<Rightarrow> int \<Rightarrow> int \<Rightarrow> nat \<Rightarrow> byte list \<Rightarrow> byte list \<Rightarrow> amqp_rpc_reply blocking" where
  "amqp_login mem vhost cm fm hb sasl_method username password c =
     (case amqp_login_inner mem cm fm hb sasl_method username password c of
        None \<Rightarrow> None
      | Some (Inl e, c') \<Rightarrow>
          if fatal e then Some (Inl e, c')
          else if destroyed (conn c') then Some (Inl (Undefined Use_After_Free), c')
          else login_open mem vhost c'
      | Some (Inr _, c') \<Rightarrow> login_open mem vhost c')"

end
