(* ===== verification/Socket_Laws.thy ===== *)
theory Socket_Laws
  imports Socket
begin

text \<open>
  The laws of the socket layer: the loop that waits for a frame implements reading the next frame off
  a stream of bytes, whatever chunks the bytes arrive in; a remote procedure call returns when its
  answer arrives and keeps the other frames in order; the negotiation of the login.
\<close>

section \<open>The stream of bytes\<close>

text \<open>
  What the connection has still to decode: the unread part of the socket buffer and the bytes that
  will arrive, as long as only bytes arrive.
\<close>

fun arriving :: "io_outcome list \<Rightarrow> byte list" where
  "arriving (Data bs # rest) = bs @ arriving rest"
| "arriving _ = []"

definition pending :: "client \<Rightarrow> byte list" where
  "pending c = unread c @ arriving (incoming c)"

definition flowing :: "client \<Rightarrow> bool" where
  "flowing c \<longleftrightarrow> list_all (\<lambda>x. case x of Data bs \<Rightarrow> bs \<noteq> [] | _ \<Rightarrow> False) (incoming c)"

text \<open>The socket buffer, and the window of unread bytes in it.\<close>

definition sock_ok :: "client \<Rightarrow> bool" where
  "sock_ok c \<longleftrightarrow>
     0 < buf_len (sock_inbound_buffer c) \<and>
     buf_len (sock_inbound_buffer c) = length (buf_bytes (sock_inbound_buffer c)) \<and>
     sock_inbound_offset c \<le> sock_inbound_limit c \<and>
     sock_inbound_limit c \<le> buf_len (sock_inbound_buffer c)"

text \<open>Everything but the stream and the connection.\<close>

definition same_but_stream :: "client \<Rightarrow> client \<Rightarrow> bool" where
  "same_but_stream c c' \<longleftrightarrow>
     sockfd c' = sockfd c \<and> ssl c' = ssl c \<and> queued_frames c' = queued_frames c \<and>
     accepts c' = accepts c \<and> outgoing c' = outgoing c \<and>
     buf_len (sock_inbound_buffer c') = buf_len (sock_inbound_buffer c)"

lemma same_refl [simp]: "same_but_stream c c"
  by (simp add: same_but_stream_def)

lemma same_trans: "same_but_stream c c' \<Longrightarrow> same_but_stream c' c'' \<Longrightarrow> same_but_stream c c''"
  by (simp add: same_but_stream_def)

lemma length_unread: "sock_ok c \<Longrightarrow> length (unread c) = sock_inbound_limit c - sock_inbound_offset c"
  by (auto simp: sock_ok_def unread_def)

lemma unread_nonempty: "sock_ok c \<Longrightarrow> amqp_data_in_buffer c \<longleftrightarrow> unread c \<noteq> []"
  using length_unread [of c] by (simp add: amqp_data_in_buffer_def flip: length_greater_0_conv)

lemma unread_consume:
  "sock_ok c \<Longrightarrow> n \<le> length (unread c) \<Longrightarrow> unread (consume c st n) = drop n (unread c)"
  by (simp add: unread_def consume_def drop_take) (simp add: add.commute)

lemma sock_ok_consume:
  "sock_ok c \<Longrightarrow> n \<le> length (unread c) \<Longrightarrow> sock_ok (consume c st n)"
  using length_unread [of c] by (auto simp: sock_ok_def consume_def)

lemma consume_frame [simp]:
  "conn (consume c st n) = st" "incoming (consume c st n) = incoming c" "same_but_stream c (consume c st n)"
  "flowing (consume c st n) = flowing c"
  by (simp_all add: consume_def same_but_stream_def flowing_def)

text \<open>One read: the stream stays, the bytes move to the buffer.\<close>

lemma read_refill:
  assumes "sock_ok c" and "flowing c" and "unread c = []" and "pending c \<noteq> []"
  obtains bs c1 where "amqp_ssl_read c (buf_len (sock_inbound_buffer c)) = Some (Inr bs, c1)" and "bs \<noteq> []"
    and "pending (refill c1 bs) = pending c" and "sock_ok (refill c1 bs)" and "flowing (refill c1 bs)"
    and "conn (refill c1 bs) = conn c" and "same_but_stream c (refill c1 bs)"
    and "amqp_data_in_buffer (refill c1 bs)"
proof -
  let ?len = "buf_len (sock_inbound_buffer c)"
  from assms(2-4) obtain ws rest where inc: "incoming c = Data ws # rest" "ws \<noteq> []"
      "list_all (\<lambda>x. case x of Data bs \<Rightarrow> bs \<noteq> [] | _ \<Rightarrow> False) rest"
    by (cases "incoming c") (auto simp: pending_def flowing_def split: io_outcome.splits)
  let ?in = "if length ws \<le> ?len then rest else Data (drop ?len ws) # rest"
  let ?c = "c\<lparr>incoming := ?in\<rparr>" and ?bs = "take ?len ws"
  have len: "0 < ?len" "?len = length (buf_bytes (sock_inbound_buffer c))" using assms(1) by (auto simp: sock_ok_def)
  have "unread (refill ?c bs) = bs" for bs by (simp add: unread_def refill_def splice_def)
  then have "unread (refill ?c ?bs) = ?bs" .
  moreover have "arriving (incoming (refill ?c ?bs)) = drop ?len ws @ arriving rest"
    by (simp add: refill_def)
  ultimately have p: "pending (refill ?c ?bs) = pending c"
    using assms(3) inc(1) by (simp add: pending_def)
  show thesis
  proof (rule that [of ?bs ?c])
    show "amqp_ssl_read c ?len = Some (Inr ?bs, ?c)" using inc(1) by (simp add: amqp_ssl_read_def)
    show "?bs \<noteq> []" using inc(2) len(1) by simp
    show "sock_ok (refill ?c ?bs)" using assms(1) by (auto simp: sock_ok_def refill_def splice_def)
    show "flowing (refill ?c ?bs)" using inc(2,3) by (auto simp: flowing_def refill_def)
    show "amqp_data_in_buffer (refill ?c ?bs)" using inc(2) len(1) by (simp add: amqp_data_in_buffer_def refill_def)
  qed (use p in \<open>simp_all add: refill_def same_but_stream_def\<close>)
qed

section \<open>The next frame\<close>

text \<open>The first part \<open>a\<close> of the frame was handed to the connection, which was idle before it.\<close>

definition fed :: "memory \<Rightarrow> amqp_connection \<Rightarrow> byte list \<Rightarrow> amqp_connection \<Rightarrow> bool" where
  "fed mem st a st1 \<longleftrightarrow>
     (if a = [] then st1 = st
      else amqp_handle_input mem st a = (st1, Inr (length a, No_Frame)) \<and> collecting st1)"

lemma buf_len_inbound [simp]:
  "buf_len (inbound_buffer (return_to_idle st)) = buf_len (inbound_buffer st)"
  "buf_len (inbound_buffer (call_back f st)) = buf_len (inbound_buffer st)"
  by (cases f; simp add: return_to_idle_def)+

lemma fed_more:
  assumes "idle st" and "enough_memory mem" and "valid_frame f"
    and "length (wire_frame f) \<le> buf_len (inbound_buffer st)" and "wire_frame f = a @ u @ b'" and "b' \<noteq> []"
    and "u \<noteq> []" and "fed mem st a st1"
  obtains st2 where "amqp_handle_input mem st1 u = (st2, Inr (length u, No_Frame))" and "fed mem st (a @ u) st2"
proof -
  have pool: "\<And>n. pool_ok mem n" using assms(2) by (simp add: enough_memory_def)
  obtain st2 where 2: "amqp_handle_input mem st (a @ u) = (st2, Inr (length (a @ u), No_Frame))" "collecting st2"
    by (rule receive_part [OF assms(1-4), of "a @ u" b']) (use assms(5-7) in simp_all)
  have ok: "framing_ok st" using assms(1) by (simp add: idle_def)
  have "length (wire_frame f) < 2 ^ 31" using assms(1,4) by (simp add: idle_iff)
  then have len: "length (a @ u) < 2 ^ 31" unfolding assms(5) by simp
  show thesis
  proof (cases "a = []")
    case True
    with 2 assms(7,8) show ?thesis by (intro that [of st2]) (simp_all add: fed_def)
  next
    case False
    then have 1: "amqp_handle_input mem st a = (st1, Inr (length a, No_Frame))" "phase st1 \<noteq> CONNECTION_STATE_IDLE"
      using assms(8) by (simp_all add: fed_def collecting_def)
    obtain st' r where 3: "amqp_handle_input mem st1 u = (st', r)" by fastforce
    from handle_input_pieces [OF ok pool len 1 3 2(1)]
    have "r = Inr (length u, No_Frame)" "st' = st2" by (cases r; auto)+
    with 2 3 assms(7) show ?thesis by (intro that [of st2]) (simp_all add: fed_def)
  qed
qed

lemma fed_all:
  assumes "idle st" and "enough_memory mem" and "valid_frame f"
    and "length (wire_frame f) \<le> buf_len (inbound_buffer st)" and "wire_frame f = a @ b" and "b \<noteq> []"
    and "fed mem st a st1" and "length (a @ b @ d) < 2 ^ 31"
  shows "amqp_handle_input mem st1 (b @ d) = (call_back f st, Inr (length b, f))"
proof -
  have pool: "\<And>n. pool_ok mem n" using assms(2) by (simp add: enough_memory_def)
  have len: "length (wire_frame f @ d) < 2 ^ 31" "length (a @ b @ d) < 2 ^ 31" using assms(5,8) by simp_all
  have whole: "amqp_handle_input mem st (a @ b @ d) = (call_back f st, Inr (length (wire_frame f), f))"
    using receive_frame [OF assms(1-4) len(1)] assms(5) by simp
  show ?thesis
  proof (cases "a = []")
    case True
    with whole assms(5,7) show ?thesis by (simp add: fed_def)
  next
    case False
    then have 1: "amqp_handle_input mem st a = (st1, Inr (length a, No_Frame))" "phase st1 \<noteq> CONNECTION_STATE_IDLE"
      using assms(7) by (simp_all add: fed_def collecting_def)
    have ok: "framing_ok st" using assms(1) by (simp add: idle_def)
    obtain st' r where 3: "amqp_handle_input mem st1 (b @ d) = (st', r)" by fastforce
    from handle_input_pieces [OF ok pool len(2) 1 3 whole] assms(5)
    have "r = Inr (length b, f)" "st' = call_back f st" by (cases r; auto)+
    with 3 show ?thesis by simp
  qed
qed

lemma wait_frame_fed:
  assumes "idle st" and "enough_memory mem" and "valid_frame f"
    and "length (wire_frame f) \<le> buf_len (inbound_buffer st)"
    and "buf_len (inbound_buffer st) + buf_len (sock_inbound_buffer c) < 2 ^ 31"
    and "wire_frame f = a @ b" and "b \<noteq> []" and "fed mem st a (conn c)"
    and "sock_ok c" and "flowing c" and "pending c = b @ rest"
  shows "\<exists>c'. wait_frame_inner mem c = Some (Inr (Some f), c') \<and> conn c' = call_back f st \<and>
    pending c' = rest \<and> sock_ok c' \<and> flowing c' \<and> same_but_stream c c'"
  using assms(2,5-)
proof (induction mem c arbitrary: a b rule: wait_frame_inner.induct)
  case (1 mem c)
  note prems = 1(3-)
  have f_frame: "f \<noteq> No_Frame" using assms(3) by auto
  show ?case
  proof (cases "unread c = []")
    case True
    then have nb: "\<not> amqp_data_in_buffer c" using unread_nonempty [OF prems(6)] by simp
    have "pending c \<noteq> []" using prems(4,8) by simp
    from read_refill [OF prems(6,7) True this] obtain bs c1 where
      r: "amqp_ssl_read c (buf_len (sock_inbound_buffer c)) = Some (Inr bs, c1)" "bs \<noteq> []"
        "pending (refill c1 bs) = pending c" "sock_ok (refill c1 bs)" "flowing (refill c1 bs)"
        "conn (refill c1 bs) = conn c" "same_but_stream c (refill c1 bs)" by metis
    have "buf_len (inbound_buffer st) + buf_len (sock_inbound_buffer (refill c1 bs)) < 2 ^ 31"
      using r(7) prems(2) by (simp add: same_but_stream_def)
    from 1(2) [OF nb r(1) refl refl r(2) prems(1) this prems(3,4) _ r(4,5)] r prems(5,8)
    obtain c' where "wait_frame_inner mem (refill c1 bs) = Some (Inr (Some f), c')"
        "conn c' = call_back f st" "pending c' = rest" "sock_ok c'" "flowing c'" "same_but_stream (refill c1 bs) c'"
      by auto
    with nb r show ?thesis
      by (subst wait_frame_inner.simps) (auto intro: same_trans)
  next
    case False
    then have d: "amqp_data_in_buffer c" using unread_nonempty [OF prems(6)] by simp
    let ?u = "unread c"
    have p: "?u @ arriving (incoming c) = b @ rest" using prems(8) by (simp add: pending_def)
    show ?thesis
    proof (cases "length b \<le> length ?u")
      case True
      with p obtain v where u: "?u = b @ v" and rest: "rest = v @ arriving (incoming c)"
        by (metis append_eq_append_conv_if append_eq_conv_conj)
      have "length ?u \<le> buf_len (sock_inbound_buffer c)" using length_unread [OF prems(6)] prems(6) by (auto simp: sock_ok_def)
      moreover have "length a \<le> buf_len (inbound_buffer st)" using assms(4) prems(3) by simp
      ultimately have "length (a @ b @ v) < 2 ^ 31" using prems(2) u by simp
      from fed_all [OF assms(1) prems(1) assms(3,4) prems(3,4,5) this] u
      have h: "amqp_handle_input mem (conn c) ?u = (call_back f st, Inr (length b, f))" by simp
      let ?c = "consume c (call_back f st) (length b)"
      have "wait_frame_inner mem c = Some (Inr (Some f), ?c)"
        using d h f_frame by (subst wait_frame_inner.simps) (simp add: Let_def)
      moreover have "pending ?c = rest" using unread_consume [OF prems(6) True] u rest by (simp add: pending_def)
      ultimately show ?thesis using sock_ok_consume [OF prems(6) True] prems(7) by simp
    next
      case part: False
      with p obtain b' where b: "b = ?u @ b'" "arriving (incoming c) = b' @ rest"
        by (metis append_eq_append_conv_if append_eq_conv_conj linear)
      with part have b': "b' \<noteq> []" by auto
      have ne: "?u \<noteq> []" using False .
      from prems(3) b(1) have wf: "wire_frame f = a @ ?u @ b'" "wire_frame f = (a @ ?u) @ b'" by simp_all
      obtain st2 where h: "amqp_handle_input mem (conn c) ?u = (st2, Inr (length ?u, No_Frame))"
          and fed: "fed mem st (a @ ?u) st2"
        by (rule fed_more [OF assms(1) prems(1) assms(3,4) wf(1) b' ne prems(5)])
      let ?c = "consume c st2 (length ?u)"
      have pe: "pending ?c = b' @ rest"
        using unread_consume [OF prems(6), of "length ?u"] b(2) by (simp add: pending_def)
      have sk: "sock_ok ?c" using sock_ok_consume [OF prems(6)] by simp
      have "buf_len (inbound_buffer st) + buf_len (sock_inbound_buffer ?c) < 2 ^ 31"
        using prems(2) by (simp add: consume_def)
      from 1(1) [OF d h [symmetric] refl refl refl _ _ prems(1) this wf(2) b' _ sk _ pe] ne fed prems(7)
      obtain c' where "wait_frame_inner mem ?c = Some (Inr (Some f), c')"
          "conn c' = call_back f st" "pending c' = rest" "sock_ok c'" "flowing c'" "same_but_stream ?c c'"
        by auto
      with d h ne show ?thesis
        by (subst wait_frame_inner.simps) (auto simp: Let_def intro: same_trans [OF consume_frame(3)])
    qed
  qed
qed

section \<open>The stream of frames\<close>

text \<open>
  The connection is between two frames, and what will arrive are the frames \<open>fs\<close>, which fit, and then
  the bytes \<open>rest\<close>; no other bytes and no errors.
\<close>

definition stream :: "client \<Rightarrow> amqp_frame list \<Rightarrow> byte list \<Rightarrow> bool" where
  "stream c fs rest \<longleftrightarrow>
     idle (conn c) \<and> sock_ok c \<and> flowing c \<and>
     buf_len (inbound_buffer (conn c)) + buf_len (sock_inbound_buffer c) < 2 ^ 31 \<and>
     list_all (\<lambda>f. valid_frame f \<and> length (wire_frame f) \<le> buf_len (inbound_buffer (conn c))) fs \<and>
     pending c = concat (map wire_frame fs) @ rest"

lemma stream_queue [simp]: "stream (c\<lparr>queued_frames := q\<rparr>) fs rest = stream c fs rest"
  by (simp add: stream_def sock_ok_def flowing_def pending_def unread_def)

lemma stream_outgoing [simp]: "stream (c\<lparr>outgoing := ws\<rparr>) fs rest = stream c fs rest"
  by (simp add: stream_def sock_ok_def flowing_def pending_def unread_def)

lemma sock_simps [simp]:
  "sock_ok (c\<lparr>conn := st\<rparr>) = sock_ok c" "flowing (c\<lparr>conn := st\<rparr>) = flowing c"
  "pending (c\<lparr>conn := st\<rparr>) = pending c"
  by (simp_all add: sock_ok_def flowing_def pending_def unread_def)

lemma stream_sent [simp]:
  "stream (c\<lparr>outgoing := ws, conn := (conn c)\<lparr>outbound_buffer := out\<rparr>\<rparr>) fs rest = stream c fs rest"
  by (simp add: stream_def sock_ok_def flowing_def pending_def unread_def idle_iff)

lemma stream_next:
  assumes "stream c (f # fs) rest" and "enough_memory mem"
  obtains c' where "wait_frame_inner mem c = Some (Inr (Some f), c')" and "conn c' = call_back f (conn c)"
    and "stream c' fs rest" and "same_but_stream c c'"
proof -
  from assms(1) have c: "idle (conn c)" "sock_ok c" "flowing c" "valid_frame f"
      "length (wire_frame f) \<le> buf_len (inbound_buffer (conn c))"
      "buf_len (inbound_buffer (conn c)) + buf_len (sock_inbound_buffer c) < 2 ^ 31"
      "pending c = wire_frame f @ concat (map wire_frame fs) @ rest"
    by (simp_all add: stream_def)
  from wait_frame_fed [OF c(1) assms(2) c(4-6), of "[]" "wire_frame f", OF _ _ _ c(2,3,7)]
  obtain c' where c': "wait_frame_inner mem c = Some (Inr (Some f), c')" "conn c' = call_back f (conn c)"
      "pending c' = concat (map wire_frame fs) @ rest" "sock_ok c'" "flowing c'" "same_but_stream c c'"
    by (auto simp: fed_def)
  have "idle (call_back f (conn c))" using c(1) by (simp add: idle_def)
  with c' assms(1) have "stream c' fs rest"
    by (simp add: stream_def same_but_stream_def)
  with c' show thesis by (intro that)
qed

section \<open>A source of frames\<close>

text \<open>
  The interface of everything that waits for frames: as long as \<open>feeds c (f # fs)\<close> holds, receiving
  returns \<open>f\<close> and leaves \<open>fs\<close>.
\<close>

fun receive_frames ::
  "('c \<Rightarrow> ((c_error + amqp_frame option) \<times> 'c) option) \<Rightarrow> nat \<Rightarrow> 'c \<Rightarrow> ((c_error + amqp_frame list) \<times> 'c) option"
where
  "receive_frames recv 0 c = Some (Inr [], c)"
| "receive_frames recv (Suc n) c =
     (case recv c of
        None \<Rightarrow> None
      | Some (Inl e, c') \<Rightarrow> Some (Inl e, c')
      | Some (Inr None, c') \<Rightarrow> Some (Inr [], c')
      | Some (Inr (Some f), c') \<Rightarrow>
          map_option (\<lambda>(r, c''). (map_sum id ((#) f) r, c'')) (receive_frames recv n c'))"

locale frame_source =
  fixes recv :: "'c \<Rightarrow> ((c_error + amqp_frame option) \<times> 'c) option"
    and feeds :: "'c \<Rightarrow> amqp_frame list \<Rightarrow> bool"
  assumes recv_next: "feeds c (f # fs) \<Longrightarrow> \<exists>c'. recv c = Some (Inr (Some f), c') \<and> feeds c' fs"
begin

lemma receive_some:
  "feeds c (fs @ gs) \<Longrightarrow> \<exists>c'. receive_frames recv (length fs) c = Some (Inr fs, c') \<and> feeds c' gs"
proof (induction fs arbitrary: c)
  case (Cons f fs)
  then obtain c1 where "recv c = Some (Inr (Some f), c1)" "feeds c1 (fs @ gs)" using recv_next by fastforce
  with Cons.IH [of c1] show ?case by auto
qed simp

lemma receive_all: "feeds c fs \<Longrightarrow> \<exists>c'. receive_frames recv (length fs) c = Some (Inr fs, c') \<and> feeds c' []"
  using receive_some [of c fs "[]"] by simp

end

text \<open>Reading off the socket, and waiting for a frame, which takes the queued frames first.\<close>

interpretation socket_source:
  frame_source "wait_frame_inner mem" "\<lambda>c fs. enough_memory mem \<and> stream c fs rest" for mem rest
  by unfold_locales (blast elim: stream_next)

interpretation waiting:
  frame_source "amqp_simple_wait_frame mem"
    "\<lambda>c fs. enough_memory mem \<and> (\<exists>gs. stream c gs rest \<and> queued_frames c @ gs = fs)" for mem rest
proof (unfold_locales, goal_cases)
  case (1 c f fs)
  then obtain gs where gs: "enough_memory mem" "stream c gs rest" "queued_frames c @ gs = f # fs" by blast
  show ?case
  proof (cases "queued_frames c")
    case Nil
    with gs have "stream c (f # fs) rest" by simp
    then obtain c' where "wait_frame_inner mem c = Some (Inr (Some f), c')" "stream c' fs rest" "same_but_stream c c'"
      using stream_next gs(1) by blast
    with Nil gs(1) show ?thesis by (auto simp: amqp_simple_wait_frame_def same_but_stream_def)
  next
    case (Cons q qs)
    from gs(2) have "stream (c\<lparr>queued_frames := qs\<rparr>) gs rest" by simp
    with Cons gs show ?thesis by (auto simp: amqp_simple_wait_frame_def)
  qed
qed

lemma rpc_wait_answered:
  assumes "enough_memory mem"
  shows "stream c (fs @ [f]) rest \<Longrightarrow> list_all (\<lambda>g. \<not> answers ch ids g) fs \<Longrightarrow> answers ch ids f \<Longrightarrow>
    \<exists>c'. rpc_wait mem ch ids c = Some (Inr (reply_of ids f), c') \<and> queued_frames c' = queued_frames c @ fs \<and>
      stream c' [] rest \<and> outgoing c' = outgoing c \<and> accepts c' = accepts c \<and>
      conn c' = fold call_back (fs @ [f]) (conn c)"
proof (induction fs arbitrary: c)
  case Nil
  then have "stream c (f # []) rest" by simp
  then obtain c' where "wait_frame_inner mem c = Some (Inr (Some f), c')" "conn c' = call_back f (conn c)"
      "stream c' [] rest" "same_but_stream c c'" using stream_next assms by blast
  with Nil show ?case by (subst rpc_wait.simps) (simp add: same_but_stream_def)
next
  case (Cons g fs)
  then have "stream c (g # (fs @ [f])) rest" by simp
  then obtain c1 where 1: "wait_frame_inner mem c = Some (Inr (Some g), c1)" "conn c1 = call_back g (conn c)"
      "stream c1 (fs @ [f]) rest" "same_but_stream c c1" using stream_next assms by blast
  let ?c = "c1\<lparr>queued_frames := queued_frames c1 @ [g]\<rparr>"
  have "enqueue mem g c1 = Some (Inr (), ?c)" using assms by (simp add: enqueue_def enough_memory_def)
  moreover have "stream ?c (fs @ [f]) rest" using 1(3) by simp
  then have *: "\<exists>c'. rpc_wait mem ch ids ?c = Some (Inr (reply_of ids f), c') \<and>
      queued_frames c' = queued_frames ?c @ fs \<and> stream c' [] rest \<and> outgoing c' = outgoing ?c \<and>
      accepts c' = accepts ?c \<and> conn c' = fold call_back (fs @ [f]) (conn ?c)"
    using Cons.prems by (intro Cons.IH) simp_all
  moreover have "\<not> answers ch ids g" using Cons.prems(2) by simp
  ultimately have "rpc_wait mem ch ids c = rpc_wait mem ch ids ?c"
    using 1(1) by (subst rpc_wait.simps) simp
  with * 1(2,4) show ?case by (simp add: same_but_stream_def)
qed

lemma send_keeps_stream:
  assumes "valid_frame f" and "honest (outbound_buffer (conn c))"
    and "length (wire_frame f) \<le> buf_len (outbound_buffer (conn c))" and "accepts c = []" and "stream c fs rest"
  obtains c' out where "amqp_send_frame c f = (Inr (), c')" and "stream c' fs rest"
    and "outgoing c' = outgoing c @ wire_frame f" and "queued_frames c' = queued_frames c" and "accepts c' = []"
    and "conn c' = (conn c)\<lparr>outbound_buffer := out\<rparr>" and "honest out"
    and "buf_len out = buf_len (outbound_buffer (conn c))"
    and "buf_len (sock_inbound_buffer c') = buf_len (sock_inbound_buffer c)"
proof -
  obtain out where s: "amqp_send_frame c f =
      (Inr (), c\<lparr>outgoing := outgoing c @ wire_frame f, conn := (conn c)\<lparr>outbound_buffer := out\<rparr>\<rparr>)"
      "honest out" "buf_len out = buf_len (outbound_buffer (conn c))"
    using send_frame_accepted [OF assms(1-4)] by blast
  show thesis
    by (rule that [OF s(1) _ _ _ _ _ s(2,3)])
       (use assms(4,5) in simp_all)
qed

lemma simple_rpc_stream:
  assumes "stream c (fs @ [f]) rest" and "enough_memory mem" and "list_all (\<lambda>g. \<not> answers channel ids g) fs"
    and "answers channel ids f" and "accepts c = []" and "valid_frame (Method_Frame channel req m)"
    and "honest (outbound_buffer (conn c))"
    and "length (wire_frame (Method_Frame channel req m)) \<le> buf_len (outbound_buffer (conn c))"
  shows "\<exists>c'. amqp_simple_rpc mem channel req ids m c = Some (Inr (reply_of ids f), c') \<and>
    queued_frames c' = queued_frames c @ fs \<and> stream c' [] rest \<and>
    outgoing c' = outgoing c @ wire_frame (Method_Frame channel req m)"
proof -
  obtain c1 where c1: "amqp_send_frame c (Method_Frame channel req m) = (Inr (), c1)" "stream c1 (fs @ [f]) rest"
      "outgoing c1 = outgoing c @ wire_frame (Method_Frame channel req m)" "queued_frames c1 = queued_frames c"
    by (rule send_keeps_stream [OF assms(6-8,5,1)])
  with rpc_wait_answered [OF assms(2) c1(2) assms(3,4)] show ?thesis
    by (auto simp: amqp_simple_rpc_def amqp_send_method_def)
qed

section \<open>Properties\<close>

text \<open>C28: The frames come first in, first out: whatever chunks the bytes arrive in,
  \<open>amqp_simple_wait_frame\<close> returns the first of the frames that are queued and then of the frames that
  are on their way, and leaves the others in order.\<close>

theorem wait_frame_fifo:
  assumes "stream c fs rest" and "enough_memory mem" and "queued_frames c @ fs = f # gs"
  shows "\<exists>c' fs'. amqp_simple_wait_frame mem c = Some (Inr (Some f), c') \<and>
    stream c' fs' rest \<and> queued_frames c' @ fs' = gs"
proof -
  have "enough_memory mem \<and> (\<exists>hs. stream c hs rest \<and> queued_frames c @ hs = f # gs)" using assms by blast
  from waiting.recv_next [OF this] show ?thesis by blast
qed

text \<open>C29: A remote procedure call returns when its answer arrives: if the request fits and is
  accepted, and the frames on their way are \<open>fs\<close>, none of which answers the call, and then one that
  does, \<open>amqp_simple_rpc\<close> sends the request, returns the answer as a normal reply or as a server
  exception, and has put \<open>fs\<close> in order behind the frames that were queued before.\<close>

theorem rpc_answered:
  assumes "stream c (fs @ [f]) rest" and "enough_memory mem" and "list_all (\<lambda>g. \<not> answers channel ids g) fs"
    and "answers channel ids f" and "accepts c = []" and "valid_frame (Method_Frame channel req m)"
    and "honest (outbound_buffer (conn c))"
    and "length (wire_frame (Method_Frame channel req m)) \<le> buf_len (outbound_buffer (conn c))"
  shows "\<exists>c'. amqp_simple_rpc mem channel req ids m c = Some (Inr (reply_of ids f), c') \<and>
    queued_frames c' = queued_frames c @ fs \<and> stream c' [] rest \<and>
    outgoing c' = outgoing c @ wire_frame (Method_Frame channel req m)"
  by (rule simple_rpc_stream [OF assms])

text \<open>C31: The values tuned in the login are within both offers: never more than the client asked
  for, and never more than the server offered where it offered a limit.  The client's values are not
  negative, and 0 asks for no limit on the channels.\<close>

theorem negotiate_bounds:
  assumes "0 \<le> cm" and "0 < fm" and "fm < 2 ^ 31" and "0 \<le> hb"
    and "negotiate scm sfm shb cm fm hb = (cm', fm', hb')"
  shows "0 < fm' \<and> fm' \<le> fm \<and> (sfm = 0 \<or> fm' \<le> uint sfm) \<and>
    0 \<le> cm' \<and> (cm = 0 \<or> cm' \<le> cm) \<and> (scm = 0 \<or> 0 < cm' \<and> cm' \<le> uint scm) \<and>
    0 \<le> hb' \<and> hb' \<le> hb \<and> (shb = 0 \<or> hb' \<le> uint shb)"
proof -
  have fm: "uint (word_of_int fm :: u32) = fm" using assms(2,3) by (simp add: uint_word_of_int)
  have sfm: "sint sfm = uint sfm \<and> 0 < uint sfm \<and> uint sfm < fm" if "sfm \<noteq> 0" "sfm < word_of_int fm"
  proof -
    have lt: "uint sfm < fm" using that(2) fm by (simp add: word_less_def)
    have "- (2 ^ 31) \<le> uint sfm" by (rule order_trans [OF _ uint_ge_0]) simp
    then have "sint (word_of_int (uint sfm) :: u32) = uint sfm" using lt assms(3) by (intro sint_small) simp_all
    then show ?thesis using lt that(1) by (simp add: word_neq_0_conv word_less_def)
  qed
  have not_less: "fm \<le> uint sfm" if "\<not> sfm < word_of_int fm" using that fm by (simp add: word_less_def)
  have pos: "0 < uint scm" if "scm \<noteq> 0" using that by (simp add: word_neq_0_conv word_less_def)
  have eq: "cm' = (if scm \<noteq> 0 \<and> (uint scm < cm \<or> cm = 0) then uint scm else cm)"
      "fm' = (if sfm \<noteq> 0 \<and> sfm < word_of_int fm then sint sfm else fm)"
      "hb' = (if shb \<noteq> 0 \<and> uint shb < hb then uint shb else hb)"
    using assms(5) by (simp_all add: negotiate_def)
  have "0 < fm' \<and> fm' \<le> fm \<and> (sfm = 0 \<or> fm' \<le> uint sfm)"
    using assms(2) sfm not_less unfolding eq(2) by auto
  moreover have "0 \<le> cm' \<and> (cm = 0 \<or> cm' \<le> cm) \<and> (scm = 0 \<or> 0 < cm' \<and> cm' \<le> uint scm)"
    using assms(1) pos unfolding eq(1) by auto
  moreover have "0 \<le> hb' \<and> hb' \<le> hb \<and> (shb = 0 \<or> hb' \<le> uint shb)"
    using assms(4) unfolding eq(3) by auto
  ultimately show ?thesis by blast
qed

section \<open>A concrete stream\<close>

definition demo_receiving :: "byte list list \<Rightarrow> client" where
  "demo_receiving wss = demo_client\<lparr>incoming := map Data wss\<rparr>"

lemma arriving_chunks [simp]: "arriving (map Data wss) = concat wss"
  by (induction wss) simp_all

lemma demo_stream:
  assumes "concat wss = concat (map wire_frame fs) @ rest" and "list_all (\<lambda>ws. ws \<noteq> []) wss"
    and "list_all (\<lambda>f. valid_frame f \<and> length (wire_frame f) \<le> 64) fs"
  shows "stream (demo_receiving wss) fs rest"
  using assms
  by (simp add: stream_def demo_receiving_def demo_client_def sock_ok_def flowing_def list_all_iff
      pending_def unread_def demo_buffer_def)

lemma demo_receiving_simps [simp]:
  "queued_frames (demo_receiving wss) = []" "accepts (demo_receiving wss) = []"
  "conn (demo_receiving wss) = demo_conn" "outgoing (demo_receiving wss) = []"
  "honest (demo_buffer 64)" "buf_len (demo_buffer n) = n"
  "buf_len (sock_inbound_buffer (demo_receiving wss)) = 128"
  by (simp_all add: demo_receiving_def demo_client_def honest_def demo_buffer_def)

lemma wait_frame_fifo_witness:
  "\<exists>c'. amqp_simple_wait_frame demo_memory
      (demo_receiving [take 5 (wire_frame demo_frame), drop 5 (wire_frame demo_frame)]) =
    Some (Inr (Some demo_frame), c')"
proof -
  let ?wss = "[take 5 (wire_frame demo_frame), drop 5 (wire_frame demo_frame)]"
  have ne: "take 5 (wire_frame demo_frame) \<noteq> []" "drop 5 (wire_frame demo_frame) \<noteq> []" by simp_all
  have "stream (demo_receiving ?wss) [demo_frame] []" using ne by (intro demo_stream) simp_all
  from wait_frame_fifo [OF this, of demo_memory demo_frame "[]"] show ?thesis by auto
qed

definition demo_reply :: amqp_frame where
  "demo_reply = Method_Frame 1 AMQP_TX_SELECT_OK_METHOD (M_Tx AMQP_Tx_Select_Ok)"

definition demo_select :: amqp_frame where
  "demo_select = Method_Frame 1 AMQP_TX_SELECT_METHOD (M_Tx AMQP_Tx_Select)"

lemma demo_rpc [simp]:
  "valid_frame demo_reply" "length (wire_frame demo_reply) = 12" "valid_frame demo_select"
  "length (wire_frame demo_select) = 12"
  by (simp_all add: demo_reply_def demo_select_def length_wire_frame wire_tx.simps)

lemma rpc_answered_witness:
  "\<exists>c'. amqp_simple_rpc demo_memory 1 AMQP_TX_SELECT_METHOD [AMQP_TX_SELECT_OK_METHOD, 0] (M_Tx AMQP_Tx_Select)
      (demo_receiving [wire_frame demo_frame @ wire_frame demo_reply]) =
    Some (Inr (AMQP_RESPONSE_NORMAL (Some (AMQP_TX_SELECT_OK_METHOD, M_Tx AMQP_Tx_Select_Ok))), c') \<and>
    queued_frames c' = [demo_frame]"
proof -
  have "wire_frame demo_frame \<noteq> []" by (metis demo_frames(4) list.size(3) zero_neq_numeral)
  then have "stream (demo_receiving [wire_frame demo_frame @ wire_frame demo_reply]) ([demo_frame] @ [demo_reply]) []"
    by (intro demo_stream) simp_all
  from rpc_answered [OF this, of demo_memory 1 "[AMQP_TX_SELECT_OK_METHOD, 0]" AMQP_TX_SELECT_METHOD "M_Tx AMQP_Tx_Select"]
  show ?thesis
    using demo_rpc(3,4)
    by (auto simp: demo_frame_def demo_reply_def demo_select_def AMQP_TX_SELECT_OK_METHOD_def
        AMQP_CONNECTION_TUNE_METHOD_def AMQP_CHANNEL_CLOSE_METHOD_def AMQP_CONNECTION_CLOSE_METHOD_def)
qed

lemma negotiate_bounds_witness:
  "negotiate 100 4096 0 0 131072 30 = (100, 4096, 30) \<and> (4096::int) \<le> 131072"
proof -
  have "negotiate 100 4096 0 0 131072 30 = (100, 4096, 30)" by (simp add: negotiate_def)
  from negotiate_bounds [OF _ _ _ _ this] this show ?thesis by simp
qed

end
