(* ===== verification/Login.thy ===== *)
theory Login
  imports Socket_Laws
begin

text \<open>
  The login against a broker that follows the protocol, and what is left of it when it fails.
\<close>

lemma io_bind_simps [simp]:
  "m c = Some (Inr x, c') \<Longrightarrow> io_bind m f c = f x c'"
  "m c = Some (Inl e, c') \<Longrightarrow> io_bind m f c = Some (Inl e, c')"
  "m c = None \<Longrightarrow> io_bind m f c = None"
  by (simp_all add: io_bind_def)

lemma io_basic [simp]:
  "io_ret x c = Some (Inr x, c)" "io_fail e c = Some (Inl e, c)" "amqp_assert True c = Some (Inr (), c)"
  "amqp_assert False c = Some (Inl Aborted, c)" "io_lift r c = Some (r, c)"
  by (simp_all add: io_ret_def io_fail_def amqp_assert_def io_lift_def)

lemma heartbeat_timeout_fields [simp]:
  "conn (set_heartbeat_timeout hb c) = conn c" "queued_frames (set_heartbeat_timeout hb c) = queued_frames c"
  "accepts (set_heartbeat_timeout hb c) = accepts c" "outgoing (set_heartbeat_timeout hb c) = outgoing c"
  "sock_inbound_buffer (set_heartbeat_timeout hb c) = sock_inbound_buffer c"
  "stream (set_heartbeat_timeout hb c) fs rest = stream c fs rest"
  by (simp_all add: set_heartbeat_timeout_def stream_def sock_ok_def flowing_def pending_def unread_def)

section \<open>The frames of the handshake\<close>

definition start_ok_frame :: "byte list \<Rightarrow> byte list \<Rightarrow> amqp_frame" where
  "start_ok_frame username password =
     Method_Frame 0 AMQP_CONNECTION_START_OK_METHOD
       (M_Connection (AMQP_Connection_Start_Ok [] (bytes_of ''PLAIN'') ([0] @ username @ [0] @ password)
          (bytes_of ''en_US'')))"

definition tune_ok_frame :: "int \<Rightarrow> int \<Rightarrow> int \<Rightarrow> amqp_frame" where
  "tune_ok_frame cm fm hb =
     Method_Frame 0 AMQP_CONNECTION_TUNE_OK_METHOD
       (M_Connection (AMQP_Connection_Tune_Ok (word_of_int cm) (word_of_int fm) (word_of_int hb)))"

definition open_frame :: "byte list \<Rightarrow> amqp_frame" where
  "open_frame vhost = Method_Frame 0 AMQP_CONNECTION_OPEN_METHOD (M_Connection (AMQP_Connection_Open vhost [] True))"

definition start_frame :: "table \<Rightarrow> byte list \<Rightarrow> byte list \<Rightarrow> amqp_frame" where
  "start_frame props mechanisms locs =
     Method_Frame 0 AMQP_CONNECTION_START_METHOD
       (M_Connection (AMQP_Connection_Start AMQP_PROTOCOL_VERSION_MAJOR AMQP_PROTOCOL_VERSION_MINOR props mechanisms locs))"

definition tune_frame :: "u16 \<Rightarrow> u32 \<Rightarrow> u16 \<Rightarrow> amqp_frame" where
  "tune_frame scm sfm shb = Method_Frame 0 AMQP_CONNECTION_TUNE_METHOD (M_Connection (AMQP_Connection_Tune scm sfm shb))"

definition open_ok_frame :: "byte list \<Rightarrow> amqp_frame" where
  "open_ok_frame hosts = Method_Frame 0 AMQP_CONNECTION_OPEN_OK_METHOD (M_Connection (AMQP_Connection_Open_Ok hosts))"

lemmas handshake_frames =
  start_ok_frame_def tune_ok_frame_def open_frame_def start_frame_def tune_frame_def open_ok_frame_def

lemma length_tune_ok [simp]: "length (wire_frame (tune_ok_frame cm fm hb)) = 20" "valid_frame (tune_ok_frame cm fm hb)"
  by (simp_all add: tune_ok_frame_def length_wire_frame wire_connection.simps)

section \<open>Steps\<close>

lemma wait_method_stream:
  assumes "stream c (Method_Frame ch i m # fs) rest" and "enough_memory mem" and "queued_frames c = []"
    and "i \<noteq> AMQP_BASIC_RETURN_METHOD"
  obtains c' where "amqp_simple_wait_method mem ch i c = Some (Inr (Some (i, m)), c')" and "stream c' fs rest"
    and "same_but_stream c c'" and "conn c' = conn c"
proof -
  from stream_next [OF assms(1,2)] obtain c' where c': "wait_frame_inner mem c = Some (Inr (Some (Method_Frame ch i m)), c')"
      "conn c' = call_back (Method_Frame ch i m) (conn c)" "stream c' fs rest" "same_but_stream c c'" by blast
  with assms(3) have "amqp_simple_wait_frame mem c = Some (Inr (Some (Method_Frame ch i m)), c')"
    by (simp add: amqp_simple_wait_frame_def)
  then have "amqp_simple_wait_method mem ch i c = Some (Inr (Some (i, m)), c')"
    by (simp add: amqp_simple_wait_method_def)
  with c' assms(4) show thesis by (intro that [of c']) simp_all
qed

lemma release_stream:
  "stream c fs rest \<Longrightarrow> queued_frames c = [] \<Longrightarrow> io_state amqp_release_buffers c = Some (Inr (), c)"
  by (simp add: io_state_def amqp_release_buffers_def stream_def idle_iff)

lemma maybe_release_stream:
  "stream c fs rest \<Longrightarrow> queued_frames c = [] \<Longrightarrow> io_state amqp_maybe_release_buffers c = Some (Inr (), c)"
  by (simp add: io_state_def amqp_maybe_release_buffers_def amqp_release_buffers_def stream_def idle_iff)

lemma header_stream:
  assumes "stream c fs rest" and "accepts c = []"
  shows "amqp_send_header c = (Inr 8, c\<lparr>outgoing := outgoing c @ header\<rparr>)"
    and "stream (c\<lparr>outgoing := outgoing c @ header\<rparr>) fs rest"
  using assms by (simp_all add: amqp_send_header_def amqp_ssl_write_def header_def)

text \<open>Tuning resizes both frame buffers.\<close>

lemma tune_stream:
  assumes "stream c [] (wire_frame f @ rest)" and "enough_memory mem" and "honest (outbound_buffer (conn c))"
    and "0 \<le> fm" and "fm < 2 ^ 31" and "nat fm + buf_len (sock_inbound_buffer c) < 2 ^ 31"
    and "valid_frame f" and "length (wire_frame f) \<le> nat fm"
  obtains st c' where "io_tune mem cm fm hb c = Some (Inr (), c')" and "c' = c\<lparr>conn := st\<rparr>"
    and "stream c' [f] rest" and "honest (outbound_buffer st)" and "buf_len (outbound_buffer st) = nat fm"
    and "frame_max st = fm" and "channel_max st = cm" and "heartbeat st = hb" and "destroyed st = destroyed (conn c)"
proof -
  from assms(1) have idle: "idle (conn c)" by (simp add: stream_def)
  have n: "fm mod 2 ^ 64 = fm" using assms(4,5) by simp
  let ?old = "buf_bytes (outbound_buffer (conn c))"
  let ?st = "(conn c)\<lparr>channel_max := cm, frame_max := fm, heartbeat := hb,
      inbound_buffer := (inbound_buffer (conn c))\<lparr>buf_len := nat fm\<rparr>,
      outbound_buffer := \<lparr>buf_len = nat fm,
        buf_bytes = take (nat fm) (?old @ drop (length ?old) (block_bytes mem (nat fm)))\<rparr>\<rparr>"
  have "amqp_tune_connection mem (conn c) cm fm hb = (?st, Inr ())"
    using idle assms(2) unfolding amqp_tune_connection_def n
    by (simp add: idle_iff enough_memory_def Let_def)
  then have "io_tune mem cm fm hb c = Some (Inr (), c\<lparr>conn := ?st\<rparr>)" by (simp add: io_tune_def)
  moreover have "stream (c\<lparr>conn := ?st\<rparr>) [f] rest"
    using assms(1,5-8) by (simp add: stream_def idle_iff)
  moreover have "honest (outbound_buffer ?st)" using assms(5) by (simp add: honest_def min_def)
  ultimately show thesis by (rule that [OF _ refl]) simp_all
qed

lemma login_tune_stream:
  assumes "stream c [tune_frame scm sfm shb] (wire_frame f @ rest)" and "enough_memory mem" and "queued_frames c = []"
    and "accepts c = []" and "honest (outbound_buffer (conn c))"
    and "negotiate scm sfm shb cm fm hb = (cm', fm', hb')"
    and "20 \<le> fm'" and "nat fm' + buf_len (sock_inbound_buffer c) < 2 ^ 31"
    and "valid_frame f" and "length (wire_frame f) \<le> nat fm'"
  obtains c' where "io_bind (amqp_simple_wait_method mem 0 AMQP_CONNECTION_TUNE_METHOD)
        (\<lambda>r. case r of None \<Rightarrow> io_ret False | Some (_, tune) \<Rightarrow> login_tune mem cm fm hb tune) c = Some (Inr True, c')"
    and "stream c' [f] rest" and "outgoing c' = outgoing c @ wire_frame (tune_ok_frame cm' fm' hb')"
    and "queued_frames c' = []" and "accepts c' = []" and "honest (outbound_buffer (conn c'))"
    and "buf_len (outbound_buffer (conn c')) = nat fm'"
    and "(channel_max (conn c'), frame_max (conn c'), heartbeat (conn c')) = (cm', fm', hb')"
proof -
  obtain c3 where 3: "amqp_simple_wait_method mem 0 AMQP_CONNECTION_TUNE_METHOD c =
        Some (Inr (Some (AMQP_CONNECTION_TUNE_METHOD, M_Connection (AMQP_Connection_Tune scm sfm shb))), c3)"
      "stream c3 [] (wire_frame f @ rest)" "same_but_stream c c3" "conn c3 = conn c"
    by (rule wait_method_stream [OF assms(1) [unfolded tune_frame_def] assms(2,3)])
       (simp_all add: AMQP_CONNECTION_TUNE_METHOD_def AMQP_BASIC_RETURN_METHOD_def)
  have fm: "0 \<le> fm'" "fm' < 2 ^ 31" using assms(7,8) by simp_all
  let ?d3 = "set_heartbeat_timeout hb' c3"
  have d3: "stream ?d3 [] (wire_frame f @ rest)" using 3(2) by simp
  obtain st c4 where 4: "io_tune mem cm' fm' hb' ?d3 = Some (Inr (), c4)" "c4 = ?d3\<lparr>conn := st\<rparr>"
      "stream c4 [f] rest" "honest (outbound_buffer st)" "buf_len (outbound_buffer st) = nat fm'"
      "frame_max st = fm'" "channel_max st = cm'" "heartbeat st = hb'" "destroyed st = destroyed (conn ?d3)"
    by (rule tune_stream [OF d3 assms(2) _ fm _ assms(9,10)])
       (use assms(5,8) 3(3,4) in \<open>simp_all add: same_but_stream_def\<close>)
  have q4: "queued_frames c4 = []" "accepts c4 = []" "outgoing c4 = outgoing c"
    using 3(3) 4(2) assms(3,4) by (simp_all add: same_but_stream_def)
  obtain c5 o5 where 5: "amqp_send_frame c4 (tune_ok_frame cm' fm' hb') = (Inr (), c5)"
      "stream c5 [f] rest" "outgoing c5 = outgoing c4 @ wire_frame (tune_ok_frame cm' fm' hb')"
      "queued_frames c5 = queued_frames c4" "accepts c5 = []" "conn c5 = (conn c4)\<lparr>outbound_buffer := o5\<rparr>"
      "honest o5" "buf_len o5 = buf_len (outbound_buffer (conn c4))"
    by (rule send_keeps_stream [OF length_tune_ok(2) _ _ _ 4(3)])
       (use assms(7) 4(2,4,5) q4 in simp_all)
  have "login_tune mem cm fm hb (M_Connection (AMQP_Connection_Tune scm sfm shb)) c3 = Some (Inr True, c5)"
    using 4(1) 5(1) release_stream [OF 5(2) 5(4) [unfolded q4(1)]] assms(6)
    by (simp add: login_tune_def io_of_def amqp_send_method_def tune_ok_frame_def)
  then show thesis using 3(1) 4(2,5-8) 5 q4 by (intro that [of c5]) simp_all
qed

lemma login_open_stream:
  assumes "stream c [open_ok_frame hosts] rest" and "enough_memory mem" and "queued_frames c = []"
    and "accepts c = []" and "honest (outbound_buffer (conn c))"
    and "valid_frame (open_frame vhost)" and "length (wire_frame (open_frame vhost)) \<le> buf_len (outbound_buffer (conn c))"
  obtains c' where "login_open mem vhost c = Some (Inr (AMQP_RESPONSE_NORMAL None), c')"
    and "outgoing c' = outgoing c @ wire_frame (open_frame vhost)" and "stream c' [] rest"
    and "channel_max (conn c') = channel_max (conn c)" and "frame_max (conn c') = frame_max (conn c)"
    and "heartbeat (conn c') = heartbeat (conn c)"
proof -
  have ans: "answers 0 [AMQP_CONNECTION_OPEN_OK_METHOD, 0] (open_ok_frame hosts)"
    by (simp add: open_ok_frame_def AMQP_CONNECTION_OPEN_OK_METHOD_def)
  obtain c6 o6 where 6: "amqp_send_frame c (open_frame vhost) = (Inr (), c6)"
      "stream c6 [open_ok_frame hosts] rest" "outgoing c6 = outgoing c @ wire_frame (open_frame vhost)"
      "queued_frames c6 = queued_frames c" "conn c6 = (conn c)\<lparr>outbound_buffer := o6\<rparr>"
    by (rule send_keeps_stream [OF assms(6,5,7,4,1)])
  have "stream c6 ([] @ [open_ok_frame hosts]) rest" using 6(2) by simp
  from rpc_wait_answered [OF assms(2) this _ ans] obtain c7 where
    7: "rpc_wait mem 0 [AMQP_CONNECTION_OPEN_OK_METHOD, 0] c6 =
        Some (Inr (reply_of [AMQP_CONNECTION_OPEN_OK_METHOD, 0] (open_ok_frame hosts)), c7)"
      "queued_frames c7 = queued_frames c6" "stream c7 [] rest" "outgoing c7 = outgoing c6" "conn c7 = conn c6"
    by (auto simp: open_ok_frame_def AMQP_CONNECTION_OPEN_OK_METHOD_def AMQP_BASIC_RETURN_METHOD_def)
  have "amqp_simple_rpc mem 0 AMQP_CONNECTION_OPEN_METHOD [AMQP_CONNECTION_OPEN_OK_METHOD, 0]
        (M_Connection (AMQP_Connection_Open vhost [] True)) c =
      Some (Inr (AMQP_RESPONSE_NORMAL (Some (AMQP_CONNECTION_OPEN_OK_METHOD,
        M_Connection (AMQP_Connection_Open_Ok hosts)))), c7)"
    using 6(1) 7(1) by (simp add: amqp_simple_rpc_def amqp_send_method_def open_frame_def open_ok_frame_def
        AMQP_CONNECTION_OPEN_OK_METHOD_def)
  moreover have "queued_frames c7 = []" using 7(2) 6(4) assms(3) by simp
  ultimately show thesis
    using maybe_release_stream [OF 7(3)] 6(3,5) 7(3-5) by (intro that [of c7]) (simp_all add: login_open_def)
qed

section \<open>Properties\<close>

text \<open>C30: A login succeeds against a broker that follows the protocol: when the frames that arrive are
  \<open>connection.start\<close> for version 8.0, \<open>connection.tune\<close> and \<open>connection.open-ok\<close>, \<open>amqp_login\<close> sends
  the protocol header, \<open>start-ok\<close>, \<open>tune-ok\<close> with the negotiated values and \<open>open\<close>, in this order,
  returns a normal reply, and the connection holds the negotiated values.\<close>

theorem login_succeeds:
  assumes "stream c [start_frame props mechanisms locs, tune_frame scm sfm shb] (wire_frame (open_ok_frame hosts) @ rest)"
    and "enough_memory mem" and "queued_frames c = []" and "accepts c = []" and "honest (outbound_buffer (conn c))"
    and "negotiate scm sfm shb cm fm hb = (cm', fm', hb')"
    and "20 \<le> fm'" and "nat fm' + buf_len (sock_inbound_buffer c) < 2 ^ 31"
    and "valid_frame (start_ok_frame username password)"
    and "length (wire_frame (start_ok_frame username password)) \<le> buf_len (outbound_buffer (conn c))"
    and "valid_frame (open_frame vhost)" and "length (wire_frame (open_frame vhost)) \<le> nat fm'"
    and "valid_frame (open_ok_frame hosts)" and "length (wire_frame (open_ok_frame hosts)) \<le> nat fm'"
  shows "\<exists>c'. amqp_login mem vhost cm fm hb AMQP_SASL_METHOD_PLAIN username password c =
      Some (Inr (AMQP_RESPONSE_NORMAL None), c') \<and>
    outgoing c' = outgoing c @ header @ wire_frame (start_ok_frame username password) @
      wire_frame (tune_ok_frame cm' fm' hb') @ wire_frame (open_frame vhost) \<and>
    (channel_max (conn c'), frame_max (conn c'), heartbeat (conn c')) = (cm', fm', hb') \<and>
    stream c' [] rest"
proof -
  let ?d = "set_heartbeat_timeout hb c"
  let ?c0 = "?d\<lparr>outgoing := outgoing ?d @ header\<rparr>"
  have "stream ?d [start_frame props mechanisms locs, tune_frame scm sfm shb] (wire_frame (open_ok_frame hosts) @ rest)"
    and "accepts ?d = []" using assms(1,4) by simp_all
  note h = header_stream [OF this]
  obtain c1 where 1: "amqp_simple_wait_method mem 0 AMQP_CONNECTION_START_METHOD ?c0 =
        Some (Inr (Some (AMQP_CONNECTION_START_METHOD, M_Connection (AMQP_Connection_Start
          AMQP_PROTOCOL_VERSION_MAJOR AMQP_PROTOCOL_VERSION_MINOR props mechanisms locs))), c1)"
      "stream c1 [tune_frame scm sfm shb] (wire_frame (open_ok_frame hosts) @ rest)" "same_but_stream ?c0 c1" "conn c1 = conn ?c0"
    by (rule wait_method_stream [OF h(2) [unfolded start_frame_def] assms(2)])
       (use assms(3) in \<open>simp_all add: AMQP_CONNECTION_START_METHOD_def AMQP_BASIC_RETURN_METHOD_def\<close>)
  obtain c2 o2 where 2: "amqp_send_frame c1 (start_ok_frame username password) = (Inr (), c2)"
      "stream c2 [tune_frame scm sfm shb] (wire_frame (open_ok_frame hosts) @ rest)"
      "outgoing c2 = outgoing c1 @ wire_frame (start_ok_frame username password)"
      "queued_frames c2 = queued_frames c1" "accepts c2 = []" "conn c2 = (conn c1)\<lparr>outbound_buffer := o2\<rparr>"
      "honest o2" "buf_len o2 = buf_len (outbound_buffer (conn c1))"
      "buf_len (sock_inbound_buffer c2) = buf_len (sock_inbound_buffer c1)"
    by (rule send_keeps_stream [OF assms(9) _ _ _ 1(2)])
       (use assms(4,5,10) 1(3,4) in \<open>simp_all add: same_but_stream_def\<close>)
  have q2: "queued_frames c2 = []" "outgoing c2 = outgoing c @ header @ wire_frame (start_ok_frame username password)"
    using 1(3) 2(3,4) assms(3) by (simp_all add: same_but_stream_def)
  obtain c5 where 5: "io_bind (amqp_simple_wait_method mem 0 AMQP_CONNECTION_TUNE_METHOD)
        (\<lambda>r. case r of None \<Rightarrow> io_ret False | Some (_, tune) \<Rightarrow> login_tune mem cm fm hb tune) c2 = Some (Inr True, c5)"
      "stream c5 [open_ok_frame hosts] rest" "outgoing c5 = outgoing c2 @ wire_frame (tune_ok_frame cm' fm' hb')"
      "queued_frames c5 = []" "accepts c5 = []" "honest (outbound_buffer (conn c5))"
      "buf_len (outbound_buffer (conn c5)) = nat fm'"
      "(channel_max (conn c5), frame_max (conn c5), heartbeat (conn c5)) = (cm', fm', hb')"
    by (rule login_tune_stream [OF 2(2) assms(2) q2(1) 2(5) _ assms(6,7) _ assms(13,14)])
       (use assms(8) 1(3) 2(6,7,9) in \<open>simp_all add: same_but_stream_def\<close>)
  have inner: "amqp_login_inner mem cm fm hb AMQP_SASL_METHOD_PLAIN username password c = Some (Inr True, c5)"
    using h(1) 1(1) 2(1) release_stream [OF 2(2) q2(1)] 5(1) assms(2)
    by (simp add: amqp_login_inner_def io_of_def amqp_send_method_def sasl_response_def sasl_method_name_def
        enough_memory_def start_ok_frame_def)
  obtain c7 where "login_open mem vhost c5 = Some (Inr (AMQP_RESPONSE_NORMAL None), c7)"
      "outgoing c7 = outgoing c5 @ wire_frame (open_frame vhost)" "stream c7 [] rest"
      "channel_max (conn c7) = channel_max (conn c5)" "frame_max (conn c7) = frame_max (conn c5)"
      "heartbeat (conn c7) = heartbeat (conn c5)"
    by (rule login_open_stream [OF 5(2) assms(2) 5(4-6) assms(11)]) (use assms(12) 5(7) in simp_all)
  with inner 5(3,8) q2(2) show ?thesis by (simp add: amqp_login_def)
qed

section \<open>A concrete login\<close>

lemma demo_handshake [simp]:
  "valid_frame (start_frame [] [80] [101])" "length (wire_frame (start_frame [] [80] [101])) \<le> 64"
  "wire_frame (start_frame [] [80] [101]) \<noteq> []"
  "valid_frame (tune_frame 10 64 0)" "length (wire_frame (tune_frame 10 64 0)) \<le> 64"
  "valid_frame (open_ok_frame [])" "length (wire_frame (open_ok_frame [])) \<le> 64"
  "valid_frame (open_frame [47])" "length (wire_frame (open_frame [47])) \<le> 64"
  "valid_frame (start_ok_frame [103] [103])" "length (wire_frame (start_ok_frame [103] [103])) \<le> 64"
  by (simp_all add: handshake_frames bytes_of_def length_wire_frame wire_connection.simps
      AMQP_CONNECTION_OPEN_OK_METHOD_def wire_table_def wire_32_def wire_8_def wire_bits_def wire_shortstr_def
      wire_longstr_def shortstr_def longstr_def)

lemma login_succeeds_witness:
  "\<exists>c'. amqp_login demo_memory [47] 0 131072 0 AMQP_SASL_METHOD_PLAIN [103] [103]
      (demo_receiving [wire_frame (start_frame [] [80] [101]) @ wire_frame (tune_frame 10 64 0) @
         wire_frame (open_ok_frame [])]) =
    Some (Inr (AMQP_RESPONSE_NORMAL None), c') \<and>
    (channel_max (conn c'), frame_max (conn c'), heartbeat (conn c')) = (10, 64, 0)"
proof -
  let ?c = "demo_receiving [wire_frame (start_frame [] [80] [101]) @ wire_frame (tune_frame 10 64 0) @
      wire_frame (open_ok_frame [])]"
  have "stream ?c [start_frame [] [80] [101], tune_frame 10 64 0] (wire_frame (open_ok_frame []) @ [])"
    by (intro demo_stream) simp_all
  moreover have "negotiate 10 64 0 0 131072 0 = (10, 64, 0)" by (simp add: negotiate_def)
  ultimately show ?thesis
    using login_succeeds [of ?c "[]" "[80]" "[101]" 10 64 0 "[]" "[]" demo_memory 0 131072 0 10 64 0 "[103]" "[103]" "[47]"]
    by auto
qed

end
