(* ===== verification/Open_Socket.thy ===== *)
theory Open_Socket
  imports Connection
begin

unbundle bit_operations_syntax

text \<open>
  Making a connection, \<open>src/src/librabbitmq/amqp_socket.c\<close>: \<open>amqp_open_socket\<close>, which tries the
  addresses of a host one after the other without blocking, and the TLS handshake.  What the kernel and
  OpenSSL answer is a parameter; the calls that are made are recorded.
\<close>

section \<open>Opening a socket\<close>

definition O_NONBLOCK :: int where "O_NONBLOCK = 2048"
definition EINPROGRESS_no :: int where "EINPROGRESS_no = 115"
definition ETIMEDOUT_no :: int where "ETIMEDOUT_no = 110"
definition ENOENT_no :: int where "ENOENT_no = 2"

datatype sock_option = Keepalive | No_Delay | Receive_Timeout "int \<times> int" | Send_Timeout "int \<times> int"

datatype sys_call =
    Sys_Getaddrinfo "byte list" int
  | Sys_Freeaddrinfo
  | Sys_Socket "int option"
  | Sys_Getfl int
  | Sys_Setfl int int
  | Sys_Connect int
  | Sys_Poll int int
  | Sys_Getsockopt int
  | Sys_Setsockopt int sock_option
  | Sys_Close int

text \<open>
  An address of the host, and what the calls on it answer: an \<open>errno\<close> where they fail, \<open>None\<close> where a
  call just succeeds.  \<open>so_error\<close> is \<open>None\<close> when \<open>getsockopt\<close> itself fails.
\<close>

record candidate =
  socket_r :: "int + int"
  getfl_r :: "int + int"
  setfl_r :: "int option"
  connect_r :: "int option"
  poll_r :: int
  so_error_r :: "int option"
  getfl_again :: "int + int"
  setfl_again :: "int option"

text \<open>\<open>fcntl\<close> twice: to get the flags and to set them; the result is the \<open>errno\<close> of a failure.\<close>

definition change_flags ::
  "int \<Rightarrow> int + int \<Rightarrow> int option \<Rightarrow> (int \<Rightarrow> int) \<Rightarrow> int option \<times> sys_call list" where
  "change_flags fd getfl setfl f =
     (case getfl of
        Inl e \<Rightarrow> (Some e, [Sys_Getfl fd])
      | Inr flags \<Rightarrow> (setfl, [Sys_Getfl fd, Sys_Setfl fd (f flags)]))"

text \<open>The time to wait in milliseconds, \<open>- 1\<close> without a timeout.\<close>

definition poll_timeout :: "(int \<times> int) option \<Rightarrow> int" where
  "poll_timeout timeout =
     (case timeout of
        None \<Rightarrow> - 1
      | Some (tv_sec, tv_usec) \<Rightarrow> sint (word_of_int (tv_sec * 1000 + tv_usec div 1000) :: 32 word))"

text \<open>\<open>connect\<close>, and the wait for its result; the result is \<open>None\<close> for \<open>goto good\<close>.\<close>

definition await_connect :: "(int \<times> int) option \<Rightarrow> candidate \<Rightarrow> int \<Rightarrow> int option \<times> sys_call list" where
  "await_connect timeout ai fd =
     (case connect_r ai of
        None \<Rightarrow> (None, [Sys_Connect fd])
      | Some e \<Rightarrow>
          if e \<noteq> EINPROGRESS_no then (Some (- e), [Sys_Connect fd])
          else
            let calls = [Sys_Connect fd, Sys_Poll fd (poll_timeout timeout)]
            in if poll_r ai = 1
               then (case so_error_r ai of
                       None \<Rightarrow> None
                     | Some aerrno \<Rightarrow> if aerrno = 0 then None else Some (- aerrno),
                     calls @ [Sys_Getsockopt fd])
               else (Some (- ETIMEDOUT_no), calls))"

text \<open>One round of the loop: a \<open>result\<close>, or a socket that is connected.\<close>

definition try_address :: "(int \<times> int) option \<Rightarrow> candidate \<Rightarrow> (int + int) \<times> sys_call list" where
  "try_address timeout ai =
     (case socket_r ai of
        Inl e \<Rightarrow> (Inl (- e), [Sys_Socket None])
      | Inr fd \<Rightarrow>
          (case change_flags fd (getfl_r ai) (setfl_r ai) (\<lambda>flags. flags OR O_NONBLOCK) of
             (Some e, calls) \<Rightarrow> (Inl (- e), Sys_Socket (Some fd) # calls @ [Sys_Close fd])
           | (None, calls) \<Rightarrow>
               (case await_connect timeout ai fd of
                  (Some result, calls') \<Rightarrow> (Inl result, Sys_Socket (Some fd) # calls @ calls' @ [Sys_Close fd])
                | (None, calls') \<Rightarrow> (Inr fd, Sys_Socket (Some fd) # calls @ calls'))))"

text \<open>The label \<open>good\<close>.\<close>

definition settle :: "(int \<times> int) option \<Rightarrow> candidate \<Rightarrow> int \<Rightarrow> int \<times> sys_call list" where
  "settle timeout ai fd =
     (case change_flags fd (getfl_again ai) (setfl_again ai) (\<lambda>flags. flags AND NOT O_NONBLOCK) of
        (Some e, calls) \<Rightarrow>
          (- e, [Sys_Freeaddrinfo, Sys_Setsockopt fd Keepalive, Sys_Setsockopt fd No_Delay] @ calls @ [Sys_Close fd])
      | (None, calls) \<Rightarrow>
          (fd, [Sys_Freeaddrinfo, Sys_Setsockopt fd Keepalive, Sys_Setsockopt fd No_Delay] @ calls @
            (case timeout of
               None \<Rightarrow> []
             | Some tv \<Rightarrow> [Sys_Setsockopt fd (Receive_Timeout tv), Sys_Setsockopt fd (Send_Timeout tv)])))"

fun try_addresses :: "(int \<times> int) option \<Rightarrow> candidate list \<Rightarrow> int \<Rightarrow> int \<times> sys_call list" where
  "try_addresses timeout [] result = (result, [Sys_Freeaddrinfo])"
| "try_addresses timeout (ai # ais) result =
     (case try_address timeout ai of
        (Inl result', calls) \<Rightarrow> apsnd ((@) calls) (try_addresses timeout ais result')
      | (Inr fd, calls) \<Rightarrow> apsnd ((@) calls) (settle timeout ai fd))"

definition amqp_open_socket ::
  "(byte list \<Rightarrow> int \<Rightarrow> candidate list option) \<Rightarrow> byte list \<Rightarrow> int \<Rightarrow> (int \<times> int) option \<Rightarrow> int \<times> sys_call list" where
  "amqp_open_socket getaddrinfo hostname portnumber timeout =
     apsnd ((#) (Sys_Getaddrinfo hostname portnumber))
       (case getaddrinfo hostname portnumber of
          None \<Rightarrow> (- ENOENT_no, [])
        | Some res \<Rightarrow> try_addresses timeout res 0)"

section \<open>The sockets that are open\<close>

fun after_call :: "int set \<Rightarrow> sys_call \<Rightarrow> int set" where
  "after_call fds (Sys_Socket (Some fd)) = insert fd fds"
| "after_call fds (Sys_Close fd) = fds - {fd}"
| "after_call fds _ = fds"

definition open_fds :: "sys_call list \<Rightarrow> int set" where
  "open_fds calls = foldl after_call {} calls"

definition is_call_on :: "int set \<Rightarrow> sys_call \<Rightarrow> bool" where
  "is_call_on fds call =
     (case call of
        Sys_Getfl fd \<Rightarrow> fd \<in> fds | Sys_Setfl fd _ \<Rightarrow> fd \<in> fds | Sys_Connect fd \<Rightarrow> fd \<in> fds
      | Sys_Poll fd _ \<Rightarrow> fd \<in> fds | Sys_Getsockopt fd \<Rightarrow> fd \<in> fds | Sys_Setsockopt fd _ \<Rightarrow> fd \<in> fds
      | Sys_Close fd \<Rightarrow> fd \<in> fds | _ \<Rightarrow> True)"

text \<open>What an address answers is what the kernel answers: descriptors are not negative, errors are positive.\<close>

definition kernel_like :: "candidate \<Rightarrow> bool" where
  "kernel_like ai \<longleftrightarrow>
     (case socket_r ai of Inl e \<Rightarrow> 0 < e | Inr fd \<Rightarrow> 0 \<le> fd) \<and>
     (case getfl_r ai of Inl e \<Rightarrow> 0 < e | Inr _ \<Rightarrow> True) \<and>
     (case setfl_r ai of Some e \<Rightarrow> 0 < e | None \<Rightarrow> True) \<and>
     (case connect_r ai of Some e \<Rightarrow> 0 < e | None \<Rightarrow> True) \<and>
     (case so_error_r ai of Some e \<Rightarrow> 0 \<le> e | None \<Rightarrow> True) \<and>
     (case getfl_again ai of Inl e \<Rightarrow> 0 < e | Inr _ \<Rightarrow> True) \<and>
     (case setfl_again ai of Some e \<Rightarrow> 0 < e | None \<Rightarrow> True)"

lemma foldl_quiet:
  "(\<And>x. x \<in> set calls \<Longrightarrow> after_call S x = S) \<Longrightarrow> foldl after_call S calls = S"
  by (induction calls) auto

lemma change_flags_fds [simp]: "foldl after_call S (snd (change_flags fd getfl setfl f)) = S"
  by (auto simp: change_flags_def split: sum.splits)

lemma await_connect_fds [simp]: "foldl after_call S (snd (await_connect timeout ai fd)) = S"
  by (auto simp: await_connect_def Let_def split: option.splits)

lemma try_address_fds:
  assumes "try_address timeout ai = (r, calls)" and "S = {}"
  shows "foldl after_call S calls = (case r of Inl _ \<Rightarrow> {} | Inr fd \<Rightarrow> {fd})"
proof (cases "socket_r ai")
  case (Inr fd)
  obtain e cs where c: "change_flags fd (getfl_r ai) (setfl_r ai) (\<lambda>flags. flags OR O_NONBLOCK) = (e, cs)" by fastforce
  obtain a as where w: "await_connect timeout ai fd = (a, as)" by fastforce
  have "foldl after_call T cs = T" "foldl after_call T as = T" for T
    using change_flags_fds [of T fd "getfl_r ai" "setfl_r ai" "\<lambda>flags. flags OR O_NONBLOCK"]
      await_connect_fds [of T timeout ai fd] c w by simp_all
  with assms Inr c w show ?thesis by (auto simp: try_address_def split: option.splits sum.splits)
qed (use assms in \<open>auto simp: try_address_def\<close>)

lemma settle_fds:
  assumes "settle timeout ai fd = (r, calls)"
  shows "foldl after_call {fd} calls = (if setfl_again ai = None \<and> \<not> isl (getfl_again ai) then {fd} else {})"
  using assms by (auto simp: settle_def change_flags_def split: sum.splits option.splits)

lemma settle_result:
  "kernel_like ai \<Longrightarrow> settle timeout ai fd = (r, calls) \<Longrightarrow>
     if setfl_again ai = None \<and> \<not> isl (getfl_again ai) then r = fd else r < 0"
  by (auto simp: settle_def change_flags_def kernel_like_def split: sum.splits option.splits)

lemma try_address_result:
  "kernel_like ai \<Longrightarrow> try_address timeout ai = (Inl result, calls) \<Longrightarrow> result < 0"
  "kernel_like ai \<Longrightarrow> try_address timeout ai = (Inr fd, calls) \<Longrightarrow> 0 \<le> fd \<and> socket_r ai = Inr fd"
  by (auto simp: try_address_def change_flags_def await_connect_def kernel_like_def Let_def ETIMEDOUT_no_def
      split: sum.splits option.splits if_splits)

lemma try_addresses_fds:
  assumes "list_all kernel_like ais" and "result < 0 \<or> ais \<noteq> []" and "try_addresses timeout ais result = (r, calls)"
  shows "foldl after_call {} calls = (if r < 0 then {} else {r}) \<and> count_list calls Sys_Freeaddrinfo = 1"
  using assms
proof (induction ais arbitrary: result r calls)
  case (Cons ai ais)
  obtain t cs where t: "try_address timeout ai = (t, cs)" by fastforce
  have none: "count_list cs Sys_Freeaddrinfo = 0"
    using t by (auto simp: try_address_def change_flags_def await_connect_def Let_def
        split: sum.splits option.splits if_splits)
  have k: "kernel_like ai" using Cons.prems(1) by simp
  show ?case
  proof (cases t)
    case (Inl result')
    obtain calls' where c: "try_addresses timeout ais result' = (r, calls')" "calls = cs @ calls'"
      using Cons.prems(3) t Inl by (cases "try_addresses timeout ais result'") auto
    have "result' < 0" using try_address_result(1) k t Inl by simp
    with Cons.IH [OF _ _ c(1)] Cons.prems(1) try_address_fds [OF t refl] c(2) Inl none show ?thesis by auto
  next
    case (Inr fd)
    obtain calls' where c: "settle timeout ai fd = (r, calls')" "calls = cs @ calls'"
      using Cons.prems(3) t Inr by (cases "settle timeout ai fd") auto
    have one: "count_list calls' Sys_Freeaddrinfo = 1"
      using c(1) by (auto simp: settle_def change_flags_def split: sum.splits option.splits)
    have fd: "0 \<le> fd" using try_address_result(2) k t Inr by simp
    have "foldl after_call {} cs = {fd}" using try_address_fds [OF t refl] Inr by simp
    with settle_fds [OF c(1)] settle_result [OF k c(1)] c(2) none one fd show ?thesis by (auto split: if_splits)
  qed
qed simp

section \<open>The address that is taken\<close>

definition reachable :: "candidate \<Rightarrow> bool" where
  "reachable ai \<longleftrightarrow>
     \<not> isl (socket_r ai) \<and> \<not> isl (getfl_r ai) \<and> setfl_r ai = None \<and>
     (connect_r ai = None \<or>
      connect_r ai = Some EINPROGRESS_no \<and> poll_r ai = 1 \<and> (so_error_r ai = None \<or> so_error_r ai = Some 0))"

definition settles :: "candidate \<Rightarrow> bool" where
  "settles ai \<longleftrightarrow> \<not> isl (getfl_again ai) \<and> setfl_again ai = None"

lemma try_address_reachable:
  "reachable ai \<Longrightarrow> fst (try_address timeout ai) = Inr (projr (socket_r ai))"
  "\<not> reachable ai \<Longrightarrow> isl (fst (try_address timeout ai))"
  by (auto simp: reachable_def try_address_def change_flags_def await_connect_def Let_def EINPROGRESS_no_def
      split: sum.splits option.splits if_splits)

lemma try_addresses_first:
  assumes "list_all kernel_like ais" and "result < 0 \<or> ais \<noteq> []"
  shows "case find reachable ais of
      Some ai \<Rightarrow> if settles ai then fst (try_addresses timeout ais result) = projr (socket_r ai)
                 else fst (try_addresses timeout ais result) < 0
    | None \<Rightarrow> fst (try_addresses timeout ais result) < 0"
  using assms
proof (induction ais arbitrary: result)
  case (Cons ai ais)
  obtain t cs where t: "try_address timeout ai = (t, cs)" by fastforce
  have k: "kernel_like ai" using Cons.prems(1) by simp
  show ?case
  proof (cases "reachable ai")
    case True
    then have "t = Inr (projr (socket_r ai))" using try_address_reachable(1) [of ai timeout] t by simp
    moreover obtain r c where "settle timeout ai (projr (socket_r ai)) = (r, c)" by fastforce
    ultimately show ?thesis
      using True t settle_result [OF k, of timeout "projr (socket_r ai)" r c] by (auto simp: settles_def split: if_splits)
  next
    case False
    then obtain e where e: "t = Inl e" using try_address_reachable(2) [of ai timeout] t by (cases t) auto
    have "e < 0" using try_address_result(1) k t e by simp
    moreover have "fst (try_addresses timeout (ai # ais) result) = fst (try_addresses timeout ais e)"
      using t e by simp
    ultimately show ?thesis using Cons.IH [of e] Cons.prems(1) False by (simp split: option.splits)
  qed
qed simp

section \<open>TLS\<close>

text \<open>
  What OpenSSL answers is a parameter: whether a call reports success, which may depend on the calls
  before it.  The calls are recorded, the settings that the code does not look at as well.
\<close>

datatype ssl_call =
    SSL_CTX_new
  | SSL_CTX_set_min_proto_version_TLS1_2
  | SSL_CTX_set_verify bool
  | SSL_CTX_load_verify_locations "byte list"
  | SSL_CTX_set_default_verify_paths
  | SSL_CTX_use_certificate_file "byte list"
  | SSL_CTX_use_PrivateKey_file "byte list"
  | SSL_CTX_check_private_key
  | SSL_CTX_free
  | SSL_new
  | SSL_free
  | SSL_set_fd int
  | SSL_set_tlsext_host_name "byte list"
  | SSL_set_hostflags_NO_PARTIAL_WILDCARDS
  | SSL_set1_host "byte list"
  | SSL_connect
  | SSL_shutdown

type_synonym openssl = "ssl_call list \<Rightarrow> ssl_call \<Rightarrow> bool"

text \<open>Calls in a row; the first that fails, where the code looks at it, ends the row.\<close>

fun ssl_calls :: "openssl \<Rightarrow> (bool \<times> ssl_call) list \<Rightarrow> ssl_call list \<Rightarrow> bool \<times> ssl_call list" where
  "ssl_calls lib [] made = (True, made)"
| "ssl_calls lib ((checked, call) # calls) made =
     (if checked \<and> \<not> lib made call then (False, made @ [call])
      else ssl_calls lib calls (made @ [call]))"

definition ctx_calls :: "bool \<Rightarrow> byte list option \<Rightarrow> byte list option \<Rightarrow> byte list option \<Rightarrow> (bool \<times> ssl_call) list" where
  "ctx_calls verify_peer cacert client_cert client_key =
     (False, SSL_CTX_set_min_proto_version_TLS1_2) #
     (if verify_peer
      then (False, SSL_CTX_set_verify True) #
        (case cacert of
           Some path \<Rightarrow> [(True, SSL_CTX_load_verify_locations path)]
         | None \<Rightarrow> [(False, SSL_CTX_set_default_verify_paths)])
      else [(False, SSL_CTX_set_verify False)]) @
     (case (client_cert, client_key) of
        (Some cert, Some key) \<Rightarrow>
          [(True, SSL_CTX_use_certificate_file cert), (True, SSL_CTX_use_PrivateKey_file key),
           (True, SSL_CTX_check_private_key)]
      | _ \<Rightarrow> [])"

definition session_calls :: "int \<Rightarrow> byte list \<Rightarrow> bool \<Rightarrow> (bool \<times> ssl_call) list" where
  "session_calls fd hostname verify_peer =
     [(False, SSL_set_fd fd), (False, SSL_set_tlsext_host_name hostname)] @
     (if verify_peer
      then [(False, SSL_set_hostflags_NO_PARTIAL_WILDCARDS), (True, SSL_set1_host hostname)]
      else []) @
     [(True, SSL_connect)]"

text \<open>\<open>False\<close> is the result \<open>-1\<close>, \<open>True\<close> is 0.\<close>

definition amqp_ssl_handshake ::
  "openssl \<Rightarrow> client \<Rightarrow> byte list \<Rightarrow> bool \<Rightarrow> byte list option \<Rightarrow> byte list option \<Rightarrow> byte list option \<Rightarrow>
   (bool \<times> ssl_call list) \<times> client" where
  "amqp_ssl_handshake lib state hostname verify_peer cacert client_cert client_key =
     (if \<not> lib [] SSL_CTX_new then ((False, [SSL_CTX_new]), state)
      else
        case ssl_calls lib (ctx_calls verify_peer cacert client_cert client_key) [SSL_CTX_new] of
          (False, made) \<Rightarrow> ((False, made @ [SSL_CTX_free]), state)
        | (True, made) \<Rightarrow>
            if \<not> lib made SSL_new then ((False, made @ [SSL_new, SSL_CTX_free]), state)
            else
              case ssl_calls lib (session_calls (sockfd state) hostname verify_peer) (made @ [SSL_new, SSL_CTX_free]) of
                (False, made') \<Rightarrow> ((False, made' @ [SSL_free]), state)
              | (True, made') \<Rightarrow> ((True, made'), state\<lparr>ssl := True\<rparr>))"

definition amqp_ssl_shutdown :: "client option \<Rightarrow> ssl_call list" where
  "amqp_ssl_shutdown state =
     (case state of None \<Rightarrow> [] | Some c \<Rightarrow> if ssl c then [SSL_shutdown] else [])"

text \<open>A row of calls adds a prefix of it, all of it when it succeeds.\<close>

lemma ssl_calls_made:
  "ssl_calls lib calls made = (ok, made') \<Longrightarrow>
     \<exists>k. made' = made @ map snd (take k calls) \<and> (ok \<longrightarrow> k = length calls)"
proof (induction calls arbitrary: made)
  case (Cons p calls)
  obtain checked call where p: "p = (checked, call)" by fastforce
  show ?case
  proof (cases "checked \<and> \<not> lib made call")
    case True
    with Cons.prems p show ?thesis by (intro exI [of _ 1]) auto
  next
    case False
    with Cons.prems p have "ssl_calls lib calls (made @ [call]) = (ok, made')" by auto
    from Cons.IH [OF this] obtain k where "made' = made @ [call] @ map snd (take k calls)" "ok \<longrightarrow> k = length calls" by auto
    with p show ?thesis by (intro exI [of _ "Suc k"]) auto
  qed
qed simp

text \<open>How many objects are there after a row of calls: made successfully, and not freed.\<close>

fun live :: "openssl \<Rightarrow> ssl_call \<Rightarrow> ssl_call \<Rightarrow> ssl_call list \<Rightarrow> ssl_call list \<Rightarrow> int" where
  "live lib new_call free_call before [] = 0"
| "live lib new_call free_call before (x # xs) =
     (if x = new_call \<and> lib before new_call then 1 else 0) - (if x = free_call then 1 else 0) +
     live lib new_call free_call (before @ [x]) xs"

lemma live_append:
  "live lib n f before (xs @ ys) = live lib n f before xs + live lib n f (before @ xs) ys"
  by (induction xs arbitrary: before) simp_all

lemma live_quiet: "n \<notin> set xs \<Longrightarrow> f \<notin> set xs \<Longrightarrow> live lib n f before xs = 0"
  by (induction xs arbitrary: before) auto

lemma ctx_calls_set:
  "set (map snd (ctx_calls verify_peer cacert client_cert client_key)) \<inter>
     {SSL_CTX_new, SSL_CTX_free, SSL_new, SSL_free} = {}"
  by (auto simp: ctx_calls_def split: option.splits if_splits)

lemma ctx_calls_made:
  "SSL_CTX_set_min_proto_version_TLS1_2 \<in> snd ` set (ctx_calls verify_peer cacert cert key)"
  "SSL_CTX_set_verify b \<in> snd ` set (ctx_calls verify_peer cacert cert key) \<longleftrightarrow> b = verify_peer"
  "SSL_set1_host h \<notin> snd ` set (ctx_calls verify_peer cacert cert key)"
  "verify_peer \<Longrightarrow> (case cacert of
       Some path \<Rightarrow> SSL_CTX_load_verify_locations path | None \<Rightarrow> SSL_CTX_set_default_verify_paths)
     \<in> snd ` set (ctx_calls verify_peer cacert cert key)"
  by (cases verify_peer; cases cacert; cases cert; cases key; simp add: ctx_calls_def)+

lemma session_calls_set:
  "set (map snd (session_calls fd hostname verify_peer)) \<inter> {SSL_CTX_new, SSL_CTX_free, SSL_new, SSL_free} = {}"
  by (auto simp: session_calls_def)

lemma live_take:
  assumes "set (map snd calls) \<inter> {SSL_CTX_new, SSL_CTX_free, SSL_new, SSL_free} = {}"
  shows "live lib SSL_CTX_new SSL_CTX_free before (map snd (take k calls)) = 0"
    "live lib SSL_new SSL_free before (map snd (take k calls)) = 0"
  using assms by (intro live_quiet; auto dest: in_set_takeD)+

lemma live_row:
  assumes "set (map snd calls) \<inter> {SSL_CTX_new, SSL_CTX_free, SSL_new, SSL_free} = {}"
  shows "live lib SSL_CTX_new SSL_CTX_free before (map snd calls) = 0"
    "live lib SSL_new SSL_free before (map snd calls) = 0"
  using live_take [OF assms, of _ _ "length calls"] by simp_all

lemmas live_rows [simp] =
  live_take [OF ctx_calls_set] live_take [OF session_calls_set]
  live_row [OF ctx_calls_set] live_row [OF session_calls_set]

text \<open>The ways through the handshake, by the rows that were made.\<close>

lemma handshake_cases:
  assumes "amqp_ssl_handshake lib c hostname verify_peer cacert cert key = ((ok, made), c')"
  obtains (no_ctx) "\<not> lib [] SSL_CTX_new" and "made = [SSL_CTX_new]" and "\<not> ok" and "c' = c"
  | (ctx) k where "lib [] SSL_CTX_new" and "\<not> ok" and "c' = c"
      and "made = SSL_CTX_new # map snd (take k (ctx_calls verify_peer cacert cert key)) @ [SSL_CTX_free]"
  | (no_session) m where "lib [] SSL_CTX_new" and "\<not> ok" and "c' = c"
      and "m = SSL_CTX_new # map snd (ctx_calls verify_peer cacert cert key)"
      and "\<not> lib m SSL_new" and "made = m @ [SSL_new, SSL_CTX_free]"
  | (failed) m k where "lib [] SSL_CTX_new" and "\<not> ok" and "c' = c"
      and "m = SSL_CTX_new # map snd (ctx_calls verify_peer cacert cert key)" and "lib m SSL_new"
      and "made = m @ [SSL_new, SSL_CTX_free] @ map snd (take k (session_calls (sockfd c) hostname verify_peer)) @ [SSL_free]"
  | (connected) m where "lib [] SSL_CTX_new" and "ok" and "c' = c\<lparr>ssl := True\<rparr>"
      and "m = SSL_CTX_new # map snd (ctx_calls verify_peer cacert cert key)" and "lib m SSL_new"
      and "made = m @ [SSL_new, SSL_CTX_free] @ map snd (session_calls (sockfd c) hostname verify_peer)"
proof (cases "lib [] SSL_CTX_new")
  case False
  with assms show thesis by (intro no_ctx) (auto simp: amqp_ssl_handshake_def)
next
  case new: True
  obtain ok1 m where 1: "ssl_calls lib (ctx_calls verify_peer cacert cert key) [SSL_CTX_new] = (ok1, m)" by fastforce
  from ssl_calls_made [OF 1] obtain k where k: "m = SSL_CTX_new # map snd (take k (ctx_calls verify_peer cacert cert key))"
      "ok1 \<longrightarrow> k = length (ctx_calls verify_peer cacert cert key)" by auto
  show thesis
  proof (cases ok1)
    case False
    with assms new 1 k show thesis by (intro ctx) (auto simp: amqp_ssl_handshake_def)
  next
    case ok1: True
    then have m: "m = SSL_CTX_new # map snd (ctx_calls verify_peer cacert cert key)" using k by simp
    show thesis
    proof (cases "lib m SSL_new")
      case False
      with assms new 1 ok1 m show thesis by (intro no_session) (auto simp: amqp_ssl_handshake_def)
    next
      case snew: True
      obtain ok2 m2 where 2: "ssl_calls lib (session_calls (sockfd c) hostname verify_peer) (m @ [SSL_new, SSL_CTX_free]) = (ok2, m2)"
        by fastforce
      from ssl_calls_made [OF 2] obtain l where
        l: "m2 = m @ [SSL_new, SSL_CTX_free] @ map snd (take l (session_calls (sockfd c) hostname verify_peer))"
          "ok2 \<longrightarrow> l = length (session_calls (sockfd c) hostname verify_peer)" by auto
      show thesis
      proof (cases ok2)
        case False
        with assms new 1 ok1 m snew 2 l show thesis by (intro failed) (auto simp: amqp_ssl_handshake_def)
      next
        case True
        with assms new 1 ok1 m snew 2 l show thesis by (intro connected) (auto simp: amqp_ssl_handshake_def)
      qed
    qed
  qed
qed

text \<open>A call that was made and reported success, given the calls before it.\<close>

definition succeeded :: "openssl \<Rightarrow> ssl_call list \<Rightarrow> ssl_call \<Rightarrow> bool" where
  "succeeded lib made call \<longleftrightarrow> (\<exists>before after. made = before @ call # after \<and> lib before call)"

lemma succeeded_append: "succeeded lib made call \<Longrightarrow> succeeded lib (made @ rest) call"
  unfolding succeeded_def by (metis append.assoc append_Cons)

lemma succeeded_last:
  "succeeded lib (made @ [last_call]) call \<Longrightarrow>
     if call = last_call \<and> call \<notin> set made then lib made call
     else call \<noteq> last_call \<longrightarrow> succeeded lib made call"
proof -
  assume "succeeded lib (made @ [last_call]) call"
  then obtain before after where eq: "made @ [last_call] = before @ call # after" and ok: "lib before call"
    by (auto simp: succeeded_def)
  then show ?thesis
    by (cases after rule: rev_cases) (auto simp: succeeded_def)
qed

lemma ssl_calls_extend: "ssl_calls lib calls made = (ok, made') \<Longrightarrow> \<exists>rest. made' = made @ rest"
  by (drule ssl_calls_made) auto

lemma ssl_calls_checked:
  "ssl_calls lib calls made = (True, made') \<Longrightarrow> (True, call) \<in> set calls \<Longrightarrow> succeeded lib made' call"
proof (induction calls arbitrary: made)
  case (Cons p calls)
  obtain checked x where p: "p = (checked, x)" by fastforce
  with Cons.prems(1) have run: "ssl_calls lib calls (made @ [x]) = (True, made')"
    and ok: "checked \<longrightarrow> lib made x" by (auto split: if_splits)
  show ?case
  proof (cases "(True, call) \<in> set calls")
    case True
    with Cons.IH [OF run] show ?thesis .
  next
    case False
    with Cons.prems(2) p ok have "x = call" "lib made call" by auto
    then have "succeeded lib (made @ [x]) call" by (auto simp: succeeded_def)
    with ssl_calls_extend [OF run] show ?thesis using succeeded_append by blast
  qed
qed simp

lemma handshake_checked:
  assumes "amqp_ssl_handshake lib c hostname verify_peer cacert cert key = ((True, made), c')"
    and "(True, call) \<in> set (ctx_calls verify_peer cacert cert key) \<union>
           set (session_calls (sockfd c) hostname verify_peer)"
  shows "succeeded lib made call"
proof -
  obtain m where 1: "ssl_calls lib (ctx_calls verify_peer cacert cert key) [SSL_CTX_new] = (True, m)"
    and 2: "ssl_calls lib (session_calls (sockfd c) hostname verify_peer) (m @ [SSL_new, SSL_CTX_free]) = (True, made)"
    using assms(1) by (auto simp: amqp_ssl_handshake_def split: if_splits prod.splits bool.splits)
  obtain rest where rest: "made = m @ rest" using ssl_calls_extend [OF 2] by auto
  show ?thesis
    using assms(2) ssl_calls_checked [OF 1] ssl_calls_checked [OF 2] succeeded_append [of lib m call rest]
    by (auto simp: rest)
qed

section \<open>Properties\<close>

text \<open>C38: Opening a socket leaks nothing: whatever the resolver and the kernel answer, when the call
  returns an error no socket that it made is open, when it returns a descriptor that is the only one,
  and the list of addresses is freed exactly once if there is one.\<close>

theorem open_socket_no_leak:
  assumes "\<And>ais. getaddrinfo hostname portnumber = Some ais \<Longrightarrow> ais \<noteq> [] \<and> list_all kernel_like ais"
    and "amqp_open_socket getaddrinfo hostname portnumber timeout = (r, calls)"
  shows "open_fds calls = (if r < 0 then {} else {r}) \<and>
    count_list calls Sys_Freeaddrinfo = (if getaddrinfo hostname portnumber = None then 0 else 1)"
proof (cases "getaddrinfo hostname portnumber")
  case None
  with assms(2) show ?thesis by (auto simp: amqp_open_socket_def open_fds_def ENOENT_no_def)
next
  case (Some ais)
  then obtain cs where c: "try_addresses timeout ais 0 = (r, cs)" "calls = Sys_Getaddrinfo hostname portnumber # cs"
    using assms(2) by (cases "try_addresses timeout ais 0") (auto simp: amqp_open_socket_def)
  from try_addresses_fds [OF _ _ c(1)] assms(1) [OF Some] c(2) Some show ?thesis by (simp add: open_fds_def)
qed

text \<open>C39: The first address that can be reached is the one that is taken: its socket is the result, unless
  it cannot be made blocking again, which is an error although other addresses may be left; when no
  address can be reached the result is an error.\<close>

theorem open_socket_first_reachable:
  assumes "getaddrinfo hostname portnumber = Some ais" and "ais \<noteq> []" and "list_all kernel_like ais"
  shows "case find reachable ais of
      Some ai \<Rightarrow> if settles ai
        then fst (amqp_open_socket getaddrinfo hostname portnumber timeout) = projr (socket_r ai)
        else fst (amqp_open_socket getaddrinfo hostname portnumber timeout) < 0
    | None \<Rightarrow> fst (amqp_open_socket getaddrinfo hostname portnumber timeout) < 0"
proof -
  have eq: "fst (amqp_open_socket getaddrinfo hostname portnumber timeout) = fst (try_addresses timeout ais 0)"
    using assms(1) by (simp add: amqp_open_socket_def)
  show ?thesis unfolding eq using assms(2,3) by (intro try_addresses_first) simp_all
qed

text \<open>C40: No handshake is finished without its checks.  When it succeeds, \<open>SSL_connect\<close> was the last
  call and reported success, after the minimum version was set.  When the peer is to be verified,
  verification was switched on before and not off, setting the name to be checked succeeded, and loading
  the authorities succeeded if a file with them is named; otherwise those of the system were asked for,
  the result of which the code ignores.  With a client certificate and a key, both were loaded and
  match.\<close>

theorem handshake_verifies:
  assumes "amqp_ssl_handshake lib c hostname verify_peer cacert cert key = ((True, made), c')"
  shows "\<exists>before. made = before @ [SSL_connect] \<and> lib before SSL_connect \<and> c' = c\<lparr>ssl := True\<rparr> \<and>
    SSL_CTX_set_min_proto_version_TLS1_2 \<in> set before \<and>
    (SSL_CTX_set_verify True \<in> set before \<longleftrightarrow> verify_peer) \<and>
    (SSL_CTX_set_verify False \<in> set before \<longleftrightarrow> \<not> verify_peer) \<and>
    (if verify_peer
     then succeeded lib before (SSL_set1_host hostname) \<and>
       (case cacert of
          Some path \<Rightarrow> succeeded lib before (SSL_CTX_load_verify_locations path)
        | None \<Rightarrow> SSL_CTX_set_default_verify_paths \<in> set before)
     else SSL_set1_host hostname \<notin> set before) \<and>
    (case (cert, key) of
       (Some cert_path, Some key_path) \<Rightarrow>
         succeeded lib before (SSL_CTX_use_certificate_file cert_path) \<and>
         succeeded lib before (SSL_CTX_use_PrivateKey_file key_path) \<and>
         succeeded lib before SSL_CTX_check_private_key
     | _ \<Rightarrow> True)"
  using assms
proof (cases rule: handshake_cases)
  case (connected m)
  define before where "before = m @ [SSL_new, SSL_CTX_free] @
    butlast (map snd (session_calls (sockfd c) hostname verify_peer))"
  have made: "made = before @ [SSL_connect]" using connected by (simp add: before_def session_calls_def)
  have fresh: "SSL_connect \<notin> set before"
    using connected(4) by (auto simp: before_def session_calls_def ctx_calls_def split: option.splits if_splits)
  have ctx: "SSL_CTX_set_min_proto_version_TLS1_2 \<in> set before"
      "SSL_CTX_set_verify True \<in> set before \<longleftrightarrow> verify_peer"
      "SSL_CTX_set_verify False \<in> set before \<longleftrightarrow> \<not> verify_peer"
      "\<not> verify_peer \<Longrightarrow> SSL_set1_host hostname \<notin> set before"
      "verify_peer \<Longrightarrow> cacert = None \<Longrightarrow> SSL_CTX_set_default_verify_paths \<in> set before"
    using connected(4) ctx_calls_made [where verify_peer = verify_peer and cacert = cacert and cert = cert and key = key]
    by (auto simp: before_def session_calls_def)
  note checked = handshake_checked [OF assms, unfolded made, THEN succeeded_last]
  have conn: "lib before SSL_connect"
    using checked [of SSL_connect] fresh by (simp add: session_calls_def)
  have row: "succeeded lib before call"
    if "(True, call) \<in> set (ctx_calls verify_peer cacert cert key) \<union>
          set (session_calls (sockfd c) hostname verify_peer)" "call \<noteq> SSL_connect" for call
    using checked [OF that(1)] that(2) by simp
  have peer: "succeeded lib before (SSL_set1_host hostname)" if verify_peer
    by (rule row) (use that in \<open>simp_all add: session_calls_def\<close>)
  have authorities: "succeeded lib before (SSL_CTX_load_verify_locations path)"
    if verify_peer "cacert = Some path" for path
    by (rule row) (use that in \<open>simp_all add: ctx_calls_def\<close>)
  have client: "succeeded lib before call"
    if "cert = Some cp" "key = Some kp" "call \<in> {SSL_CTX_use_certificate_file cp,
        SSL_CTX_use_PrivateKey_file kp, SSL_CTX_check_private_key}" for cp kp call
    by (rule row) (use that in \<open>auto simp: ctx_calls_def\<close>)
  show ?thesis
    by (rule exI [of _ before])
       (use made conn connected(3) ctx peer authorities client in \<open>auto split: option.split\<close>)
qed simp_all

text \<open>The handshake leaks nothing: the context is freed on every path, and a session object is left
  exactly when the handshake succeeds, in which case the connection uses it.\<close>

theorem handshake_balanced:
  assumes "amqp_ssl_handshake lib c hostname verify_peer cacert cert key = ((ok, made), c')"
  shows "live lib SSL_CTX_new SSL_CTX_free [] made = 0 \<and>
    live lib SSL_new SSL_free [] made = (if ok then 1 else 0) \<and> c' = (if ok then c\<lparr>ssl := True\<rparr> else c)"
  using assms
proof (cases rule: handshake_cases)
  case (ctx k)
  then show ?thesis by (simp add: live_append)
next
  case (no_session m)
  then show ?thesis by (simp add: live_append)
next
  case (failed m k)
  then show ?thesis by (simp add: live_append)
next
  case (connected m)
  then show ?thesis by (simp add: live_append)
qed simp

section \<open>A concrete host\<close>

text \<open>Two addresses: one refuses, the other accepts after a while.\<close>

definition demo_refusing :: candidate where
  "demo_refusing =
     \<lparr>socket_r = Inr 3, getfl_r = Inr 2, setfl_r = None, connect_r = Some 111, poll_r = 0, so_error_r = None,
      getfl_again = Inr 0, setfl_again = None\<rparr>"

definition demo_accepting :: candidate where
  "demo_accepting =
     \<lparr>socket_r = Inr 4, getfl_r = Inr 2, setfl_r = None, connect_r = Some EINPROGRESS_no, poll_r = 1,
      so_error_r = Some 0, getfl_again = Inr 2050, setfl_again = None\<rparr>"

definition demo_resolver :: "byte list \<Rightarrow> int \<Rightarrow> candidate list option" where
  "demo_resolver hostname portnumber = Some [demo_refusing, demo_accepting]"

lemma demo_addresses [simp]:
  "kernel_like demo_refusing" "kernel_like demo_accepting" "\<not> reachable demo_refusing" "reachable demo_accepting"
  "settles demo_accepting" "projr (socket_r demo_accepting) = 4"
  by (simp_all add: kernel_like_def demo_refusing_def demo_accepting_def reachable_def settles_def EINPROGRESS_no_def)

lemma open_socket_first_reachable_witness:
  "fst (amqp_open_socket demo_resolver [104] 5672 (Some (1, 0))) = 4"
  using open_socket_first_reachable [of demo_resolver "[104]" 5672 "[demo_refusing, demo_accepting]" "Some (1, 0)"]
  by (simp add: demo_resolver_def)

lemma open_socket_no_leak_witness:
  "open_fds (snd (amqp_open_socket demo_resolver [104] 5672 (Some (1, 0)))) = {4}"
proof -
  have "fst (amqp_open_socket demo_resolver [104] 5672 (Some (1, 0))) = 4"
    by (simp add: amqp_open_socket_def demo_resolver_def demo_refusing_def demo_accepting_def try_address_def
        change_flags_def await_connect_def settle_def EINPROGRESS_no_def Let_def)
  then obtain calls where calls: "amqp_open_socket demo_resolver [104] 5672 (Some (1, 0)) = (4, calls)"
    by (cases "amqp_open_socket demo_resolver [104] 5672 (Some (1, 0))") simp
  from open_socket_no_leak [OF _ calls] have "open_fds calls = {4}" by (simp add: demo_resolver_def)
  with calls show ?thesis by simp
qed

definition demo_start :: client where
  "demo_start =
     \<lparr>conn = zero_connection, sockfd = 4, ssl = False, socket_timeout = None, sock_inbound_buffer = \<lparr>buf_len = 0, buf_bytes = []\<rparr>,
      sock_inbound_offset = 0, sock_inbound_limit = 0, queued_frames = [], incoming = [], accepts = [], outgoing = []\<rparr>"

lemma demo_handshake_runs:
  "\<exists>made. amqp_ssl_handshake (\<lambda>_ _. True) c [104] True None None None = ((True, made), c\<lparr>ssl := True\<rparr>)"
  by (simp add: amqp_ssl_handshake_def ctx_calls_def session_calls_def)

lemma handshake_verifies_witness:
  "\<exists>before. amqp_ssl_handshake (\<lambda>_ _. True) demo_start [104] True None None None =
     ((True, before @ [SSL_connect]), demo_start\<lparr>ssl := True\<rparr>) \<and>
     succeeded (\<lambda>_ _. True) before (SSL_set1_host [104]) \<and> SSL_CTX_set_default_verify_paths \<in> set before"
proof -
  obtain made where made: "amqp_ssl_handshake (\<lambda>_ _. True) demo_start [104] True None None None =
      ((True, made), demo_start\<lparr>ssl := True\<rparr>)" using demo_handshake_runs by blast
  from handshake_verifies [OF this] made show ?thesis by auto
qed

lemma handshake_balanced_witness:
  "\<exists>made. amqp_ssl_handshake (\<lambda>_ _. True) demo_start [104] True None None None =
     ((True, made), demo_start\<lparr>ssl := True\<rparr>) \<and> live (\<lambda>_ _. True) SSL_new SSL_free [] made = 1"
proof -
  obtain made where made: "amqp_ssl_handshake (\<lambda>_ _. True) demo_start [104] True None None None =
      ((True, made), demo_start\<lparr>ssl := True\<rparr>)" using demo_handshake_runs by blast
  from handshake_balanced [OF this] made show ?thesis by auto
qed

end
