(* ===== verification/Api.thy ===== *)
theory Api
  imports Login
begin

text \<open>
  The calls of the client library, \<open>src/src/librabbitmq/amqp_api.c\<close>: publishing a message, which
  splits the body into frames, and the synchronous calls, each a remote procedure call whose reply is
  kept in a cell of the thread.
\<close>

section \<open>Publishing\<close>

text \<open>
  The room for a fragment, \<open>state->frame_max - (HEADER_SIZE + FOOTER_SIZE)\<close>, is computed as \<open>int\<close>
  and kept as \<open>size_t\<close>.
\<close>

definition usable_body_payload_size :: "amqp_connection \<Rightarrow> nat" where
  "usable_body_payload_size st = nat ((frame_max st - int (HEADER_SIZE + FOOTER_SIZE)) mod 2 ^ 64)"

text \<open>
  The loop over the body, where \<open>remaining\<close> is an \<open>int\<close> that is compared as \<open>size_t\<close>.  With no
  room for a fragment it would send empty fragments without an end.
\<close>

definition remaining_of :: "byte list \<Rightarrow> nat \<Rightarrow> int" where
  "remaining_of body body_offset = sint (word_of_int (int (length body) - int body_offset) :: 32 word)"

definition fragment_len :: "nat \<Rightarrow> int \<Rightarrow> nat" where
  "fragment_len usable remaining = (if usable \<le> nat remaining then usable else nat remaining)"

partial_function (option) publish_body ::
  "u16 \<Rightarrow> byte list \<Rightarrow> nat \<Rightarrow> nat \<Rightarrow> client \<Rightarrow> ((c_error + unit) \<times> client) option" where
  "publish_body channel body usable body_offset c =
     (let remaining = remaining_of body body_offset
      in if remaining < 0 then Some (Inl Aborted, c)
         else if remaining = 0 then Some (Inr (), c)
         else let len = fragment_len usable remaining
              in case amqp_send_frame c (Body_Frame channel (take len (drop body_offset body))) of
                   (Inl e, c') \<Rightarrow> Some (Inl e, c')
                 | (Inr _, c') \<Rightarrow> publish_body channel body usable (body_offset + len) c')"

definition AMQP_BASIC_CLASS :: u16 where "AMQP_BASIC_CLASS = 0x003C"

text \<open>Without properties a zeroed struct is sent.\<close>

definition default_properties :: amqp_properties where
  "default_properties = AMQP_Basic_Properties 0 [] [] [] 0 0 [] [] [] [] 0 [] [] [] []"

definition properties_or_default :: "amqp_properties option \<Rightarrow> amqp_properties" where
  "properties_or_default properties = (case properties of None \<Rightarrow> default_properties | Some p \<Rightarrow> p)"

definition publish_method :: "byte list \<Rightarrow> byte list \<Rightarrow> bool \<Rightarrow> bool \<Rightarrow> amqp_method" where
  "publish_method exchange routing_key mandatory immediate =
     M_Basic (AMQP_Basic_Publish 0 exchange routing_key mandatory immediate)"

definition publish_header :: "u16 \<Rightarrow> amqp_properties option \<Rightarrow> byte list \<Rightarrow> amqp_frame" where
  "publish_header channel properties body =
     Header_Frame channel AMQP_BASIC_CLASS (word_of_nat (length body)) (properties_or_default properties)"

definition amqp_basic_publish ::
  "u16 \<Rightarrow> byte list \<Rightarrow> byte list \<Rightarrow> bool \<Rightarrow> bool \<Rightarrow> amqp_properties option \<Rightarrow> byte list \<Rightarrow> unit blocking" where
  "amqp_basic_publish channel exchange routing_key mandatory immediate properties body c =
     (let usable = usable_body_payload_size (conn c)
      in io_bind (io_of (\<lambda>c. amqp_send_method c channel AMQP_BASIC_PUBLISH_METHOD
                    (publish_method exchange routing_key mandatory immediate))) (\<lambda>_.
         io_bind (io_of (\<lambda>c. amqp_send_frame c (publish_header channel properties body))) (\<lambda>_.
         publish_body channel body usable 0)) c)"

definition amqp_basic_ack :: "u16 \<Rightarrow> u64 \<Rightarrow> bool \<Rightarrow> unit blocking" where
  "amqp_basic_ack channel delivery_tag multiple =
     io_of (\<lambda>c. amqp_send_method c channel AMQP_BASIC_ACK_METHOD
              (M_Basic (AMQP_Basic_Ack delivery_tag multiple)))"

section \<open>The reply of the thread\<close>

text \<open>
  Each thread has a cell for the last reply, allocated and zeroed on its first use; \<open>None\<close> is a
  cell not allocated yet.
\<close>

type_synonym reply_cell = "amqp_rpc_reply option"

definition sizeof_rpc_reply :: nat where "sizeof_rpc_reply = 32"

definition amqp_get_rpc_reply :: "memory \<Rightarrow> reply_cell \<Rightarrow> reply_cell" where
  "amqp_get_rpc_reply mem cell =
     (case cell of
        Some r \<Rightarrow> Some r
      | None \<Rightarrow> if malloc_ok mem sizeof_rpc_reply then Some AMQP_RESPONSE_NONE else None)"

type_synonym 'a api = "client \<times> reply_cell \<Rightarrow> ((c_error + 'a) \<times> client \<times> reply_cell) option"

definition store_reply :: "memory \<Rightarrow> amqp_rpc_reply blocking \<Rightarrow> amqp_rpc_reply api" where
  "store_reply mem rpc s =
     (case rpc (fst s) of
        None \<Rightarrow> None
      | Some (Inl e, c') \<Rightarrow> Some (Inl e, c', amqp_get_rpc_reply mem (snd s))
      | Some (Inr r, c') \<Rightarrow>
          (case amqp_get_rpc_reply mem (snd s) of
             None \<Rightarrow> Some (Inl (Undefined Null_Pointer), c', None)
           | Some _ \<Rightarrow> Some (Inr r, c', Some r)))"

text \<open>\<open>RPC_REPLY\<close>: the struct of the reply, a null pointer unless the reply is normal.\<close>

fun RPC_REPLY :: "amqp_rpc_reply \<Rightarrow> amqp_method option" where
  "RPC_REPLY (AMQP_RESPONSE_NORMAL (Some (i, m))) = Some m"
| "RPC_REPLY _ = None"

definition api_map :: "('a \<Rightarrow> 'b) \<Rightarrow> 'a api \<Rightarrow> 'b api" where
  "api_map f m s = map_option (\<lambda>(r, s'). (map_sum id f r, s')) (m s)"

definition AMQP_SIMPLE_RPC :: "memory \<Rightarrow> u16 \<Rightarrow> u32 \<Rightarrow> u32 \<Rightarrow> amqp_method \<Rightarrow> amqp_rpc_reply blocking" where
  "AMQP_SIMPLE_RPC mem channel request reply = amqp_simple_rpc mem channel request [reply, 0]"

text \<open>A call that stores its reply and returns the struct of it.\<close>

definition rpc_call :: "memory \<Rightarrow> u16 \<Rightarrow> u32 \<Rightarrow> u32 \<Rightarrow> amqp_method \<Rightarrow> amqp_method option api" where
  "rpc_call mem channel request reply m =
     api_map RPC_REPLY (store_reply mem (AMQP_SIMPLE_RPC mem channel request reply m))"

section \<open>The synchronous calls\<close>

definition amqp_channel_open :: "memory \<Rightarrow> u16 \<Rightarrow> amqp_method option api" where
  "amqp_channel_open mem channel =
     rpc_call mem channel AMQP_CHANNEL_OPEN_METHOD AMQP_CHANNEL_OPEN_OK_METHOD
       (M_Channel (AMQP_Channel_Open []))"

text \<open>\<open>snprintf\<close> with \<open>%d\<close>; the 13 bytes of the buffer hold every \<open>int\<close>.\<close>

fun digits :: "nat \<Rightarrow> byte list" where
  "digits n = (if n < 10 then [word_of_nat (48 + n)] else digits (n div 10) @ [word_of_nat (48 + n mod 10)])"

declare digits.simps [simp del]

definition decimal :: "int \<Rightarrow> byte list" where
  "decimal k = take 12 (if k < 0 then 45 # digits (nat (- k)) else digits (nat k))"

definition amqp_channel_close :: "memory \<Rightarrow> u16 \<Rightarrow> int \<Rightarrow> amqp_rpc_reply blocking" where
  "amqp_channel_close mem channel code =
     AMQP_SIMPLE_RPC mem channel AMQP_CHANNEL_CLOSE_METHOD AMQP_CHANNEL_CLOSE_OK_METHOD
       (M_Channel (AMQP_Channel_Close (word_of_int code) (decimal code) 0 0))"

definition amqp_connection_close :: "memory \<Rightarrow> int \<Rightarrow> amqp_rpc_reply blocking" where
  "amqp_connection_close mem code =
     AMQP_SIMPLE_RPC mem 0 AMQP_CONNECTION_CLOSE_METHOD AMQP_CONNECTION_CLOSE_OK_METHOD
       (M_Connection (AMQP_Connection_Close (word_of_int code) (decimal code) 0 0))"

definition amqp_exchange_declare ::
  "memory \<Rightarrow> u16 \<Rightarrow> byte list \<Rightarrow> byte list \<Rightarrow> bool \<Rightarrow> bool \<Rightarrow> bool \<Rightarrow> table \<Rightarrow> amqp_method option api" where
  "amqp_exchange_declare mem channel exchange type passive durable auto_delete arguments =
     rpc_call mem channel AMQP_EXCHANGE_DECLARE_METHOD AMQP_EXCHANGE_DECLARE_OK_METHOD
       (M_Exchange (AMQP_Exchange_Declare 0 exchange type passive durable auto_delete False False arguments))"

definition amqp_exchange_delete ::
  "memory \<Rightarrow> u16 \<Rightarrow> byte list \<Rightarrow> bool \<Rightarrow> bool \<Rightarrow> amqp_method option api" where
  "amqp_exchange_delete mem channel exchange if_unused nowait =
     rpc_call mem channel AMQP_EXCHANGE_DELETE_METHOD AMQP_EXCHANGE_DELETE_OK_METHOD
       (M_Exchange (AMQP_Exchange_Delete 0 exchange if_unused nowait))"

definition amqp_queue_declare ::
  "memory \<Rightarrow> u16 \<Rightarrow> byte list \<Rightarrow> bool \<Rightarrow> bool \<Rightarrow> bool \<Rightarrow> bool \<Rightarrow> table \<Rightarrow> amqp_method option api" where
  "amqp_queue_declare mem channel queue passive durable exclusive auto_delete arguments =
     rpc_call mem channel AMQP_QUEUE_DECLARE_METHOD AMQP_QUEUE_DECLARE_OK_METHOD
       (M_Queue (AMQP_Queue_Declare 0 queue passive durable exclusive auto_delete False arguments))"

definition amqp_queue_bind ::
  "memory \<Rightarrow> u16 \<Rightarrow> byte list \<Rightarrow> byte list \<Rightarrow> byte list \<Rightarrow> table \<Rightarrow> amqp_method option api" where
  "amqp_queue_bind mem channel queue exchange routing_key arguments =
     rpc_call mem channel AMQP_QUEUE_BIND_METHOD AMQP_QUEUE_BIND_OK_METHOD
       (M_Queue (AMQP_Queue_Bind 0 queue exchange routing_key False arguments))"

definition amqp_queue_unbind ::
  "memory \<Rightarrow> u16 \<Rightarrow> byte list \<Rightarrow> byte list \<Rightarrow> byte list \<Rightarrow> table \<Rightarrow> amqp_method option api" where
  "amqp_queue_unbind mem channel queue exchange binding_key arguments =
     rpc_call mem channel AMQP_QUEUE_UNBIND_METHOD AMQP_QUEUE_UNBIND_OK_METHOD
       (M_Queue (AMQP_Queue_Unbind 0 queue exchange binding_key arguments))"

definition amqp_basic_consume ::
  "memory \<Rightarrow> u16 \<Rightarrow> byte list \<Rightarrow> byte list \<Rightarrow> bool \<Rightarrow> bool \<Rightarrow> bool \<Rightarrow> amqp_method option api" where
  "amqp_basic_consume mem channel queue consumer_tag no_local no_ack exclusive =
     rpc_call mem channel AMQP_BASIC_CONSUME_METHOD AMQP_BASIC_CONSUME_OK_METHOD
       (M_Basic (AMQP_Basic_Consume 0 queue consumer_tag no_local no_ack exclusive False))"

text \<open>The channel is passed where the ticket belongs.\<close>

definition amqp_queue_purge :: "memory \<Rightarrow> u16 \<Rightarrow> byte list \<Rightarrow> bool \<Rightarrow> amqp_method option api" where
  "amqp_queue_purge mem channel queue no_wait =
     rpc_call mem channel AMQP_QUEUE_PURGE_METHOD AMQP_QUEUE_PURGE_OK_METHOD
       (M_Queue (AMQP_Queue_Purge channel queue no_wait))"

definition amqp_basic_get :: "memory \<Rightarrow> u16 \<Rightarrow> byte list \<Rightarrow> bool \<Rightarrow> amqp_rpc_reply api" where
  "amqp_basic_get mem channel queue no_ack =
     store_reply mem (amqp_simple_rpc mem channel AMQP_BASIC_GET_METHOD
       [AMQP_BASIC_GET_OK_METHOD, AMQP_BASIC_GET_EMPTY_METHOD, 0]
       (M_Basic (AMQP_Basic_Get channel queue no_ack)))"

text \<open>The channel goes to an unused bit of the struct, the table is not used.\<close>

definition amqp_tx_select :: "memory \<Rightarrow> u16 \<Rightarrow> table \<Rightarrow> amqp_method option api" where
  "amqp_tx_select mem channel arguments =
     rpc_call mem channel AMQP_TX_SELECT_METHOD AMQP_TX_SELECT_OK_METHOD (M_Tx AMQP_Tx_Select)"

definition amqp_tx_commit :: "memory \<Rightarrow> u16 \<Rightarrow> table \<Rightarrow> amqp_method option api" where
  "amqp_tx_commit mem channel arguments =
     rpc_call mem channel AMQP_TX_COMMIT_METHOD AMQP_TX_COMMIT_OK_METHOD (M_Tx AMQP_Tx_Commit)"

definition amqp_tx_rollback :: "memory \<Rightarrow> u16 \<Rightarrow> table \<Rightarrow> amqp_method option api" where
  "amqp_tx_rollback mem channel arguments =
     rpc_call mem channel AMQP_TX_ROLLBACK_METHOD AMQP_TX_ROLLBACK_OK_METHOD (M_Tx AMQP_Tx_Rollback)"

definition amqp_basic_qos :: "memory \<Rightarrow> u16 \<Rightarrow> u32 \<Rightarrow> u16 \<Rightarrow> bool \<Rightarrow> amqp_method option api" where
  "amqp_basic_qos mem channel prefetch_size prefetch_count global =
     rpc_call mem channel AMQP_BASIC_QOS_METHOD AMQP_BASIC_QOS_OK_METHOD
       (M_Basic (AMQP_Basic_Qos prefetch_size prefetch_count global))"

end
