(* ===== verification/Framing_Types.thy ===== *)
theory Framing_Types
  imports Codec_Laws
begin

text \<open>
  The types of the decoded methods.  The C code hands a decoded method over as a number and a
  \<open>void *\<close>, and every caller casts the pointer by the number.  Here: the decoder of a number builds
  the struct of that number and no other.
\<close>

section \<open>What a decoder can return\<close>

definition yields :: "('a \<Rightarrow> bool) \<Rightarrow> 'a dec \<Rightarrow> bool" where
  "yields P d \<longleftrightarrow> (\<forall>b off v off'. d b off = Inr (v, off') \<longrightarrow> P v)"

named_theorems yield_intros

lemma yields_bind [yield_intros]: "(\<And>v. yields P (f v)) \<Longrightarrow> yields P (dbind d f)"
  unfolding yields_def dbind_def by (fastforce split: sum.splits)

lemma yields_dret [yield_intros]: "P v \<Longrightarrow> yields P (dret v)"
  by (simp add: yields_def dret_def)

lemma yields_dmap: "yields (\<lambda>m. P (g m)) d \<Longrightarrow> yields P (dmap g d)"
  unfolding yields_def dmap_def dbind_def dret_def by (fastforce split: sum.splits)

section \<open>The classes\<close>

lemma typed_connection:
  assumes "(i, d) \<in> set (decoders_connection mem)"
  shows "yields (\<lambda>m. id_connection m = i) d"
  using assms unfolding decoders_connection_def list.set insert_iff prod.inject empty_iff
  by (elim disjE conjE FalseE; hypsubst;
      unfold
        dec_connection_start_def dec_connection_start_ok_def dec_connection_secure_def
        dec_connection_secure_ok_def dec_connection_tune_def dec_connection_tune_ok_def
        dec_connection_open_def dec_connection_open_ok_def dec_connection_redirect_def
        dec_connection_close_def dec_connection_close_ok_def;
      intro yield_intros; simp)

lemma typed_channel:
  assumes "(i, d) \<in> set (decoders_channel mem)"
  shows "yields (\<lambda>m. id_channel m = i) d"
  using assms unfolding decoders_channel_def list.set insert_iff prod.inject empty_iff
  by (elim disjE conjE FalseE; hypsubst;
      unfold
        dec_channel_open_def dec_channel_open_ok_def dec_channel_flow_def
        dec_channel_flow_ok_def dec_channel_alert_def dec_channel_close_def
        dec_channel_close_ok_def;
      intro yield_intros; simp)

lemma typed_access:
  assumes "(i, d) \<in> set (decoders_access mem)"
  shows "yields (\<lambda>m. id_access m = i) d"
  using assms unfolding decoders_access_def list.set insert_iff prod.inject empty_iff
  by (elim disjE conjE FalseE; hypsubst;
      unfold
        dec_access_request_def dec_access_request_ok_def;
      intro yield_intros; simp)

lemma typed_exchange:
  assumes "(i, d) \<in> set (decoders_exchange mem)"
  shows "yields (\<lambda>m. id_exchange m = i) d"
  using assms unfolding decoders_exchange_def list.set insert_iff prod.inject empty_iff
  by (elim disjE conjE FalseE; hypsubst;
      unfold
        dec_exchange_declare_def dec_exchange_declare_ok_def dec_exchange_delete_def
        dec_exchange_delete_ok_def;
      intro yield_intros; simp)

lemma typed_queue:
  assumes "(i, d) \<in> set (decoders_queue mem)"
  shows "yields (\<lambda>m. id_queue m = i) d"
  using assms unfolding decoders_queue_def list.set insert_iff prod.inject empty_iff
  by (elim disjE conjE FalseE; hypsubst;
      unfold
        dec_queue_declare_def dec_queue_declare_ok_def dec_queue_bind_def dec_queue_bind_ok_def
        dec_queue_purge_def dec_queue_purge_ok_def dec_queue_delete_def dec_queue_delete_ok_def
        dec_queue_unbind_def dec_queue_unbind_ok_def;
      intro yield_intros; simp)

lemma typed_basic:
  assumes "(i, d) \<in> set (decoders_basic mem)"
  shows "yields (\<lambda>m. id_basic m = i) d"
  using assms unfolding decoders_basic_def list.set insert_iff prod.inject empty_iff
  by (elim disjE conjE FalseE; hypsubst;
      unfold
        dec_basic_qos_def dec_basic_qos_ok_def dec_basic_consume_def dec_basic_consume_ok_def
        dec_basic_cancel_def dec_basic_cancel_ok_def dec_basic_publish_def dec_basic_return_def
        dec_basic_deliver_def dec_basic_get_def dec_basic_get_ok_def dec_basic_get_empty_def
        dec_basic_ack_def dec_basic_reject_def dec_basic_recover_def;
      intro yield_intros; simp)

lemma typed_file:
  assumes "(i, d) \<in> set (decoders_file mem)"
  shows "yields (\<lambda>m. id_file m = i) d"
  using assms unfolding decoders_file_def list.set insert_iff prod.inject empty_iff
  by (elim disjE conjE FalseE; hypsubst;
      unfold
        dec_file_qos_def dec_file_qos_ok_def dec_file_consume_def dec_file_consume_ok_def
        dec_file_cancel_def dec_file_cancel_ok_def dec_file_open_def dec_file_open_ok_def
        dec_file_stage_def dec_file_publish_def dec_file_return_def dec_file_deliver_def
        dec_file_ack_def dec_file_reject_def;
      intro yield_intros; simp)

lemma typed_stream:
  assumes "(i, d) \<in> set (decoders_stream mem)"
  shows "yields (\<lambda>m. id_stream m = i) d"
  using assms unfolding decoders_stream_def list.set insert_iff prod.inject empty_iff
  by (elim disjE conjE FalseE; hypsubst;
      unfold
        dec_stream_qos_def dec_stream_qos_ok_def dec_stream_consume_def
        dec_stream_consume_ok_def dec_stream_cancel_def dec_stream_cancel_ok_def
        dec_stream_publish_def dec_stream_return_def dec_stream_deliver_def;
      intro yield_intros; simp)

lemma typed_tx:
  assumes "(i, d) \<in> set (decoders_tx mem)"
  shows "yields (\<lambda>m. id_tx m = i) d"
  using assms unfolding decoders_tx_def list.set insert_iff prod.inject empty_iff
  by (elim disjE conjE FalseE; hypsubst;
      unfold
        dec_tx_select_def dec_tx_select_ok_def dec_tx_commit_def dec_tx_commit_ok_def
        dec_tx_rollback_def dec_tx_rollback_ok_def;
      intro yield_intros; simp)

lemma typed_dtx:
  assumes "(i, d) \<in> set (decoders_dtx mem)"
  shows "yields (\<lambda>m. id_dtx m = i) d"
  using assms unfolding decoders_dtx_def list.set insert_iff prod.inject empty_iff
  by (elim disjE conjE FalseE; hypsubst;
      unfold
        dec_dtx_select_def dec_dtx_select_ok_def dec_dtx_start_def dec_dtx_start_ok_def;
      intro yield_intros; simp)

lemma typed_tunnel:
  assumes "(i, d) \<in> set (decoders_tunnel mem)"
  shows "yields (\<lambda>m. id_tunnel m = i) d"
  using assms unfolding decoders_tunnel_def list.set insert_iff prod.inject empty_iff
  by (elim disjE conjE FalseE; hypsubst;
      unfold
        dec_tunnel_request_def;
      intro yield_intros; simp)

lemma typed_test:
  assumes "(i, d) \<in> set (decoders_test mem)"
  shows "yields (\<lambda>m. id_test m = i) d"
  using assms unfolding decoders_test_def list.set insert_iff prod.inject empty_iff
  by (elim disjE conjE FalseE; hypsubst;
      unfold
        dec_test_integer_def dec_test_integer_ok_def dec_test_string_def dec_test_string_ok_def
        dec_test_table_def dec_test_table_ok_def dec_test_content_def dec_test_content_ok_def;
      intro yield_intros; simp)

section \<open>All methods\<close>

lemma typed_in_class:
  assumes "(i, d) \<in> set (in_class c xs)" and "\<And>d. (i, d) \<in> set xs \<Longrightarrow> yields (\<lambda>m. id_method (c m) = i) d"
  shows "yields (\<lambda>m. id_method m = i) d"
  using assms by (auto simp: in_class_def intro!: yields_dmap)

lemma typed_method:
  assumes "(i, d) \<in> set (method_decoders mem)"
  shows "yields (\<lambda>m. id_method m = i) d"
  by (insert assms, unfold method_decoders_def concat.simps set_append Un_iff list.set empty_iff,
      elim disjE FalseE; erule typed_in_class; unfold id_method.simps;
      erule typed_connection typed_channel typed_access typed_exchange typed_queue typed_basic
        typed_file typed_stream typed_tx typed_dtx typed_tunnel typed_test)

lemma decoded_type:
  assumes "amqp_decode_method mem i b = Inr m"
  shows "id_method m = i"
proof -
  from assms obtain d where d: "map_of (method_decoders mem) i = Some d"
    by (cases "map_of (method_decoders mem) i") (auto simp: amqp_decode_method_def)
  with assms obtain off where "d b 0 = Inr (m, off)"
    by (cases "d b 0") (auto simp: amqp_decode_method_def)
  with typed_method [OF map_of_SomeD [OF d]] show ?thesis by (auto simp: yields_def)
qed

section \<open>Properties\<close>

lemma typed_property_fields:
  assumes "(i, d) \<in> set (properties_decoders mem)"
  shows "yields (\<lambda>p. class_of p = i) (d flags)"
  using assms unfolding properties_decoders_def list.set insert_iff prod.inject empty_iff
  by (elim disjE conjE FalseE; hypsubst;
      unfold
        dec_connection_properties_def dec_channel_properties_def
        dec_access_properties_def dec_exchange_properties_def dec_queue_properties_def
        dec_basic_properties_def dec_file_properties_def dec_stream_properties_def
        dec_tx_properties_def dec_dtx_properties_def dec_tunnel_properties_def
        dec_test_properties_def;
      intro yield_intros; simp)

lemma yields_dfail [yield_intros]: "yields P (dfail e)"
  by (simp add: yields_def dfail_def)

lemma yields_properties: "yields (\<lambda>p. class_of p = i) (decode_properties_at mem i)"
proof -
  have "yields (\<lambda>p. class_of p = i)
      (case map_of (properties_decoders mem) i of None \<Rightarrow> dfail ENOENT | Some d \<Rightarrow> d flags)" for flags
    by (cases "map_of (properties_decoders mem) i")
       (auto intro: yield_intros typed_property_fields dest: map_of_SomeD)
  then show ?thesis unfolding decode_properties_at_def by (intro yields_bind)
qed

lemma decoded_class:
  assumes "amqp_decode_properties mem i b = Inr p"
  shows "class_of p = i"
proof -
  from assms obtain off where "decode_properties_at mem i b 0 = Inr (p, off)"
    by (cases "decode_properties_at mem i b 0") (auto simp: amqp_decode_properties_def)
  with yields_properties [of i mem] show ?thesis by (auto simp: yields_def)
qed

end
