(* ===== verification/Api_Laws.thy ===== *)
theory Api_Laws
  imports Api Framing_Types
begin

text \<open>
  The laws of the calls: publishing sends the method, the header and the body cut into fragments that
  fit, and the other side reads the same frames off its socket; publishing returns with success or an error; a reply is
  of the type that the caller takes it for.
\<close>

section \<open>Fragments\<close>

text \<open>What the fragments should be.\<close>

function chunks :: "nat \<Rightarrow> byte list \<Rightarrow> byte list list" where
  "chunks n ws = (if n = 0 \<or> ws = [] then [] else take n ws # chunks n (drop n ws))"
  by pat_completeness auto

termination chunks by (relation "measure (\<lambda>(n, ws). length ws)") auto

declare chunks.simps [simp del]

lemma concat_chunks: "0 < n \<Longrightarrow> concat (chunks n ws) = ws"
  by (induction n ws rule: chunks.induct) (subst chunks.simps, simp)

lemma chunks_bounds: "p \<in> set (chunks n ws) \<Longrightarrow> p \<noteq> [] \<and> length p \<le> n"
proof (induction n ws rule: chunks.induct)
  case (1 n ws)
  then show ?case by (subst (asm) (2) chunks.simps) (auto split: if_splits)
qed

lemma chunks_fit: "8 < n \<Longrightarrow> list_all (\<lambda>p. p \<noteq> [] \<and> length p + 8 \<le> n) (chunks (n - 8) ws)"
  unfolding list_all_iff by (auto dest: chunks_bounds)

text \<open>A body of less than 2 GB: \<open>remaining\<close> is what remains.\<close>

lemma remaining_small:
  "off \<le> length body \<Longrightarrow> length body < 2 ^ 31 \<Longrightarrow> remaining_of body off = int (length (drop off body))"
  unfolding remaining_of_def by (subst sint_small) (simp_all add: of_nat_diff)

lemma fragment_small [simp]: "fragment_len usable (int l - int off) = min usable (l - off)"
  by (auto simp: fragment_len_def)

section \<open>Publishing is sending a list of frames\<close>

lemma length_body_frame [simp]: "length (wire_frame (Body_Frame ch ws)) = length ws + 8"
  by (simp add: length_wire_frame)

lemma publish_body_eq:
  assumes "0 < usable" and "length body < 2 ^ 31"
  shows "off \<le> length body \<Longrightarrow>
    publish_body ch body usable off c =
      Some (send_frames amqp_send_frame (map (Body_Frame ch) (chunks usable (drop off body))) c)"
proof (induction "length body - off" arbitrary: off c rule: less_induct)
  case less
  note rem = remaining_small [OF less.prems assms(2)]
  show ?case
  proof (cases "off = length body")
    case True
    then show ?thesis using rem by (subst publish_body.simps) (simp add: chunks.simps)
  next
    case False
    let ?k = "min usable (length body - off)" and ?p = "take usable (drop off body)"
    have pos: "0 < remaining_of body off" "off < length body" using False less.prems rem by simp_all
    have p: "take ?k (drop off body) = ?p" "drop (off + ?k) body = drop usable (drop off body)"
      by (simp_all add: min_def add.commute)
    have "length body - (off + ?k) < length body - off" "off + ?k \<le> length body" using pos(2) assms(1) by auto
    note IH = less.hyps [OF this]
    have "chunks usable (drop off body) = ?p # chunks usable (drop (off + ?k) body)"
      using assms(1) pos(2) unfolding p(2) by (subst chunks.simps) simp
    then show ?thesis
      using pos rem p(1) IH
      by (subst publish_body.simps) (simp add: Let_def split: sum.splits prod.splits)
  qed
qed

text \<open>The frames of a message.\<close>

definition message_frames ::
  "u16 \<Rightarrow> amqp_method \<Rightarrow> amqp_properties option \<Rightarrow> byte list \<Rightarrow> byte list list \<Rightarrow> amqp_frame list" where
  "message_frames channel m properties body parts =
     Method_Frame channel AMQP_BASIC_PUBLISH_METHOD m # publish_header channel properties body #
       map (Body_Frame channel) parts"

text \<open>Publishing is sending these frames up to the first that fails.\<close>

lemma publish_eq:
  assumes "frame_max (conn c) = int n" and "8 < n" and "n < 2 ^ 31" and "length body < 2 ^ 31"
    and "m = publish_method exchange routing_key mandatory immediate"
  shows "amqp_basic_publish channel exchange routing_key mandatory immediate properties body c =
    Some (send_frames amqp_send_frame (message_frames channel m properties body (chunks (n - 8) body)) c)"
proof -
  have u: "usable_body_payload_size (conn c) = n - 8"
    using assms(1-3) by (simp add: usable_body_payload_size_def HEADER_SIZE_def FOOTER_SIZE_def)
  have "0 < n - 8" using assms(2) by simp
  note body = publish_body_eq [OF this assms(4), of 0]
  show ?thesis
    unfolding amqp_basic_publish_def Let_def u
    by (auto simp: io_bind_def io_of_def amqp_send_method_def message_frames_def body assms(5)
        split: sum.splits prod.splits)
qed

lemma publish_sends:
  assumes "can_send n c" and "frame_max (conn c) = int n" and "8 < n" and "length body < 2 ^ 31"
    and "m = publish_method exchange routing_key mandatory immediate"
    and "valid_method m" and "length (wire_method m) + 12 \<le> n"
    and "valid_properties (properties_or_default properties)" and "class_of (properties_or_default properties) = AMQP_BASIC_CLASS"
    and "length (wire_frame (publish_header channel properties body)) \<le> n"
  shows "\<exists>c'. amqp_basic_publish channel exchange routing_key mandatory immediate properties body c =
      Some (Inr (), c') \<and>
    outgoing c' = outgoing c @ concat (map wire_frame (message_frames channel m properties body (chunks (n - 8) body)))"
    and "list_all (\<lambda>f. valid_frame f \<and> length (wire_frame f) \<le> n)
      (message_frames channel m properties body (chunks (n - 8) body))"
proof -
  let ?fs = "message_frames channel m properties body (chunks (n - 8) body)"
  have "list_all (\<lambda>f. valid_frame f \<and> length (wire_frame f) \<le> n) (map (Body_Frame channel) (chunks (n - 8) body))"
    using chunks_fit [OF assms(3)] by (simp add: list.pred_map comp_def list_all_iff)
  then show fits: "list_all (\<lambda>f. valid_frame f \<and> length (wire_frame f) \<le> n) ?fs"
    using assms(5-10) by (simp add: message_frames_def publish_header_def publish_method_def length_wire_frame)
  have "n < 2 ^ 31" using assms(1) by (simp add: can_send_def honest_def)
  note eq = publish_eq [OF assms(2,3) this assms(4,5)]
  show "\<exists>c'. amqp_basic_publish channel exchange routing_key mandatory immediate properties body c =
      Some (Inr (), c') \<and> outgoing c' = outgoing c @ concat (map wire_frame ?fs)"
    using socket_sink.send_all [OF assms(1) fits] unfolding eq by auto
qed

section \<open>Publishing returns\<close>

text \<open>
  The errors a caller of the library can handle: a frame that does not fit the outbound buffer, and
  those of the socket.
\<close>

definition io_error :: "c_error \<Rightarrow> bool" where
  "io_error e \<longleftrightarrow> e = EFAULT \<or> e = EIO \<or> (\<exists>n. e = Os_Error n)"

text \<open>A step that keeps a buffer honest, or fails with \<open>-EFAULT\<close>.\<close>

definition fits_or_fault :: "nat \<Rightarrow> c_error + cbuf \<times> 'a \<Rightarrow> ('a \<Rightarrow> bool) \<Rightarrow> bool" where
  "fits_or_fault n r P \<longleftrightarrow>
     r = Inl EFAULT \<or> (\<exists>b x. r = Inr (b, x) \<and> honest b \<and> buf_len b = n \<and> P x)"

lemma E_BYTES_room:
  "honest b \<Longrightarrow> off + length ws \<le> buf_len b \<Longrightarrow>
     \<exists>b'. E_BYTES b off ws = Inr b' \<and> honest b' \<and> buf_len b' = buf_len b"
  using E_BYTES_honest [of b off ws] by (simp add: honest_def)

lemma E_room:
  assumes "honest b"
  shows "off + 1 \<le> buf_len b \<Longrightarrow> \<exists>b'. E_8 b off v8 = Inr b' \<and> honest b' \<and> buf_len b' = buf_len b"
    and "off + 2 \<le> buf_len b \<Longrightarrow> \<exists>b'. E_16 b off v16 = Inr b' \<and> honest b' \<and> buf_len b' = buf_len b"
    and "off + 4 \<le> buf_len b \<Longrightarrow> \<exists>b'. E_32 b off v32 = Inr b' \<and> honest b' \<and> buf_len b' = buf_len b"
  using E_BYTES_room [OF assms] by (simp_all add: E_8_def E_16_def E_32_def)

lemma E_64_room:
  assumes "honest b" and "off + 8 \<le> buf_len b"
  shows "\<exists>b'. E_64 b off v = Inr b' \<and> honest b' \<and> buf_len b' = buf_len b"
proof -
  obtain b1 where "E_32 b off (ucast (drop_bit 32 v)) = Inr b1" "honest b1" "buf_len b1 = buf_len b"
    using E_room(3) [OF assms(1), of off "ucast (drop_bit 32 v)"] assms(2) by auto
  moreover from this obtain b2 where "E_32 b1 (off + 4) (ucast v) = Inr b2" "honest b2" "buf_len b2 = buf_len b"
    using E_room(3) [of b1 "off + 4" "ucast v"] assms(2) by auto
  ultimately show ?thesis by (simp add: E_64_def)
qed

lemma emits_fits:
  "emits e ws \<Longrightarrow> honest b \<Longrightarrow> fits_or_fault (buf_len b) (e (b, 0)) (\<lambda>n. n \<le> buf_len b)"
  using emits_front [of e ws b] by (auto simp: fits_or_fault_def honest_def)

lemma encode_into_fits:
  assumes "honest out" and "off + 1 \<le> buf_len out"
    and enc: "\<And>b. honest b \<Longrightarrow> fits_or_fault (buf_len b) (enc b) (\<lambda>n. n \<le> buf_len b)"
  shows "fits_or_fault (buf_len out) (encode_into out off (size_minus (buf_len out) (off + 1)) enc)
    (\<lambda>n. off + n + 1 \<le> buf_len out)"
proof -
  obtain k where len: "buf_len out = off + 1 + k" using assms(2) by (auto simp: le_iff_add)
  have lt: "buf_len out < 2 ^ 31" using assms(1) by (simp add: honest_def)
  then have k: "size_minus (buf_len out) (off + 1) = k" using len by (subst size_minus_eq) simp_all
  have D: "D_CHECK out off k = Inr ()" using lt len by (intro D_honest(2) [OF assms(1)]) simp_all
  have sub: "honest (sub_buffer out off k)"
    using len by (intro sub_buffer_honest assms(1)) simp
  have sub_len: "buf_len (sub_buffer out off k) = k" by (simp add: sub_buffer_def)
  from enc [OF sub, unfolded sub_len] consider "enc (sub_buffer out off k) = Inl EFAULT"
    | b n where "enc (sub_buffer out off k) = Inr (b, n)" "honest b" "buf_len b = k" "n \<le> k"
    unfolding fits_or_fault_def by blast
  then show ?thesis
  proof cases
    case 1
    then show ?thesis unfolding encode_into_def k by (simp add: D fits_or_fault_def)
  next
    case (2 b n)
    have "length (buf_bytes b) = k" using 2(2,3) by (simp add: honest_def)
    then have "honest (out\<lparr>buf_bytes := splice (buf_bytes out) off (buf_bytes b)\<rparr>)"
      using assms(1) len by simp
    with 2 len show ?thesis unfolding encode_into_def k by (simp add: D fits_or_fault_def)
  qed
qed

lemma encode_payload_fits:
  assumes "valid_frame f" and "honest out" and "20 \<le> buf_len out"
  shows "fits_or_fault (buf_len out) (encode_payload f out)
    (\<lambda>(enc, n, sep). \<not> sep \<longrightarrow> n + 8 \<le> buf_len out)"
proof (cases f)
  case (Method_Frame ch i m)
  obtain b1 where b1: "E_32 out HEADER_SIZE i = Inr b1" "honest b1" "buf_len b1 = buf_len out"
    using E_room(3) [OF assms(2), of HEADER_SIZE i] assms(3) by (auto simp: HEADER_SIZE_def)
  have "fits_or_fault (buf_len b1) (encode_into b1 (HEADER_SIZE + 4) (size_minus (buf_len b1) (HEADER_SIZE + 4 + 1))
      (amqp_encode_method i m)) (\<lambda>n. HEADER_SIZE + 4 + n + 1 \<le> buf_len b1)"
    using assms(1,3) Method_Frame b1
    by (intro encode_into_fits b1(2)) (simp_all add: HEADER_SIZE_def encode_method_eq emits_fits [OF emits_method])
  with b1 Method_Frame show ?thesis by (auto simp: fits_or_fault_def HEADER_SIZE_def FOOTER_SIZE_def)
next
  case (Header_Frame ch i sz p)
  obtain b1 where b1: "E_16 out HEADER_SIZE i = Inr b1" "honest b1" "buf_len b1 = buf_len out"
    using E_room(2) [OF assms(2), of HEADER_SIZE i] assms(3) by (auto simp: HEADER_SIZE_def)
  obtain b2 where b2: "E_16 b1 (HEADER_SIZE + 2) 0 = Inr b2" "honest b2" "buf_len b2 = buf_len out"
    using E_room(2) [OF b1(2), of "HEADER_SIZE + 2" 0] assms(3) b1(3) by (auto simp: HEADER_SIZE_def)
  obtain b3 where b3: "E_64 b2 (HEADER_SIZE + 4) sz = Inr b3" "honest b3" "buf_len b3 = buf_len out"
    using E_64_room [OF b2(2), of "HEADER_SIZE + 4" sz] assms(3) b2(3) by (auto simp: HEADER_SIZE_def)
  have "fits_or_fault (buf_len b3) (encode_into b3 (HEADER_SIZE + 12) (size_minus (buf_len b3) (HEADER_SIZE + 12 + 1))
      (amqp_encode_properties i p)) (\<lambda>n. HEADER_SIZE + 12 + n + 1 \<le> buf_len b3)"
    using assms(1,3) Header_Frame b3
    by (intro encode_into_fits b3(2))
       (simp_all add: HEADER_SIZE_def encode_properties_eq emits_fits [OF emits_properties] del: enc_all.simps)
  with b1 b2 b3 Header_Frame show ?thesis by (auto simp: fits_or_fault_def HEADER_SIZE_def FOOTER_SIZE_def)
qed (use assms in \<open>simp_all add: fits_or_fault_def\<close>)

lemma inner_send_fits:
  assumes "valid_frame f" and "honest out" and "20 \<le> buf_len out"
  shows "fits_or_fault (buf_len out) (inner_send_frame out f) (\<lambda>_. True)"
proof -
  obtain b1 where b1: "E_8 out 0 (frame_type f) = Inr b1" "honest b1" "buf_len b1 = buf_len out"
    using E_room(1) [OF assms(2), of 0 "frame_type f"] assms(3) by auto
  obtain b2 where b2: "E_16 b1 1 (frame_channel f) = Inr b2" "honest b2" "buf_len b2 = buf_len out"
    using E_room(2) [OF b1(2), of 1 "frame_channel f"] assms(3) b1(3) by auto
  from encode_payload_fits [OF assms(1) b2(2)] assms(3) b2(3)
  consider "encode_payload f b2 = Inl EFAULT"
    | b3 enc n sep where "encode_payload f b2 = Inr (b3, enc, n, sep)" "honest b3" "buf_len b3 = buf_len out"
        "\<not> sep \<longrightarrow> n + 8 \<le> buf_len out"
    by (auto simp: fits_or_fault_def)
  then show ?thesis
  proof cases
    case 1
    with b1 b2 show ?thesis by (simp add: inner_send_frame_def fits_or_fault_def)
  next
    case (2 b3 enc n sep)
    obtain b4 where b4: "E_32 b3 3 (word_of_nat n) = Inr b4" "honest b4" "buf_len b4 = buf_len out"
      using E_room(3) [OF 2(2), of 3 "word_of_nat n"] assms(3) 2(3) by auto
    have "sep \<or> (\<exists>b5. E_8 b4 (n + HEADER_SIZE) AMQP_FRAME_END = Inr b5 \<and> honest b5 \<and> buf_len b5 = buf_len out)"
      using E_room(1) [OF b4(2), of "n + HEADER_SIZE" AMQP_FRAME_END] 2(4) b4(3) by (auto simp: HEADER_SIZE_def)
    with b1 b2 2 b4 show ?thesis by (auto simp: inner_send_frame_def fits_or_fault_def)
  qed
qed

lemma write_errors: "amqp_ssl_write c ws = (Inl e, c') \<Longrightarrow> io_error e"
  by (auto simp: amqp_ssl_write_def ssl_error_def io_error_def Let_def
      split: list.splits write_outcome.splits if_splits)

lemma send_all_errors: "send_all amqp_ssl_write c wss = (Inl e, c') \<Longrightarrow> io_error e"
  by (induction wss arbitrary: c) (auto split: prod.splits sum.splits dest: write_errors)

lemma send_frame_reports:
  assumes "valid_frame f" and "honest (outbound_buffer (conn c))" and "20 \<le> buf_len (outbound_buffer (conn c))"
  obtains r c' where "amqp_send_frame c f = (r, c')" and "\<And>e. r = Inl e \<Longrightarrow> io_error e"
    and "honest (outbound_buffer (conn c'))"
    and "buf_len (outbound_buffer (conn c')) = buf_len (outbound_buffer (conn c))"
proof -
  from inner_send_fits [OF assms]
  consider "inner_send_frame (outbound_buffer (conn c)) f = Inl EFAULT"
    | b enc n sep where "inner_send_frame (outbound_buffer (conn c)) f = Inr (b, enc, n, sep)" "honest b"
        "buf_len b = buf_len (outbound_buffer (conn c))"
    by (auto simp: fits_or_fault_def)
  then show thesis
  proof cases
    case 1
    then show thesis
      using assms(2) that [of "Inl EFAULT" "c\<lparr>conn := conn c\<rparr>"]
      by (simp add: amqp_send_frame_def amqp_send_frame_to_def io_error_def)
  next
    case (2 b enc n sep)
    let ?w = "send_all amqp_ssl_write c (frame_pieces b enc n sep)"
    have eq: "amqp_send_frame c f = (fst ?w, (snd ?w)\<lparr>conn := (conn c)\<lparr>outbound_buffer := b\<rparr>\<rparr>)"
      by (simp add: amqp_send_frame_def amqp_send_frame_to_def 2(1) frame_pieces_def case_prod_beta)
    show thesis
      by (rule that [OF eq]) (use 2 send_all_errors [of c] in \<open>auto simp: prod_eq_iff\<close>)
  qed
qed

lemma send_frames_reports:
  "list_all valid_frame fs \<Longrightarrow> honest (outbound_buffer (conn c)) \<Longrightarrow>
     20 \<le> buf_len (outbound_buffer (conn c)) \<Longrightarrow>
     \<exists>r c'. send_frames amqp_send_frame fs c = (r, c') \<and> (\<forall>e. r = Inl e \<longrightarrow> io_error e)"
proof (induction fs arbitrary: c)
  case (Cons f fs)
  obtain r c1 where r: "amqp_send_frame c f = (r, c1)" "\<And>e. r = Inl e \<Longrightarrow> io_error e"
    "honest (outbound_buffer (conn c1))"
    "buf_len (outbound_buffer (conn c1)) = buf_len (outbound_buffer (conn c))"
    using send_frame_reports [of f c] Cons.prems by auto
  from r Cons.IH [of c1] Cons.prems show ?case by (cases r) auto
qed simp

section \<open>Frames are of the type that they say\<close>

fun typed_frame :: "amqp_frame \<Rightarrow> bool" where
  "typed_frame (Method_Frame _ i m) \<longleftrightarrow> id_method m = i"
| "typed_frame (Header_Frame _ i _ p) \<longleftrightarrow> class_of p = i"
| "typed_frame _ \<longleftrightarrow> True"

lemma typed_decode_frame: "decode_frame mem buf target = Inr f \<Longrightarrow> typed_frame f"
  by (auto simp: decode_frame_def decode_method_frame_def decode_header_frame_def decode_body_frame_def
      check_Inr Let_def decoded_type decoded_class split: if_splits)

lemma typed_finish:
  "finish_frame mem st = (st', Inr f) \<Longrightarrow> typed_frame f"
  "finish_protocol_header st = (st', Inr f) \<Longrightarrow> typed_frame f"
  by (auto simp: finish_frame_def finish_protocol_header_def check_Inr Let_def
      split: sum.splits if_splits dest: typed_decode_frame)

lemma counted_Inr: "counted k s = (st', Inr (n, f)) \<longleftrightarrow> s = (st', Inr f) \<and> n = k"
  by (cases s; cases "snd s") (auto simp: counted_def)

lemma typed_read_more: "read_more mem st d k = (st', Inr (n, f)) \<Longrightarrow> typed_frame f"
proof (induction mem st d k rule: read_more.induct)
  case (1 mem st d k)
  from 1(2) show ?case
    by (subst (asm) read_more.simps)
       (auto simp: Let_def counted_Inr split: if_splits sum.splits connection_phase.splits
         dest: typed_finish 1(1) [OF _ refl refl _ refl])
qed

lemma typed_wait_inner: "wait_frame_inner mem c = Some (Inr (Some f), c') \<Longrightarrow> typed_frame f"
proof (induction mem c rule: wait_frame_inner.induct)
  case (1 mem c)
  show ?case
    using 1(3) by (subst (asm) wait_frame_inner.simps)
      (auto simp: Let_def amqp_handle_input_def
        split: if_splits option.splits sum.splits prod.splits dest: typed_read_more 1(1,2))
qed

fun typed_reply :: "u32 list \<Rightarrow> amqp_rpc_reply \<Rightarrow> bool" where
  "typed_reply ids (AMQP_RESPONSE_NORMAL (Some (i, m))) \<longleftrightarrow> id_method m = i \<and> amqp_id_in_reply_list i ids"
| "typed_reply ids (AMQP_RESPONSE_SERVER_EXCEPTION i m) \<longleftrightarrow>
     id_method m = i \<and> (i = AMQP_CHANNEL_CLOSE_METHOD \<or> i = AMQP_CONNECTION_CLOSE_METHOD)"
| "typed_reply ids _ \<longleftrightarrow> True"

lemma typed_answer: "answers ch ids f \<Longrightarrow> typed_frame f \<Longrightarrow> typed_reply ids (reply_of ids f)"
  by (cases f) auto

lemma typed_rpc_result: "rpc_wait mem ch ids c = Some y \<Longrightarrow> \<forall>r. fst y = Inr r \<longrightarrow> typed_reply ids r"
proof (induction rule: rpc_wait.raw_induct [rotated, consumes 1, case_names step])
  case (step rpc mem ch ids c y)
  from step(2) show ?case
    by (auto simp: enqueue_def split: option.splits sum.splits prod.splits if_splits)
       (metis typed_answer typed_wait_inner step(1))+
qed

lemma typed_rpc_wait: "rpc_wait mem ch ids c = Some (Inr r, c') \<Longrightarrow> typed_reply ids r"
  using typed_rpc_result by fastforce

lemma typed_simple_rpc: "amqp_simple_rpc mem ch req ids m c = Some (Inr r, c') \<Longrightarrow> typed_reply ids r"
  by (auto simp: amqp_simple_rpc_def split: sum.splits prod.splits if_splits dest: typed_rpc_wait)

section \<open>Properties\<close>

text \<open>C32: Publishing sends the method, the header and the body cut to fit: on a tuned connection
  whose writes are taken in full, with method and header that fit a frame and a body of less than 2 GB,
  what is written is the method frame, the header frame with the length of the body, and body frames
  whose fragments are not empty, leave room for the 8 bytes around them, and give the body when put
  together.\<close>

theorem publish_frames:
  assumes "can_send n c" and "frame_max (conn c) = int n" and "8 < n" and "length body < 2 ^ 31"
    and "m = publish_method exchange routing_key mandatory immediate"
    and "valid_method m" and "length (wire_method m) + 12 \<le> n"
    and "valid_properties (properties_or_default properties)" and "class_of (properties_or_default properties) = AMQP_BASIC_CLASS"
    and "length (wire_frame (publish_header channel properties body)) \<le> n"
  shows "\<exists>c' parts. amqp_basic_publish channel exchange routing_key mandatory immediate properties body c =
      Some (Inr (), c') \<and>
    outgoing c' = outgoing c @ concat (map wire_frame (message_frames channel m properties body parts)) \<and>
    concat parts = body \<and> list_all (\<lambda>p. p \<noteq> [] \<and> length p + 8 \<le> n) parts"
proof -
  have "concat (chunks (n - 8) body) = body" using assms(3) by (intro concat_chunks) simp
  with publish_sends(1) [OF assms] chunks_fit [OF assms(3)] show ?thesis by blast
qed

text \<open>C34: Publishing returns, and either succeeds or reports an error that the caller can handle: a
  frame that does not fit the outbound buffer (\<open>-EFAULT\<close>) or an error of the socket.  It neither loops
  for ever, nor trips an assertion, nor leaves a buffer, whatever the connection does with the
  frames.  This is for a body of less than 2 GiB, strings and properties that fit their length fields,
  and a connection with a \<open>frame_max\<close> of 20 or more and an outbound buffer of that size.\<close>

theorem basic_publish_returns:
  assumes "honest (outbound_buffer (conn c))" and "buf_len (outbound_buffer (conn c)) = n"
    and "frame_max (conn c) = int n" and "20 \<le> n" and "length body < 2 ^ 31"
    and "valid_method (publish_method exchange routing_key mandatory immediate)"
    and "valid_properties (properties_or_default properties)" and "class_of (properties_or_default properties) = AMQP_BASIC_CLASS"
  shows "\<exists>r c'. amqp_basic_publish channel exchange routing_key mandatory immediate properties body c = Some (r, c') \<and>
    (r = Inr () \<or> r = Inl EFAULT \<or> r = Inl EIO \<or> (\<exists>errno. r = Inl (Os_Error errno)))"
proof -
  let ?m = "publish_method exchange routing_key mandatory immediate"
  have n: "8 < n" "n < 2 ^ 31" using assms(1,2,4) by (simp_all add: honest_def)
  note eq = publish_eq [OF assms(3) n assms(5) refl, of channel exchange routing_key mandatory immediate properties]
  have "list_all valid_frame (message_frames channel ?m properties body (chunks (n - 8) body))"
    using assms(6-8)
    by (simp add: message_frames_def publish_header_def publish_method_def list_all_iff)
  from send_frames_reports [OF this assms(1)] assms(2,4) obtain r c' where
    "send_frames amqp_send_frame (message_frames channel ?m properties body (chunks (n - 8) body)) c = (r, c')"
    "\<forall>e. r = Inl e \<longrightarrow> io_error e" by auto
  then show ?thesis by (cases r) (auto simp: eq io_error_def)
qed

text \<open>A body of 2 GiB and more, up to 4 GiB, trips the assertion after the method and the header were
  sent, and with \<open>frame_max\<close> 8 there is no room for a fragment.\<close>

theorem publish_huge_body_aborts:
  assumes "2 ^ 31 \<le> length body" and "length body < 2 ^ 32"
    and "amqp_send_method c channel AMQP_BASIC_PUBLISH_METHOD
           (publish_method exchange routing_key mandatory immediate) = (Inr (), c1)"
    and "amqp_send_frame c1 (publish_header channel properties body) = (Inr (), c2)"
  shows "amqp_basic_publish channel exchange routing_key mandatory immediate properties body c = Some (Inl Aborted, c2)"
proof -
  have "remaining_of body 0 = sint (word_of_int (int (length body)) :: 32 word)" by (simp add: remaining_of_def)
  also have "\<dots> < 0"
  proof -
    have "(word_of_int (int (length body)) :: 32 word) = word_of_int (int (length body) - 2 ^ 32)"
      by (simp add: word_of_int_eq_iff take_bit_eq_mod mod_diff_right_eq [symmetric])
    also have "sint \<dots> = int (length body) - 2 ^ 32"
      using assms(1,2) by (intro sint_small) simp_all
    finally show ?thesis using assms(2) by simp
  qed
  finally have "publish_body channel body usable 0 c2 = Some (Inl Aborted, c2)" for usable
    by (subst publish_body.simps) simp
  with assms(3,4) show ?thesis by (simp add: amqp_basic_publish_def io_bind_def io_of_def)
qed


text \<open>C35: A reply is what its caller casts it to: when a synchronous call returns a struct, the struct is
  the one of the reply method that the call named, whatever bytes the broker sent, and the reply is kept
  in the cell of the thread.\<close>

theorem reply_typed:
  assumes "rpc_call mem channel request reply m (c, cell) = Some (Inr (Some r), c', cell')"
  shows "id_method r = reply \<and> cell' = Some (AMQP_RESPONSE_NORMAL (Some (reply, r)))"
proof -
  from assms obtain rep where rep: "amqp_simple_rpc mem channel request [reply, 0] m c = Some (Inr rep, c')"
      "RPC_REPLY rep = Some r" "cell' = Some rep"
    by (auto simp: rpc_call_def api_map_def store_reply_def AMQP_SIMPLE_RPC_def
        split: option.splits sum.splits prod.splits)
  from rep(2) obtain i where "rep = AMQP_RESPONSE_NORMAL (Some (i, r))" by (cases rep rule: RPC_REPLY.cases) auto
  with typed_simple_rpc [OF rep(1)] rep(3) show ?thesis by (auto split: if_splits)
qed

section \<open>A concrete message\<close>

definition demo_body :: "byte list" where
  "demo_body = replicate 60 7"

lemma demo_message [simp]:
  "can_send 64 demo_client" "frame_max (conn demo_client) = 64" "length demo_body = 60"
  "valid_method (publish_method [] [47] False False)"
  "length (wire_method (publish_method [] [47] False False)) = 6"
  "valid_properties (properties_or_default None)" "class_of (properties_or_default None) = AMQP_BASIC_CLASS"
  "length (wire_frame (publish_header 1 None demo_body)) = 22"
  "outgoing demo_client = []"
  by (simp_all add: can_send_def demo_client_def honest_def demo_buffer_def demo_conn_def demo_body_def
      publish_method_def publish_header_def properties_or_default_def default_properties_def AMQP_BASIC_CLASS_def
      length_wire_frame wire_basic.simps wire_properties_def wire_table_def wire_shortstr_def wire_bits_def
      wire_16_def wire_8_def shortstr_def valid_flags_def wire_flags_def wire_fields.simps wire_if_def)

lemma publish_frames_witness:
  "\<exists>c' parts. amqp_basic_publish 1 [] [47] False False None demo_body demo_client = Some (Inr (), c') \<and>
     concat parts = demo_body \<and> list_all (\<lambda>p. length p + 8 \<le> 64) parts"
  using publish_frames [of 64 demo_client demo_body "publish_method [] [47] False False" "[]" "[47]" False False None 1]
  by (auto simp: list_all_iff)

lemma basic_publish_returns_witness:
  "\<exists>r c'. amqp_basic_publish 1 [] [47] False False None demo_body demo_client = Some (r, c') \<and>
     (r = Inr () \<or> r = Inl EFAULT \<or> r = Inl EIO \<or> (\<exists>errno. r = Inl (Os_Error errno)))"
proof (rule basic_publish_returns [where n = 64])
  show "honest (outbound_buffer (conn demo_client))" "buf_len (outbound_buffer (conn demo_client)) = 64"
    by (simp_all add: demo_client_def demo_buffer_def honest_def)
qed simp_all

lemma demo_arrived [simp]:
  "sock_ok (demo_receiving wss)" "list_all (\<lambda>ws. ws \<noteq> []) wss \<Longrightarrow> flowing (demo_receiving wss)"
  "pending (demo_receiving wss) = concat wss"
  by (simp_all add: demo_receiving_def demo_client_def sock_ok_def flowing_def list_all_iff
      pending_def unread_def demo_buffer_def)


lemma reply_typed_witness:
  "\<exists>c' r. rpc_call demo_memory 1 AMQP_TX_SELECT_METHOD AMQP_TX_SELECT_OK_METHOD (M_Tx AMQP_Tx_Select)
     (demo_receiving [wire_frame demo_reply], None) =
    Some (Inr (Some r), c', Some (AMQP_RESPONSE_NORMAL (Some (AMQP_TX_SELECT_OK_METHOD, r))))"
proof -
  have "stream (demo_receiving [wire_frame demo_reply]) ([] @ [demo_reply]) []" by (intro demo_stream) simp_all
  from simple_rpc_stream [OF this, of demo_memory 1 "[AMQP_TX_SELECT_OK_METHOD, 0]" AMQP_TX_SELECT_METHOD "M_Tx AMQP_Tx_Select"]
  obtain c' where "amqp_simple_rpc demo_memory 1 AMQP_TX_SELECT_METHOD [AMQP_TX_SELECT_OK_METHOD, 0]
      (M_Tx AMQP_Tx_Select) (demo_receiving [wire_frame demo_reply]) =
    Some (Inr (AMQP_RESPONSE_NORMAL (Some (AMQP_TX_SELECT_OK_METHOD, M_Tx AMQP_Tx_Select_Ok))), c')"
    using demo_rpc(3,4)
    by (auto simp: demo_reply_def demo_select_def AMQP_TX_SELECT_OK_METHOD_def)
  then obtain cell where call: "rpc_call demo_memory 1 AMQP_TX_SELECT_METHOD AMQP_TX_SELECT_OK_METHOD
      (M_Tx AMQP_Tx_Select) (demo_receiving [wire_frame demo_reply], None) = Some (Inr (Some (M_Tx AMQP_Tx_Select_Ok)), c', cell)"
    by (simp add: rpc_call_def api_map_def store_reply_def AMQP_SIMPLE_RPC_def amqp_get_rpc_reply_def demo_memory_def)
  from reply_typed [OF this] this show ?thesis by auto
qed

end
