(* ===== verification/Debug_Dump.thy ===== *)
theory Debug_Dump
  imports Prelude
begin

text \<open>
  The hex dump, \<open>src/src/librabbitmq/amqp_debug.c\<close>.  What is printed is a string.  The row before
  the first one is memory that was never set; it is a parameter.
\<close>

section \<open>One row\<close>

definition hex_digit :: "nat \<Rightarrow> char" where
  "hex_digit n = ''0123456789ABCDEF'' ! (n mod 16)"

fun hex :: "nat \<Rightarrow> string" where
  "hex n = (if n < 16 then [hex_digit n] else hex (n div 16) @ [hex_digit n])"

declare hex.simps [simp del]

definition zero_padded :: "nat \<Rightarrow> nat \<Rightarrow> string" where
  "zero_padded w n = replicate (w - length (hex n)) CHR ''0'' @ hex n"

definition isprint :: "nat \<Rightarrow> bool" where
  "isprint ch \<longleftrightarrow> 32 \<le> ch \<and> ch < 127"

definition gap_before :: "nat \<Rightarrow> string" where
  "gap_before i = (if i = 8 then '' :'' else '''')"

definition dump_row :: "nat \<Rightarrow> nat \<Rightarrow> nat list \<Rightarrow> string" where
  "dump_row count numinrow chs =
     zero_padded 8 (count - numinrow) @ '':'' @
     (if 0 < numinrow
      then concat (map (\<lambda>i. gap_before i @ '' '' @ zero_padded 2 (chs ! i)) [0..<numinrow]) @
           concat (map (\<lambda>i. gap_before i @ ''   '') [numinrow..<16]) @ ''  '' @
           map (\<lambda>i. if isprint (chs ! i) then char_of (chs ! i) else CHR ''.'') [0..<numinrow]
      else '''') @ [char_of (10 :: nat)]"

definition rows_eq :: "nat list \<Rightarrow> nat list \<Rightarrow> bool" where
  "rows_eq a b \<longleftrightarrow> list_all (\<lambda>i. a ! i = b ! i) [0..<16]"

definition dots_row :: string where
  "dots_row = ''          .. .. .. .. .. .. .. .. : .. .. .. .. .. .. .. ..'' @ [char_of (10 :: nat)]"

section \<open>The loop\<close>

record dump_state =
  dump_count :: nat
  numinrow :: nat
  chs :: "nat list"
  oldchs :: "nat list"
  showed_dots :: bool
  printed :: string

definition flush_row :: "dump_state \<Rightarrow> dump_state" where
  "flush_row s =
     (let s1 = (if rows_eq (oldchs s) (chs s)
                then if showed_dots s then s else s\<lparr>showed_dots := True, printed := printed s @ dots_row\<rparr>
                else s\<lparr>showed_dots := False, printed := printed s @ dump_row (dump_count s) (numinrow s) (chs s)\<rparr>)
      in s1\<lparr>oldchs := chs s, numinrow := 0\<rparr>)"

definition dump_byte :: "nat \<Rightarrow> dump_state \<Rightarrow> dump_state" where
  "dump_byte ch s =
     (let s1 = (if numinrow s = 16 then flush_row s else s)
      in s1\<lparr>dump_count := dump_count s1 + 1, chs := (chs s1)[numinrow s1 := ch], numinrow := numinrow s1 + 1\<rparr>)"

definition dump_start :: "nat list \<Rightarrow> nat list \<Rightarrow> dump_state" where
  "dump_start chs0 oldchs0 =
     \<lparr>dump_count = 0, numinrow = 0, chs = chs0, oldchs = oldchs0, showed_dots = False, printed = ''''\<rparr>"

definition amqp_dump :: "nat list \<Rightarrow> nat list \<Rightarrow> byte list \<Rightarrow> string" where
  "amqp_dump chs0 oldchs0 buffer =
     (let s = fold dump_byte (map unat buffer) (dump_start chs0 oldchs0)
      in printed s @ dump_row (dump_count s) (numinrow s) (chs s) @
         (if numinrow s \<noteq> 0 then zero_padded 8 (dump_count s) @ '':'' @ [char_of (10 :: nat)] else ''''))"

section \<open>Laws\<close>

text \<open>The bytes of the current row, and how many were read.\<close>

definition row_of :: "dump_state \<Rightarrow> nat list" where
  "row_of s = take (numinrow s) (chs s)"

lemma dump_start_simps [simp]:
  "dump_count (dump_start c q) = 0" "numinrow (dump_start c q) = 0" "chs (dump_start c q) = c"
  "oldchs (dump_start c q) = q" "\<not> showed_dots (dump_start c q)" "printed (dump_start c q) = ''''"
  by (simp_all add: dump_start_def)

lemma dump_byte_room:
  assumes "numinrow s < 16" and "length (chs s) = 16"
  shows "row_of (dump_byte ch s) = row_of s @ [ch]" "numinrow (dump_byte ch s) = numinrow s + 1"
    "length (chs (dump_byte ch s)) = 16" "printed (dump_byte ch s) = printed s"
    "oldchs (dump_byte ch s) = oldchs s" "dump_count (dump_byte ch s) = dump_count s + 1"
    "showed_dots (dump_byte ch s) = showed_dots s"
  using assms by (simp_all add: dump_byte_def row_of_def Let_def take_Suc_conv_app_nth)

lemma dump_byte_oldchs:
  "numinrow s \<noteq> 16 \<Longrightarrow> dump_byte ch (s\<lparr>oldchs := old\<rparr>) = (dump_byte ch s)\<lparr>oldchs := old\<rparr>"
  by (simp add: dump_byte_def Let_def)

lemma dump_bytes_room:
  "numinrow s + length ws \<le> 16 \<Longrightarrow> length (chs s) = 16 \<Longrightarrow>
     row_of (fold dump_byte ws s) = row_of s @ ws \<and> numinrow (fold dump_byte ws s) = numinrow s + length ws \<and>
     length (chs (fold dump_byte ws s)) = 16 \<and> printed (fold dump_byte ws s) = printed s \<and>
     oldchs (fold dump_byte ws s) = oldchs s \<and> dump_count (fold dump_byte ws s) = dump_count s + length ws \<and>
     showed_dots (fold dump_byte ws s) = showed_dots s"
proof (induction ws arbitrary: s)
  case (Cons w ws)
  have "numinrow s < 16" using Cons.prems(1) by simp
  note b = dump_byte_room [OF this Cons.prems(2), of w]
  from Cons.IH [of "dump_byte w s"] Cons.prems(1) b show ?case by simp
qed (simp add: row_of_def)

lemma rows_eq_iff: "length a = 16 \<Longrightarrow> length b = 16 \<Longrightarrow> rows_eq a b \<longleftrightarrow> a = b"
  by (auto simp: rows_eq_def list_all_iff intro: nth_equalityI)

text \<open>
  The first full row is compared with memory that was never set: when that happens to hold the same
  bytes, the row is not printed.
\<close>

theorem dump_may_hide_first_row:
  assumes "length row = 16" and "length chs0 = 16"
  shows "printed (fold dump_byte (row @ [ch]) (dump_start chs0 row)) = dots_row"
proof -
  let ?s = "fold dump_byte row (dump_start chs0 row)"
  have s: "row_of ?s = row" "numinrow ?s = 16" "length (chs ?s) = 16" "printed ?s = ''''" "oldchs ?s = row"
      "\<not> showed_dots ?s"
    using dump_bytes_room [of "dump_start chs0 row" row] assms by (auto simp: row_of_def)
  moreover have "chs ?s = row" using s(1-3) by (simp add: row_of_def)
  ultimately show ?thesis
    using assms by (simp add: dump_byte_def flush_row_def Let_def rows_eq_iff)
qed

text \<open>A buffer of less than a row is printed whatever the memory holds.\<close>

theorem dump_short:
  assumes "length ws < 16" and "length chs0 = 16" and "length old = 16" and "length old' = 16"
  shows "amqp_dump chs0 old ws = amqp_dump chs0 old' ws"
proof -
  have "fold dump_byte (map unat ws) (dump_start chs0 old') =
      (fold dump_byte (map unat ws) (dump_start chs0 old))\<lparr>oldchs := old'\<rparr>"
    if "length ws < 16" for ws :: "byte list"
    using that
  proof (induction ws rule: rev_induct)
    case (snoc w ws)
    let ?s = "fold dump_byte (map unat ws) (dump_start chs0 old)"
    have "numinrow ?s = length ws"
      using dump_bytes_room [of "dump_start chs0 old" "map unat ws"] snoc.prems assms(2) by simp
    with snoc show ?case by (simp add: dump_byte_oldchs)
  qed (simp add: dump_start_def)
  from this [OF assms(1)] show ?thesis by (simp add: amqp_dump_def Let_def)
qed

end
