(* ===== verification/Spec2Isabelle.thy ===== *)
theory Spec2Isabelle
  imports Pg_Transactions Pg_Counts Pg_Calls Pg_Init Codec_Laws Pool Frames Login Open_Socket Api_Laws Debug_Dump
begin

text \<open>
  Verification of pg\_amqp, the PostgreSQL extension that publishes to an AMQP broker from inside
  a transaction (\<open>src/src/pg_amqp.c\<close>), and of the AMQP client library that the repository
  carries (\<open>src/src/librabbitmq/\<close>).

  \<^bold>\<open>The program.\<close>  A backend keeps a list \<open>HEAD_BS\<close> of broker states, one for each broker id it has
  used.  SQL calls publish on channel 1 (\<open>amqp.autonomous_publish\<close>) or, inside an AMQP
  transaction, on channel 2 (\<open>amqp.publish\<close>); PostgreSQL's transaction callbacks commit or roll
  back channel 2 with the transaction.  The connection is made by rabbitmq-c, which is not part
  of the repository.  The bundled library under \<open>librabbitmq\<close> is an older client with the same
  wire format; the build no longer links it, so the two halves of the development do not call
  each other.

  \<^bold>\<open>The extension.\<close>
  \<^item> \<open>Pg_Env\<close>: what is outside.  The record \<open>'w rabbitmq\<close> has one operation for each function of
    rabbitmq-c, SPI and the C library that \<open>pg_amqp.c\<close> calls, over an arbitrary world \<open>'w\<close>; every
    call and every log line is recorded in a trace, in the state \<open>'w io\<close>.
  \<^item> \<open>Pg_State\<close>: \<open>struct brokerstate\<close>, the GUC values, \<open>local_amqp_get_a_bs\<close>,
    \<open>local_amqp_set_timeout\<close>, \<open>local_amqp_disconnect_bs\<close>, \<open>local_amqp_drain_returns\<close>,
    \<open>local_amqp_free_hosts\<close>, and the invariant \<open>bs_ok\<close> of one broker state.
  \<^item> \<open>Pg_Connect\<close>: \<open>local_amqp_load_hosts\<close>, \<open>local_amqp_open_socket\<close>, \<open>local_amqp_login\<close>,
    \<open>local_amqp_get_bs\<close> (backoff, failover, connect budget).
  \<^item> \<open>Pg_Xact\<close>: \<open>amqp_local_phase2\<close>, \<open>amqp_local_subxact\<close>, \<open>amqp_atexit\<close>; the locale
    \<open>bs_callback\<close> is what a callback may do to one broker state, and its lemmas lift that to the
    walk over \<open>HEAD_BS\<close>.
  \<^item> \<open>Pg_Publish\<close>: \<open>pg_amqp_publish_opt\<close> with its \<open>redo\<close> loop, \<open>pg_amqp_exchange_declare\<close>,
    \<open>pg_amqp_disconnect\<close>.
  \<^item> \<open>Pg_Session\<close>, \<open>Pg_Steps\<close>: the effect of one call on the whole list, and the step relation
    \<open>pg_step\<close> of a backend with its reachable states.  \<open>Pg_Counts\<close>: how far \<open>n\<close> steps can move the two
    32-bit counters \<open>uncommitted\<close> and \<open>consecutive_failures\<close>; the locale \<open>counting_callback\<close> extends
    \<open>bs_callback\<close> by what a callback may do to them.
  \<^item> \<open>Pg_Init\<close>: the settings that \<open>_PG_init\<close> defines, and that they stay in range.
  \<^item> \<open>Pg_Demo\<close>: a small concrete environment for the witnesses.
  \<^item> \<open>Pg_Transactions\<close>, \<open>Pg_Calls\<close>: the properties of the callbacks and of the SQL functions.

  \<^bold>\<open>The bundled library.\<close>
  \<^item> \<open>Wire\<close>: the byte macros of \<open>amqp_private.h\<close>.  A buffer is a length field and the bytes that are
    really there, so that a wrong length field is visible; reading or writing past the bytes is
    the result \<open>Undefined Out_Of_Bounds\<close>.  The locale \<open>field_codec\<close> is the contract of one field:
    its encoder emits certain bytes and its decoder parses them back.
  \<^item> \<open>Table\<close>: \<open>amqp_table.c\<close>; the decoder's recursion is shown to end by the bytes it consumes.
  \<^item> \<open>Codec\<close>: composing fields into structs, optional fields, flag words.
  \<^item> \<open>Framing_Connection\<close>, \<open>Framing_Queue\<close>, \<open>Framing_Basic\<close>, \<open>Framing_File\<close>, \<open>Framing_Tx\<close>,
    \<open>Framing_Properties\<close>: the 91 method structs and 12 property structs of \<open>amqp_framing.h\<close> with
    their cases of the four big switches of \<open>amqp_framing.c\<close>; \<open>Framing\<close> puts the classes
    together.
  \<^item> \<open>Codec_Laws\<close>: the properties of the codec.  \<open>Framing_Types\<close>: a decoder builds the struct of the
    number it is called with.
  \<^item> \<open>Pool\<close>: \<open>amqp_mem.c\<close> on an explicit heap, where \<open>malloc\<close>, \<open>realloc\<close> and \<open>free\<close> are the C
    library; \<open>pool_inv\<close> is the invariant of a pool and the regions that were handed out.
  \<^item> \<open>Connection\<close>: \<open>amqp_connection.c\<close> and the reads and writes of \<open>amqp_private.h\<close>.  The record
    \<open>amqp_connection\<close> is the part of the \<open>struct\<close> that the frame machine uses, \<open>client\<close> adds the
    socket buffer, the queue of frames, and what the peer sends and accepts.  \<open>read_more\<close> is the label
    of the same name.  \<open>Connection_Laws\<close> has the invariant \<open>framing_ok\<close> and the machinery, \<open>Frames\<close>
    the properties: bytes of a frame (\<open>wire_frame\<close>), sending, receiving, splitting.
  \<^item> \<open>Socket\<close>: \<open>amqp_socket.c\<close> from \<open>wait_frame_inner\<close> to \<open>amqp_login\<close>.  A call is a function from
    the client to a result and the client after it, \<open>None\<close> when it never returns.  \<open>Socket_Laws\<close>: the
    predicate \<open>stream c fs rest\<close> (the frames \<open>fs\<close> and the bytes \<open>rest\<close> will arrive) is the abstract
    view of a client; waiting for a frame takes the first frame of the stream.  \<open>Login\<close>: the whole
    handshake against a broker that follows the protocol.
  \<^item> \<open>Open_Socket\<close>: \<open>amqp_open_socket\<close> and \<open>amqp_ssl_handshake\<close>; the resolver, the kernel and OpenSSL
    are parameters, and the calls to them are recorded.
  \<^item> \<open>Api\<close>, \<open>Api_Laws\<close>: \<open>amqp_api.c\<close>, publishing and the synchronous calls.
  \<^item> \<open>Debug_Dump\<close>: \<open>amqp_debug.c\<close>, the hex dump.

  \<^bold>\<open>What is shown.\<close>  About the callbacks of the extension (\<open>Pg_Transactions\<close>): the invariant of every
  reachable state, publishing only in tx mode, no silent loss at commit, discarding of poisoned
  transactions, rollback.  About its SQL functions (\<open>Pg_Calls\<close>): accounting of messages, the retry
  rule, termination, body limit, back-pressure, backoff, failover.  About the codec
  (\<open>Codec_Laws\<close>): round trips, and no read outside a buffer.  About the connection (\<open>Frames\<close>,
  \<open>Socket_Laws\<close>, \<open>Login\<close>): a frame that is sent is received whatever pieces its bytes arrive in, the
  invariant holds and nothing undefined is done except on frames that the predicate \<open>risky_frame\<close>
  describes, frames come in order, a remote procedure call returns when its answer arrives, the login
  succeeds and keeps within both offers.  About the calls (\<open>Api_Laws\<close>): what publishing writes and
  that the other side reads it, that it returns with success or an error, and the types of replies.  About resources
  (\<open>Pool\<close>, \<open>Open_Socket\<close>): regions of a pool do not overlap, emptying it returns everything, no
  descriptor leaks, and no handshake without its checks.  Theorems that are not numbered show where
  the code is weaker than it should be: wrapped lengths and sizes, bodies of 2 GiB, short writes, a
  refused frame that stays.

  \<^bold>\<open>Bounds.\<close>  Loops of the source are total recursions, with three exceptions that are
  \<open>partial_function\<close>s, where \<open>None\<close> is a call that does not return: the draining of pushed frames
  (\<open>polls_run_dry\<close> names the condition under which it ends), the wait of a remote procedure call
  (\<open>rpc_answered\<close>), and the loop over the body of a message (\<open>basic_publish_returns\<close>).  Buffers are
  shorter than \<open>2 ^ 31\<close> bytes, as \<open>int offset\<close> requires.

  \<^bold>\<open>Integers.\<close>  \<open>uncommitted\<close> and \<open>consecutive_failures\<close> are C \<open>int\<close>s that nothing bounds.  The model
  keeps them as \<open>int\<close>s and increments with \<open>int32\<close>, which wraps, as the \<open>-fwrapv\<close> of PGXS makes it.  The
  sign clauses of \<open>pg_reachable_invariant\<close> are for less than \<open>2 ^ 30\<close> steps; the properties
  about buffered messages say \<open>0 < uncommitted\<close> or \<open>0 \<le> uncommitted\<close> where they need it.  The backoff shift is a 32-bit
  shift whose undefined cases (a negative count) are a parameter, \<open>undefined_shift\<close>.  \<open>size_t\<close> arithmetic of the
  pools and of the frame sizes wraps at \<open>2 ^ 64\<close>.  The count of blocks of a pool, an \<open>int\<close>, is the
  length of a list and does not wrap: a pool of \<open>2 ^ 31\<close> blocks is out of scope.

  \<^bold>\<open>Not modelled.\<close>  The text of log messages.  An error that PostgreSQL raises inside SPI or a memory
  context leaves the calling function by \<open>longjmp\<close>; SPI reports failure by its result here.  Whether a \<open>malloc\<close>
  of the table decoder succeeds depends on its size only, so that equal requests of nested tables fail
  together.  Reads and writes that run into the timeouts of the socket are among the errors the
  peer may answer with.  The pools
  of a connection appear in it as the answer whether an allocation succeeds (\<open>memory\<close>), not as the
  heap of \<open>Pool\<close>; bytes of a body fragment are a value, not a pointer into the frame pool.
\<close>

end
